(* ===== verification/Prelude.thy ===== *)
theory Prelude
  imports
    Complex_Main
    "HOL-Library.Stream"
    "HOL-Library.List_Lexorder"
    "HOL-Library.Char_ord"
    "HOL-Library.Multiset"
begin

text \<open>
  Shared vocabulary of the development. JavaScript numbers are modelled as \<open>real\<close>
  (the game's quantities are small decimals; IEEE rounding is not modelled), integral
  counters as \<open>nat\<close> or \<open>int\<close>. A thrown JavaScript exception is a value of
  \<open>js_error\<close> on the left of a sum, and \<open>bind_js\<close> sequences two statements that
  may throw. \<open>Math.random()\<close> is an explicit stream of reals (\<open>rng\<close>), consumed in
  the order the code draws. The collection \<open>game_consts\<close> holds the definitions of the
  constants declared at the top of \<open>src/src/Game.js\<close>; \<open>js_simps\<close> the evaluation
  rules of \<open>bind_js\<close>.
\<close>

named_theorems game_consts "the numeric constants of Game.js"
named_theorems js_simps "evaluation of the error monad"

type_synonym rng = "real stream"

datatype js_error = Type_Error | Undefined_Game_Var

type_synonym 'a js = "js_error + 'a"

definition bind_js :: "'a js \<Rightarrow> ('a \<Rightarrow> 'b js) \<Rightarrow> 'b js" where
  "bind_js m f = (case m of Inl e \<Rightarrow> Inl e | Inr a \<Rightarrow> f a)"

text \<open>A loop whose body may throw: the first exception ends it.\<close>

fun fold_js :: "('a \<Rightarrow> 's \<Rightarrow> 's js) \<Rightarrow> 'a list \<Rightarrow> 's \<Rightarrow> 's js" where
  "fold_js f [] s = Inr s"
| "fold_js f (x # xs) s = bind_js (f x s) (fold_js f xs)"

text \<open>A stream of \<open>Math.random()\<close> results: every value lies in \<open>[0, 1)\<close>.\<close>

definition rng_ok :: "rng \<Rightarrow> bool" where
  "rng_ok r \<longleftrightarrow> (\<forall>v \<in> sset r. 0 \<le> v \<and> v < 1)"

subsection \<open>The error monad\<close>

lemma bind_js_Inl [simp, js_simps]: "bind_js (Inl e) f = Inl e"
  by (simp add: bind_js_def)

lemma bind_js_Inr [simp, js_simps]: "bind_js (Inr a) f = f a"
  by (simp add: bind_js_def)

lemma bind_js_Inr_right [simp, js_simps]: "bind_js m Inr = m"
  by (cases m) simp_all

lemma fold_js_Nil_fun [simp, js_simps]: "fold_js f [] = Inr"
  by (rule ext) simp

lemma bind_js_eq_Inr [js_simps]:
  "bind_js m f = Inr b \<longleftrightarrow> (\<exists>a. m = Inr a \<and> f a = Inr b)"
  by (cases m) auto

lemma fold_js_invariant:
  assumes "P s" "\<And>x s s'. x \<in> set xs \<Longrightarrow> P s \<Longrightarrow> f x s = Inr s' \<Longrightarrow> P s'"
    and "fold_js f xs s = Inr s'"
  shows "P s'"
  using assms
proof (induction xs arbitrary: s)
  case Nil
  then show ?case by simp
next
  case (Cons x xs)
  from Cons.prems(3) obtain t where t: "f x s = Inr t" "fold_js f xs t = Inr s'"
    by (auto simp: bind_js_eq_Inr)
  from Cons.prems(2) [OF _ Cons.prems(1) t(1)] have "P t" by simp
  moreover have "\<And>y u u'. y \<in> set xs \<Longrightarrow> P u \<Longrightarrow> f y u = Inr u' \<Longrightarrow> P u'"
    using Cons.prems(2) by (meson list.set_intros(2))
  ultimately show ?case using Cons.IH t(2) by blast
qed

lemma fold_js_total:
  assumes "P s" "\<And>x s. x \<in> set xs \<Longrightarrow> P s \<Longrightarrow> \<exists>s'. f x s = Inr s' \<and> P s'"
  shows "\<exists>s'. fold_js f xs s = Inr s' \<and> P s'"
  using assms
proof (induction xs arbitrary: s)
  case Nil
  then show ?case by simp
next
  case (Cons x xs)
  from Cons.prems obtain t where "f x s = Inr t" "P t" by auto
  with Cons.IH [of t] Cons.prems(2) show ?case by simp
qed

subsection \<open>Random streams\<close>

lemma rng_ok_shd [simp]: "rng_ok r \<Longrightarrow> 0 \<le> shd r \<and> shd r < 1"
  by (simp add: rng_ok_def shd_sset)

lemma rng_ok_stl [simp]: "rng_ok r \<Longrightarrow> rng_ok (stl r)"
  by (auto simp: rng_ok_def dest: stl_sset)

lemma rng_ok_sconst [simp]: "rng_ok (sconst v) \<longleftrightarrow> 0 \<le> v \<and> v < 1"
  by (simp add: rng_ok_def)

subsection \<open>Clamping\<close>

lemma clamp_bounds [simp]:
  fixes lo hi v :: real
  assumes "lo \<le> hi"
  shows "lo \<le> max lo (min hi v) \<and> max lo (min hi v) \<le> hi"
  using assms by simp

subsection \<open>Lists keyed by a field\<close>

text \<open>
  The game keeps its objects in a list ordered by their numeric id; the lemmas below say
  that the operations used on it keep the keys strictly increasing.
\<close>

lemma sorted_wrt_map_filter [intro]:
  "sorted_wrt R (map f xs) \<Longrightarrow> sorted_wrt R (map f (filter P xs))"
  by (induction xs) auto

lemma map_key_update [simp]:
  "(\<And>a. k (g a) = k a) \<Longrightarrow> map k (map (\<lambda>a. if P a then g a else a) xs) = map k xs"
  by (induction xs) auto

lemma find_key_map [simp]:
  "(\<And>a. k (g a) = k a) \<Longrightarrow>
   find (\<lambda>a. k a = i) (map (\<lambda>a. if k a = j then g a else a) xs) =
   map_option (\<lambda>a. if k a = j then g a else a) (find (\<lambda>a. k a = i) xs)"
  by (induction xs) auto

lemma find_Some_in_set:
  "find P xs = Some a \<Longrightarrow> a \<in> set xs \<and> P a"
  by (induction xs) (auto split: if_splits)

lemma find_key_None_iff:
  "find (\<lambda>a. k a = i) xs = None \<longleftrightarrow> i \<notin> set (map k xs)"
  by (induction xs) auto

end
