(* ===== verification/Entities.thy ===== *)
theory Entities
  imports Prelude
begin

text \<open>
  The entity model of \<open>src/src/Game.js\<close>: the constants of lines 5--55, the
  prototype \<open>GameObject\<close> (lines 93--116) as the record \<open>game_object\<close>, its three
  variants \<open>Obstacle\<close>, \<open>Human\<close> and \<open>Car\<close> (lines 118--151) as constructors, the
  rectangle \<open>toRectPoints\<close> and the open-interval overlap test \<open>checkCollision\<close>
  (lines 400--405). A variant's \<open>onCollide\<close> is modelled as the list of
  \<open>reaction\<close>s it performs, in the order of its statements; the session interprets
  them (theory \<open>Collisions\<close>), which keeps the per-variant behaviour here and its effect
  on the session state there. The record fields \<open>ox\<close>, \<open>oy\<close>, \<open>oz\<close> and
  \<open>ospeed\<close> are the object properties \<open>x\<close>, \<open>y\<close>, \<open>z\<close> and \<open>speed\<close>; the id
  is the number whose decimal string is the object's key (theory \<open>Keys\<close>), and a
  constructed object has id 0 until \<open>createGameObject\<close> assigns one. Only a
  \<open>Human\<close> carries a speed; the other variants have \<open>ospeed = 0\<close> (JavaScript leaves
  it undefined and never reads it).
\<close>

subsection \<open>Constants\<close>

definition scene_left_border :: real where [game_consts]: "scene_left_border = -3"
definition scene_right_border :: real where [game_consts]: "scene_right_border = 3"
definition scene_depth :: real where [game_consts]: "scene_depth = 30"
definition z_destroy_threshold :: real where [game_consts]: "z_destroy_threshold = -2"

definition car_width :: real where [game_consts]: "car_width = 0.5"
definition car_height :: real where [game_consts]: "car_height = 0.2"
definition car_depth :: real where [game_consts]: "car_depth = 0.7"
definition obstacle_width :: real where [game_consts]: "obstacle_width = 1"
definition obstacle_height :: real where [game_consts]: "obstacle_height = 1"
definition obstacle_depth :: real where [game_consts]: "obstacle_depth = 1"
definition human_width :: real where [game_consts]: "human_width = 0.2"
definition human_height :: real where [game_consts]: "human_height = 0.4"
definition human_depth :: real where [game_consts]: "human_depth = 0.1"

definition turn_left_key :: int where [game_consts]: "turn_left_key = 37"
definition turn_right_key :: int where [game_consts]: "turn_right_key = 39"

definition difficulty_update_interval :: nat where [game_consts]: "difficulty_update_interval = 750"
definition max_difficulty :: nat where [game_consts]: "max_difficulty = 9"

definition first_obstacle_tick :: nat where [game_consts]: "first_obstacle_tick = 1000"
definition initial_obstacle_interval :: int where [game_consts]: "initial_obstacle_interval = 500"
definition obstacle_interval_decrement :: int where [game_consts]: "obstacle_interval_decrement = -30"
definition scale_low_min_obstacles_count :: real where [game_consts]: "scale_low_min_obstacles_count = 1"
definition scale_high_min_obstacles_count :: real where [game_consts]: "scale_high_min_obstacles_count = 4"
definition scale_low_max_obstacles_count :: real where [game_consts]: "scale_low_max_obstacles_count = 1"
definition scale_high_max_obstacles_count :: real where [game_consts]: "scale_high_max_obstacles_count = 5"

definition first_human_tick :: nat where [game_consts]: "first_human_tick = 500"
definition min_human_interval :: real where [game_consts]: "min_human_interval = 5"
definition max_human_interval :: real where [game_consts]: "max_human_interval = 300"
definition human_min_speed :: real where [game_consts]: "human_min_speed = 0.005"
definition human_max_speed :: real where [game_consts]: "human_max_speed = 0.02"

definition initial_speed :: real where [game_consts]: "initial_speed = 0.04"
definition speed_increment :: real where [game_consts]: "speed_increment = 0.007"
definition initial_strafe_speed :: real where [game_consts]: "initial_strafe_speed = 0.025"
definition strafe_speed_increment :: real where [game_consts]: "strafe_speed_increment = 0.0015"

definition mode_score_increment :: int where [game_consts]: "mode_score_increment = 50"
definition mode_score_decrement :: int where [game_consts]: "mode_score_decrement = -200"

subsection \<open>Objects\<close>

datatype obj_type = Car | Obstacle | Human

datatype mode = Robocar | Carmageddon

record game_object =
  oid :: nat
  otype :: obj_type
  ox :: real
  oy :: real
  oz :: real
  width :: real
  height :: real
  depth :: real
  ospeed :: real

definition new_game_object :: "obj_type \<Rightarrow> real \<Rightarrow> real \<Rightarrow> real \<Rightarrow> game_object" where
  "new_game_object t w h d =
     \<lparr>oid = 0, otype = t, ox = 0, oy = h / 2, oz = 0, width = w, height = h, depth = d, ospeed = 0\<rparr>"

definition new_obstacle :: "real \<Rightarrow> real \<Rightarrow> game_object" where
  "new_obstacle x z =
     (new_game_object Obstacle obstacle_width obstacle_height obstacle_depth)\<lparr>ox := x, oz := z\<rparr>"

definition new_human :: "real \<Rightarrow> real \<Rightarrow> real \<Rightarrow> game_object" where
  "new_human x z sp =
     (new_game_object Human human_width human_height human_depth)\<lparr>ox := x, oz := z, ospeed := sp\<rparr>"

definition new_car :: game_object where
  "new_car = new_game_object Car car_width car_height car_depth"

definition to_rect_points :: "game_object \<Rightarrow> (real \<times> real) \<times> (real \<times> real)" where
  "to_rect_points ob =
     (let w = width ob / 2; d = depth ob / 2
      in ((ox ob - w, oz ob - d), (ox ob + w, oz ob + d)))"

definition check_collision :: "game_object \<Rightarrow> game_object \<Rightarrow> bool" where
  "check_collision o1 o2 =
     (case to_rect_points o1 of ((o1x1, o1y1), (o1x2, o1y2)) \<Rightarrow>
      case to_rect_points o2 of ((o2x1, o2y1), (o2x2, o2y2)) \<Rightarrow>
        o1x1 < o2x2 \<and> o1x2 > o2x1 \<and> o1y1 < o2y2 \<and> o1y2 > o2y1)"

subsection \<open>Collision responses\<close>

text \<open>
  What \<open>this.onCollide(anotherObj)\<close> does, statement by statement. \<open>Stop_Game\<close>
  is the call \<open>stop()\<close>, \<open>Score_Delta\<close> the update \<open>score += inc\<close>,
  \<open>Show_Delta\<close> the call \<open>UI.addScore(inc)\<close>, \<open>Destroy_Other\<close> the call
  \<open>destroyGameObject(anotherObj)\<close>, \<open>Flip_Speed\<close> the update \<open>this.speed *= -1\<close>.
  The mode is the session's \<open>gameMode\<close>, read when the response runs.
\<close>

datatype reaction = Flip_Speed | Stop_Game | Score_Delta int | Show_Delta int | Destroy_Other

definition mode_inc :: "mode \<Rightarrow> int" where
  "mode_inc m = (if m = Robocar then mode_score_decrement else mode_score_increment)"

fun on_collide :: "mode \<Rightarrow> obj_type \<Rightarrow> obj_type \<Rightarrow> reaction list" where
  "on_collide m Car other =
     (if other = Obstacle then [Stop_Game] else []) @
     (if other = Human then [Score_Delta (mode_inc m), Show_Delta (mode_inc m), Destroy_Other] else [])"
| "on_collide m Human other = (if other = Obstacle then [Flip_Speed] else [])"
| "on_collide m Obstacle other = []"

subsection \<open>Rectangles as point sets\<close>

text \<open>
  The abstract meaning of a rectangle: the open set of points of the (x, z) plane within
  half the width and half the depth of the centre.
\<close>

definition open_rect :: "game_object \<Rightarrow> (real \<times> real) set" where
  "open_rect ob = {(p, q). \<bar>p - ox ob\<bar> < width ob / 2 \<and> \<bar>q - oz ob\<bar> < depth ob / 2}"

lemma check_collision_unfold:
  "check_collision o1 o2 \<longleftrightarrow>
     ox o1 - width o1 / 2 < ox o2 + width o2 / 2 \<and> ox o1 + width o1 / 2 > ox o2 - width o2 / 2 \<and>
     oz o1 - depth o1 / 2 < oz o2 + depth o2 / 2 \<and> oz o1 + depth o1 / 2 > oz o2 - depth o2 / 2"
  by (simp add: check_collision_def to_rect_points_def Let_def)

lemma check_collision_sym: "check_collision o1 o2 \<longleftrightarrow> check_collision o2 o1"
  by (auto simp: check_collision_unfold)

lemma interval_overlap_point:
  fixes a c p q :: real
  assumes "0 < a" "0 < c" "p - a < q + c" "p + a > q - c"
  shows "\<exists>v. \<bar>v - p\<bar> < a \<and> \<bar>v - q\<bar> < c"
proof -
  define lo where "lo = max (p - a) (q - c)"
  define hi where "hi = min (p + a) (q + c)"
  have b: "p - a \<le> lo" "q - c \<le> lo" "hi \<le> p + a" "hi \<le> q + c" "lo < hi"
    using assms by (simp_all add: lo_def hi_def)
  then have "\<bar>(lo + hi) / 2 - p\<bar> < a \<and> \<bar>(lo + hi) / 2 - q\<bar> < c"
    unfolding abs_less_iff by argo
  then show ?thesis by blast
qed

lemma new_object_fields [simp]:
  "otype (new_obstacle x z) = Obstacle" "ox (new_obstacle x z) = x" "oz (new_obstacle x z) = z"
  "width (new_obstacle x z) = obstacle_width" "depth (new_obstacle x z) = obstacle_depth"
  "otype (new_human x z sp) = Human" "ox (new_human x z sp) = x" "oz (new_human x z sp) = z"
  "ospeed (new_human x z sp) = sp"
  "width (new_human x z sp) = human_width" "depth (new_human x z sp) = human_depth"
  "otype new_car = Car" "ox new_car = 0" "oz new_car = 0"
  "width new_car = car_width" "depth new_car = car_depth"
  by (simp_all add: new_obstacle_def new_human_def new_car_def new_game_object_def)

text \<open>
  C6. For objects of positive extent, \<open>checkCollision\<close> holds exactly when their open
  rectangles on the (x, z) plane share a point: the four strict comparisons implement
  the overlap of the two open rectangles.
\<close>

theorem check_collision_refines_overlap:
  assumes "0 < width o1" "0 < width o2" "0 < depth o1" "0 < depth o2"
  shows "check_collision o1 o2 \<longleftrightarrow> open_rect o1 \<inter> open_rect o2 \<noteq> {}"
proof
  assume c: "check_collision o1 o2"
  obtain p where p: "\<bar>p - ox o1\<bar> < width o1 / 2" "\<bar>p - ox o2\<bar> < width o2 / 2"
    using interval_overlap_point [of "width o1 / 2" "width o2 / 2" "ox o1" "ox o2"] assms c
    by (auto simp: check_collision_unfold)
  obtain q where q: "\<bar>q - oz o1\<bar> < depth o1 / 2" "\<bar>q - oz o2\<bar> < depth o2 / 2"
    using interval_overlap_point [of "depth o1 / 2" "depth o2 / 2" "oz o1" "oz o2"] assms c
    by (auto simp: check_collision_unfold)
  from p q have "(p, q) \<in> open_rect o1 \<inter> open_rect o2" by (simp add: open_rect_def)
  then show "open_rect o1 \<inter> open_rect o2 \<noteq> {}" by blast
next
  assume "open_rect o1 \<inter> open_rect o2 \<noteq> {}"
  then obtain p q where "(p, q) \<in> open_rect o1" "(p, q) \<in> open_rect o2" by auto
  then show "check_collision o1 o2"
    unfolding open_rect_def check_collision_unfold abs_less_iff by (simp only: mem_Collect_eq case_prod_conv) argo
qed

theorem check_collision_refines_overlap_witness:
  "0 < width new_car \<and> 0 < width (new_obstacle 0 (1 / 2)) \<and> 0 < depth new_car \<and>
   0 < depth (new_obstacle 0 (1 / 2)) \<and>
   (check_collision new_car (new_obstacle 0 (1 / 2)) \<longleftrightarrow>
    open_rect new_car \<inter> open_rect (new_obstacle 0 (1 / 2)) \<noteq> {})"
proof -
  have h: "0 < width new_car" "0 < width (new_obstacle 0 (1 / 2))"
    "0 < depth new_car" "0 < depth (new_obstacle 0 (1 / 2))"
    by (simp_all add: game_consts)
  show ?thesis using h check_collision_refines_overlap [OF h] by blast
qed

text \<open>
  C7. Touching edges do not collide: when the right edge of one rectangle lies exactly on
  the left edge of the other, \<open>checkCollision\<close> is false whatever the depths.
\<close>

theorem touching_edges_no_collision:
  assumes "ox o1 + width o1 / 2 = ox o2 - width o2 / 2"
  shows "\<not> check_collision o1 o2 \<and> \<not> check_collision o2 o1"
  using assms by (auto simp: check_collision_unfold)

theorem touching_edges_no_collision_witness:
  "ox (new_obstacle (-5 / 2) 30) + width (new_obstacle (-5 / 2) 30) / 2 =
     ox (new_obstacle (-3 / 2) 30) - width (new_obstacle (-3 / 2) 30) / 2 \<and>
   \<not> check_collision (new_obstacle (-5 / 2) 30) (new_obstacle (-3 / 2) 30) \<and>
   \<not> check_collision (new_obstacle (-3 / 2) 30) (new_obstacle (-5 / 2) 30)"
proof -
  have h: "ox (new_obstacle (-5 / 2) 30) + width (new_obstacle (-5 / 2) 30) / 2 =
     ox (new_obstacle (-3 / 2) 30) - width (new_obstacle (-3 / 2) 30) / 2"
    by (simp add: game_consts)
  show ?thesis using h touching_edges_no_collision [OF h] by blast
qed

end
