(* ===== verification/Rng.thy ===== *)
theory Rng
  imports Prelude
begin

text \<open>
  The random helpers of \<open>src/src/Game.js\<close> (lines 190--211). Each call of
  \<open>Math.random()\<close> takes the head of the stream \<open>r\<close> and returns the rest, so a
  helper maps a stream to its result and the stream left over. \<open>shuffle\<close> is the
  in-place Fisher--Yates loop, one recursive call per iteration of
  \<^verbatim>\<open>for (let i = array.length; i; i--)\<close>. The lemmas give the ranges of the draws
  and show that the shuffle permutes its array (its multiset is unchanged) whenever the
  stream holds values of \<open>[0, 1)\<close>, as \<open>Math.random\<close> guarantees.
\<close>

definition js_random :: "real \<Rightarrow> real \<Rightarrow> rng \<Rightarrow> real \<times> rng" where
  "js_random mn mx r = (shd r * (mx - mn) + mn, stl r)"

definition random_int :: "real \<Rightarrow> real \<Rightarrow> rng \<Rightarrow> int \<times> rng" where
  "random_int mn mx r = (let (v, r') = js_random mn mx r in (\<lfloor>v\<rfloor>, r'))"

definition random_bool :: "rng \<Rightarrow> bool \<times> rng" where
  "random_bool r = (shd r < 1 / 2, stl r)"

fun shuffle_loop :: "nat \<Rightarrow> 'a list \<Rightarrow> rng \<Rightarrow> 'a list \<times> rng" where
  "shuffle_loop 0 xs r = (xs, r)"
| "shuffle_loop (Suc i) xs r =
     (let (j, r') = random_int 0 (real (Suc i)) r; j' = nat j
      in shuffle_loop i (xs[i := xs ! j', j' := xs ! i]) r')"

definition shuffle :: "'a list \<Rightarrow> rng \<Rightarrow> 'a list \<times> rng" where
  "shuffle xs r = shuffle_loop (length xs) xs r"

subsection \<open>Ranges of the draws\<close>

lemma js_random_bounds:
  assumes "rng_ok r" "mn \<le> mx"
  shows "mn \<le> fst (js_random mn mx r) \<and> (mn < mx \<longrightarrow> fst (js_random mn mx r) < mx)"
proof -
  from assms(1) have v: "0 \<le> shd r" "shd r < 1" by simp_all
  have ge: "mn \<le> shd r * (mx - mn) + mn" using v assms(2) by simp
  have lt: "shd r * (mx - mn) + mn < mx" if "mn < mx"
  proof -
    have "shd r * (mx - mn) < 1 * (mx - mn)"
      using v that by (intro mult_strict_right_mono) auto
    then have "shd r * (mx - mn) < mx - mn" by simp
    then show ?thesis by linarith
  qed
  show ?thesis unfolding js_random_def fst_conv using ge lt by blast
qed

lemma random_int_bounds:
  assumes "rng_ok r" "mn < mx"
  shows "mn \<le> fst (random_int (of_int mn) (of_int mx) r) \<and> fst (random_int (of_int mn) (of_int mx) r) < mx"
proof -
  let ?v = "fst (js_random (of_int mn) (of_int mx) r)"
  from js_random_bounds [OF assms(1), of "of_int mn" "of_int mx"] assms(2)
  have "of_int mn \<le> ?v" "?v < of_int mx" by simp_all
  then have "mn \<le> \<lfloor>?v\<rfloor>" "\<lfloor>?v\<rfloor> < mx"
    by (simp_all add: le_floor_iff floor_less_iff)
  then show ?thesis by (simp add: random_int_def split_def Let_def)
qed

lemma random_int_stream [simp]: "snd (random_int mn mx r) = stl r"
  by (simp add: random_int_def js_random_def)

lemma js_random_stream [simp]: "snd (js_random mn mx r) = stl r"
  by (simp add: js_random_def)

lemma random_bool_stream [simp]: "snd (random_bool r) = stl r"
  by (simp add: random_bool_def)

subsection \<open>The shuffle permutes\<close>

lemma shuffle_index_bound:
  assumes "rng_ok r"
  shows "nat (fst (random_int 0 (real (Suc i)) r)) < Suc i"
  using random_int_bounds [OF assms, of 0 "int (Suc i)"] by (simp add: nat_less_iff)

lemma shuffle_loop_mset_rng:
  "rng_ok r \<Longrightarrow> i \<le> length xs \<Longrightarrow>
   mset (fst (shuffle_loop i xs r)) = mset xs \<and> rng_ok (snd (shuffle_loop i xs r))"
proof (induction i arbitrary: xs r)
  case 0
  then show ?case by simp
next
  case (Suc i)
  define j where "j = nat (fst (random_int 0 (real (Suc i)) r))"
  have j: "j < Suc i" using shuffle_index_bound [OF Suc.prems(1)] by (simp add: j_def)
  let ?ys = "xs[i := xs ! j, j := xs ! i]"
  have "mset ?ys = mset xs"
    using j Suc.prems(2) by (simp add: mset_swap)
  moreover have "length ?ys = length xs" by simp
  moreover have "rng_ok (stl r)" using Suc.prems(1) by simp
  ultimately have "mset (fst (shuffle_loop i ?ys (stl r))) = mset xs \<and> rng_ok (snd (shuffle_loop i ?ys (stl r)))"
    using Suc.IH [of "stl r" ?ys] Suc.prems(2) by simp
  then show ?case
    by (simp add: j_def split_def Let_def random_int_def js_random_def)
qed

lemma length_shuffle_loop [simp]: "length (fst (shuffle_loop i xs r)) = length xs"
  by (induction i arbitrary: xs r) (simp_all add: split_def Let_def)

lemma shuffle_rng_ok: "rng_ok r \<Longrightarrow> rng_ok (snd (shuffle xs r))"
  using shuffle_loop_mset_rng [of r "length xs" xs] by (simp add: shuffle_def)

end
