(* ===== verification/Keys.thy ===== *)
theory Keys
  imports Prelude
begin

text \<open>
  Object keys of \<open>gameObjects\<close> (\<open>src/src/Game.js\<close>). The store is a plain object
  indexed by numeric ids, so \<open>Object.keys\<close> yields the ids as decimal strings, and the
  collision pass of \<open>handleCollisions\<close> (lines 378--398) skips the pair \<open>(i, k)\<close>
  when \<open>k <= i\<close> compares the two strings lexicographically. This theory models
  \<open>Number.prototype.toString\<close> on non-negative integers (\<open>nat_str\<close>), its inverse
  (\<open>str_nat\<close>), the string comparison (\<open>key_le\<close>) and the list of pairs the nested
  \<open>forEach\<close> visits (\<open>collision_pairs\<close>). It proves the round trip, the
  injectivity of the key strings, and that the string comparison still visits every
  unordered pair of distinct keys exactly once.
\<close>

definition digit_char :: "nat \<Rightarrow> char" where
  "digit_char d = char_of (48 + d)"

fun nat_str :: "nat \<Rightarrow> string" where
  "nat_str n = (if n < 10 then [digit_char n] else nat_str (n div 10) @ [digit_char (n mod 10)])"

declare nat_str.simps [simp del]

definition str_nat :: "string \<Rightarrow> nat" where
  "str_nat s = foldl (\<lambda>acc c. 10 * acc + (of_char c - 48)) 0 s"

definition int_str :: "int \<Rightarrow> string" where
  "int_str i = (if i < 0 then CHR ''-'' # nat_str (nat (- i)) else nat_str (nat i))"

definition key_le :: "nat \<Rightarrow> nat \<Rightarrow> bool" where
  "key_le k i \<longleftrightarrow> nat_str k \<le> nat_str i"

text \<open>
  \<^verbatim>\<open>keys.forEach((i) => { keys.forEach((k) => { if (k <= i) return; ... }) })\<close>
  visits the pairs below, in this order.
\<close>

definition collision_pairs :: "nat list \<Rightarrow> (nat \<times> nat) list" where
  "collision_pairs ks = concat (map (\<lambda>i. concat (map (\<lambda>k. if key_le k i then [] else [(i, k)]) ks)) ks)"

text \<open>
  The reference the specification asks for: pairs \<open>(i, k)\<close> with \<open>i < k\<close> as
  numbers, and the unordered pair a visited \<open>(i, k)\<close> stands for.
\<close>

definition numeric_pairs :: "nat list \<Rightarrow> (nat \<times> nat) list" where
  "numeric_pairs ks = concat (map (\<lambda>i. concat (map (\<lambda>k. if k \<le> i then [] else [(i, k)]) ks)) ks)"

definition upair :: "nat \<times> nat \<Rightarrow> nat set" where
  "upair p = {fst p, snd p}"

subsection \<open>Round trip of the decimal representation\<close>

lemma of_char_digit_char [simp]: "d < 10 \<Longrightarrow> of_char (digit_char d) = 48 + d"
  by (simp add: digit_char_def)

lemma str_nat_snoc: "str_nat (s @ [c]) = 10 * str_nat s + (of_char c - 48)"
  by (simp add: str_nat_def)

lemma nat_str_roundtrip: "str_nat (nat_str n) = n"
proof (induction n rule: nat_str.induct)
  case (1 n)
  show ?case
  proof (cases "n < 10")
    case True
    then show ?thesis by (simp add: nat_str.simps [of n] str_nat_def)
  next
    case False
    then have "str_nat (nat_str (n div 10)) = n div 10" using "1.IH" by simp
    with False show ?thesis by (simp add: nat_str.simps [of n] str_nat_snoc)
  qed
qed

lemma nat_str_inj: "nat_str m = nat_str n \<longleftrightarrow> m = n"
  by (metis nat_str_roundtrip)

lemma nat_str_not_Nil [simp]: "nat_str n \<noteq> []"
  by (subst nat_str.simps) simp

subsection \<open>The string order on keys\<close>

lemma key_le_refl [simp]: "key_le i i"
  by (simp add: key_le_def)

lemma key_le_total_strict: "i \<noteq> k \<Longrightarrow> \<not> key_le k i \<longleftrightarrow> key_le i k"
  by (auto simp: key_le_def nat_str_inj dest: order_antisym)

lemma set_collision_pairs:
  "set (collision_pairs ks) = {(i, k). i \<in> set ks \<and> k \<in> set ks \<and> \<not> key_le k i}"
  by (auto simp: collision_pairs_def split: if_splits)

lemma inner_pairs_eq:
  "concat (map (\<lambda>k. if P k then [] else [(i, k)]) ks) = map (Pair i) (filter (\<lambda>k. \<not> P k) ks)"
  by (induction ks) auto

lemma distinct_concat_Pair:
  "distinct ks \<Longrightarrow> (\<And>i. distinct (f i)) \<Longrightarrow> distinct (concat (map (\<lambda>i. map (Pair i) (f i)) ks))"
  by (induction ks) (auto simp: distinct_map inj_on_def)

lemma distinct_collision_pairs: "distinct ks \<Longrightarrow> distinct (collision_pairs ks)"
  unfolding collision_pairs_def inner_pairs_eq
  by (rule distinct_concat_Pair) simp_all

lemma collision_pairs_irrefl: "(i, i) \<notin> set (collision_pairs ks)"
  by (simp add: set_collision_pairs)

lemma collision_pairs_one_order:
  "(i, k) \<in> set (collision_pairs ks) \<Longrightarrow> (k, i) \<notin> set (collision_pairs ks)"
  by (cases "i = k") (auto simp: set_collision_pairs key_le_total_strict)

lemma set_numeric_pairs:
  "set (numeric_pairs ks) = {(i, k). i \<in> set ks \<and> k \<in> set ks \<and> i < k}"
  by (auto simp: numeric_pairs_def split: if_splits)

lemma distinct_numeric_pairs: "distinct ks \<Longrightarrow> distinct (numeric_pairs ks)"
  unfolding numeric_pairs_def inner_pairs_eq
  by (rule distinct_concat_Pair) simp_all

lemma upair_eq_iff: "upair p = upair q \<longleftrightarrow> p = q \<or> p = (snd q, fst q)"
  by (cases p; cases q) (auto simp: upair_def doubleton_eq_iff)

lemma upair_image_tournament:
  assumes irr: "\<And>i. \<not> R i i" and tot: "\<And>i k. i \<noteq> k \<Longrightarrow> R i k \<longleftrightarrow> \<not> R k i"
  shows "upair ` {(i, k). i \<in> S \<and> k \<in> S \<and> R i k} = {{i, k} | i k. i \<in> S \<and> k \<in> S \<and> i \<noteq> k}"
proof (intro equalityI subsetI)
  fix p assume "p \<in> upair ` {(i, k). i \<in> S \<and> k \<in> S \<and> R i k}"
  then obtain i k where "p = {i, k}" "i \<in> S" "k \<in> S" "R i k"
    by (auto simp: upair_def)
  moreover from irr \<open>R i k\<close> have "i \<noteq> k" by blast
  ultimately show "p \<in> {{i, k} | i k. i \<in> S \<and> k \<in> S \<and> i \<noteq> k}"
    by blast
next
  fix p assume "p \<in> {{i, k} | i k. i \<in> S \<and> k \<in> S \<and> i \<noteq> k}"
  then obtain i k where p: "p = {i, k}" "i \<in> S" "k \<in> S" "i \<noteq> k" by blast
  show "p \<in> upair ` {(i, k). i \<in> S \<and> k \<in> S \<and> R i k}"
  proof (cases "R i k")
    case True
    with p have "(i, k) \<in> {(i, k). i \<in> S \<and> k \<in> S \<and> R i k}" by simp
    moreover have "p = upair (i, k)" using p by (simp add: upair_def)
    ultimately show ?thesis by blast
  next
    case False
    with p tot [of i k] have "R k i" by blast
    with p have "(k, i) \<in> {(i, k). i \<in> S \<and> k \<in> S \<and> R i k}" by simp
    moreover have "p = upair (k, i)" using p by (simp add: upair_def insert_commute)
    ultimately show ?thesis by blast
  qed
qed

lemma inj_on_upair_tournament:
  "(\<And>i k. (i, k) \<in> A \<Longrightarrow> (k, i) \<notin> A) \<Longrightarrow> inj_on upair A"
  by (auto simp: inj_on_def upair_eq_iff)

subsection \<open>Each unordered pair is tested once\<close>

text \<open>
  C5. Although \<open>handleCollisions\<close> orders keys as strings (\<open>"10" < "9"\<close>), for any
  list of distinct keys the pairs it visits, read as unordered pairs, are exactly the
  pairs \<open>i < k\<close> of the numeric order, each once: as multisets the two coincide.
\<close>

theorem collision_pairs_unordered:
  assumes "distinct ks"
  shows "mset (map upair (collision_pairs ks)) = mset (map upair (numeric_pairs ks))"
proof (rule iffD1 [OF set_eq_iff_mset_eq_distinct])
  have "inj_on upair (set (collision_pairs ks))"
    by (rule inj_on_upair_tournament) (rule collision_pairs_one_order)
  with assms show "distinct (map upair (collision_pairs ks))"
    by (simp add: distinct_map distinct_collision_pairs)
  have "inj_on upair (set (numeric_pairs ks))"
    by (rule inj_on_upair_tournament) (auto simp: set_numeric_pairs)
  with assms show "distinct (map upair (numeric_pairs ks))"
    by (simp add: distinct_map distinct_numeric_pairs)
  have "set (map upair (collision_pairs ks)) = {{i, k} | i k. i \<in> set ks \<and> k \<in> set ks \<and> i \<noteq> k}"
    unfolding set_map set_collision_pairs
    by (rule upair_image_tournament) (auto simp: key_le_total_strict)
  moreover have "set (map upair (numeric_pairs ks)) = {{i, k} | i k. i \<in> set ks \<and> k \<in> set ks \<and> i \<noteq> k}"
    unfolding set_map set_numeric_pairs
    by (rule upair_image_tournament) auto
  ultimately show "set (map upair (collision_pairs ks)) = set (map upair (numeric_pairs ks))"
    by simp
qed
text \<open>The string order does change which object comes first: \<open>(10, 9)\<close>, not \<open>(9, 10)\<close>.\<close>

theorem collision_pairs_unordered_witness:
  "distinct [1::nat, 9, 10] \<and> collision_pairs [1, 9, 10] = [(1, 9), (1, 10), (10, 9)] \<and>
   mset (map upair (collision_pairs [1, 9, 10])) = mset (map upair (numeric_pairs [1, 9, 10]))"
proof -
  have d: "distinct [1::nat, 9, 10]" by simp
  have c: "collision_pairs [1, 9, 10] = [(1, 9), (1, 10), (10, 9)]" by code_simp
  show ?thesis using d c collision_pairs_unordered [OF d] by simp
qed

end
