(* ===== verification/Hud.thy ===== *)
theory Hud
  imports Keys
begin

text \<open>
  The HUD of \<open>src/src/UI.js\<close>. Its module state (\<open>gameData\<close>, \<open>animating\<close>,
  \<open>canvasWidth\<close>, \<open>ctx\<close>, \<open>canvasHeight\<close>) is the record \<open>hud_state\<close>; the 2D
  context is the record \<open>ctx2d\<close> of the drawing properties the HUD sets and the stack
  that \<open>ctx.save\<close> pushes and \<open>ctx.restore\<close> pops, and each draw function is one
  operation on it. \<open>gameData\<close> is a map from variable names
  to numbers, merged by \<open>Object.assign\<close>; \<open>getGameVar\<close> throws on a missing name.
  \<open>draw\<close> returns the texts it paints, in order, so its output can be stated.
  A number is printed by \<open>toString\<close>; the HUD prints only integral values (the level,
  the floored score, the maximum score), so \<open>num_str\<close> prints the integer part.
\<close>

definition animation_duration :: int where [game_consts]: "animation_duration = 100"
definition animation_start_y :: real where [game_consts]: "animation_start_y = 120"
definition hud_padding :: real where [game_consts]: "hud_padding = 20"
definition score_inc_color :: string where "score_inc_color = ''#c3e88d''"
definition score_dec_color :: string where "score_dec_color = ''#e06c75''"
definition score_leading_zeroes :: nat where [game_consts]: "score_leading_zeroes = 5"

record anim =
  atext :: string
  acolor :: string
  aticks :: int
  ax :: real
  ay :: real

text \<open>
  What one \<open>fillText\<close> of \<open>drawAnimating\<close> paints: the text, with \<open>fillStyle\<close>,
  \<open>globalAlpha\<close> and position as set just before it.
\<close>

record anim_paint =
  ptext :: string
  pcolor :: string
  palpha :: real
  px :: real
  py :: real

text \<open>
  The 2D context of the HUD canvas: the drawing properties the HUD sets (\<open>font\<close>,
  \<open>fillStyle\<close>, \<open>textBaseline\<close>, \<open>textAlign\<close>, \<open>globalAlpha\<close>) and the stack of
  states that \<open>ctx.save()\<close> pushes and \<open>ctx.restore()\<close> pops. Pixels are not modelled:
  what a frame paints is the list of texts \<open>draw\<close> returns.
\<close>

record ctx_props =
  font :: string
  fill_style :: string
  text_baseline :: string
  text_align :: string
  global_alpha :: real

record ctx2d =
  drawing :: ctx_props
  save_stack :: "ctx_props list"

text \<open>A fresh context has the canvas defaults and an empty stack.\<close>

definition ctx_default :: ctx2d where
  "ctx_default = \<lparr>drawing = \<lparr>font = ''10px sans-serif'', fill_style = ''#000000'',
     text_baseline = ''alphabetic'', text_align = ''start'', global_alpha = 1\<rparr>, save_stack = []\<rparr>"

definition ctx_save :: "ctx2d \<Rightarrow> ctx2d" where
  "ctx_save c = c\<lparr>save_stack := drawing c # save_stack c\<rparr>"

text \<open>\<open>restore()\<close> on an empty stack does nothing.\<close>

definition ctx_restore :: "ctx2d \<Rightarrow> ctx2d" where
  "ctx_restore c = (case save_stack c of [] \<Rightarrow> c | p # ps \<Rightarrow> c\<lparr>drawing := p, save_stack := ps\<rparr>)"

definition set_text_layout :: "string \<Rightarrow> string \<Rightarrow> ctx2d \<Rightarrow> ctx2d" where
  "set_text_layout baseline align c =
     c\<lparr>drawing := (drawing c)\<lparr>text_baseline := baseline, text_align := align\<rparr>\<rparr>"

definition default_color :: string where "default_color = ''#fff''"
definition default_font :: string where "default_font = ''400 20px Roboto''"

record hud_state =
  hud_data :: "string \<rightharpoonup> real"
  animating :: "anim list"
  canvas_width :: real
  canvas_height :: real
  ctx :: ctx2d

definition hud_empty :: hud_state where
  "hud_empty = \<lparr>hud_data = Map.empty, animating = [], canvas_width = 0, canvas_height = 0, ctx = ctx_default\<rparr>"

definition ui_init :: "real \<Rightarrow> real \<Rightarrow> hud_state \<Rightarrow> hud_state" where
  "ui_init w h u =
     u\<lparr>ctx := (ctx u)\<lparr>drawing := (drawing (ctx u))\<lparr>font := default_font, fill_style := default_color\<rparr>\<rparr>,
       canvas_width := w, canvas_height := h\<rparr>"

definition ui_update_game_data :: "(string \<times> real) list \<Rightarrow> hud_state \<Rightarrow> hud_state" where
  "ui_update_game_data d u = u\<lparr>hud_data := hud_data u ++ map_of d\<rparr>"

definition get_game_var :: "string \<Rightarrow> hud_state \<Rightarrow> real js" where
  "get_game_var name u = (case hud_data u name of None \<Rightarrow> Inl Undefined_Game_Var | Some v \<Rightarrow> Inr v)"

definition num_str :: "real \<Rightarrow> string" where
  "num_str v = int_str \<lfloor>v\<rfloor>"

definition pad_start :: "nat \<Rightarrow> char \<Rightarrow> string \<Rightarrow> string" where
  "pad_start n c s = replicate (n - length s) c @ s"

definition difficulty_text :: "real \<Rightarrow> string" where
  "difficulty_text d = ''Speed: '' @ num_str (d + 1)"

definition score_text :: "real \<Rightarrow> string" where
  "score_text s = pad_start score_leading_zeroes (CHR ''0'') (num_str s)"

definition max_score_text :: "real \<Rightarrow> string" where
  "max_score_text s = ''Max: '' @ pad_start score_leading_zeroes (CHR ''0'') (num_str s)"

definition add_score :: "int \<Rightarrow> hud_state \<Rightarrow> hud_state" where
  "add_score sc u =
     (let color = (if sc > 0 then score_inc_color else score_dec_color);
          str = (if sc > 0 then CHR ''+'' # int_str sc else int_str sc)
      in u\<lparr>animating := animating u @
            [\<lparr>atext = str, acolor = color, aticks = animation_duration,
              ax = canvas_width u / 2, ay = animation_start_y\<rparr>]\<rparr>)"

text \<open>One frame of the loop \<^verbatim>\<open>for (let a of animating) { a.ticks--; a.y--; ... }\<close>.\<close>

definition step_anim :: "anim \<Rightarrow> anim" where
  "step_anim a = a\<lparr>aticks := aticks a - 1, ay := ay a - 1\<rparr>"

definition paint_of :: "anim \<Rightarrow> anim_paint" where
  "paint_of a = \<lparr>ptext = atext a, pcolor = acolor a,
     palpha = real_of_int (aticks a) / real_of_int animation_duration, px = ax a, py = ay a\<rparr>"

text \<open>
  The context as \<open>globalAlpha\<close> and \<open>fillStyle\<close> are set before the \<open>fillText\<close> of
  one animation.
\<close>

definition paint_ctx :: "anim \<Rightarrow> ctx2d \<Rightarrow> ctx2d" where
  "paint_ctx a c =
     c\<lparr>drawing := (drawing c)\<lparr>global_alpha := palpha (paint_of a), fill_style := pcolor (paint_of a)\<rparr>\<rparr>"

definition draw_animating :: "hud_state \<Rightarrow> hud_state \<times> anim_paint list" where
  "draw_animating u =
     (let c1 = ctx_save (ctx u);
          stepped = map step_anim (animating u);
          c2 = fold paint_ctx stepped c1
      in (u\<lparr>animating := filter (\<lambda>a. aticks a > 0) stepped, ctx := ctx_restore c2\<rparr>,
          map paint_of stepped))"

text \<open>
  The three labels. Each builds its text, saves the context, sets the text layout and
  paints; \<open>drawDifficulty\<close> and \<open>drawMaxScore\<close> restore the context, \<open>drawScore\<close>
  does not.
\<close>

definition draw_difficulty :: "real \<Rightarrow> hud_state \<Rightarrow> hud_state \<times> string" where
  "draw_difficulty d u =
     (let text = difficulty_text d;
          c = set_text_layout ''top'' ''left'' (ctx_save (ctx u))
      in (u\<lparr>ctx := ctx_restore c\<rparr>, text))"

definition draw_score :: "real \<Rightarrow> hud_state \<Rightarrow> hud_state \<times> string" where
  "draw_score sc u =
     (let text = score_text sc;
          c = set_text_layout ''top'' ''center'' (ctx_save (ctx u))
      in (u\<lparr>ctx := c\<rparr>, text))"

definition draw_max_score :: "real \<Rightarrow> hud_state \<Rightarrow> hud_state \<times> string" where
  "draw_max_score mx u =
     (let text = max_score_text mx;
          c = set_text_layout ''top'' ''right'' (ctx_save (ctx u))
      in (u\<lparr>ctx := ctx_restore c\<rparr>, text))"

text \<open>
  \<open>draw\<close>: \<open>clearRect\<close> (pixels are not modelled), then each \<open>getGameVar\<close> read, which
  may throw, followed by the label it feeds, in the order of the code; then the
  animations. The result is the HUD state and the texts painted in the frame.
\<close>

definition ui_draw :: "hud_state \<Rightarrow> (hud_state \<times> string list) js" where
  "ui_draw u =
     bind_js (get_game_var ''difficulty'' u) (\<lambda>d.
       (let (u1, t1) = draw_difficulty d u in
     bind_js (get_game_var ''score'' u1) (\<lambda>sc.
       (let (u2, t2) = draw_score sc u1 in
     bind_js (get_game_var ''maxScore'' u2) (\<lambda>mx.
       (let (u3, t3) = draw_max_score mx u2;
            (u4, paints) = draw_animating u3
        in Inr (u4, [t1, t2, t3] @ map ptext paints)))))))"

text \<open>
  Every running animation has between 1 and \<open>ANIMATION_DURATION\<close> frames left.
\<close>

definition anims_ok :: "hud_state \<Rightarrow> bool" where
  "anims_ok u \<longleftrightarrow> (\<forall>a\<in>set (animating u). 0 < aticks a \<and> aticks a \<le> animation_duration)"

subsection \<open>Reading the merged game data\<close>

lemma hud_data_update [simp]:
  "hud_data (ui_update_game_data d u) = hud_data u ++ map_of d"
  by (simp add: ui_update_game_data_def)

lemma get_game_var_Some: "hud_data u name = Some v \<Longrightarrow> get_game_var name u = Inr v"
  by (simp add: get_game_var_def)

subsection \<open>The save stack\<close>

lemma ctx_restore_pushed:
  "save_stack c' = drawing c # save_stack c \<Longrightarrow> ctx_restore c' = c"
  by (cases c, cases c') (simp add: ctx_restore_def)

lemma save_stack_layout [simp]:
  "save_stack (set_text_layout b a c) = save_stack c"
  "drawing (set_text_layout b a c) = (drawing c)\<lparr>text_baseline := b, text_align := a\<rparr>"
  by (simp_all add: set_text_layout_def)

lemma save_stack_save [simp]:
  "save_stack (ctx_save c) = drawing c # save_stack c" "drawing (ctx_save c) = drawing c"
  by (simp_all add: ctx_save_def)

lemma save_stack_fold_paint [simp]: "save_stack (fold paint_ctx as c) = save_stack c"
  by (induction as arbitrary: c) (simp_all add: paint_ctx_def)

lemma restore_layout_save [simp]: "ctx_restore (set_text_layout b a (ctx_save c)) = c"
  by (rule ctx_restore_pushed) simp

lemma draw_label_fields [simp]:
  "hud_data (fst (draw_difficulty d u)) = hud_data u" "animating (fst (draw_difficulty d u)) = animating u"
  "hud_data (fst (draw_score sc u)) = hud_data u" "animating (fst (draw_score sc u)) = animating u"
  "hud_data (fst (draw_max_score mx u)) = hud_data u" "animating (fst (draw_max_score mx u)) = animating u"
  by (simp_all add: draw_difficulty_def draw_score_def draw_max_score_def Let_def)

lemma draw_animating_fields [simp]:
  "hud_data (fst (draw_animating u)) = hud_data u"
  "ctx (fst (draw_animating u)) = ctx u"
  "canvas_width (fst (draw_animating u)) = canvas_width u"
  by (simp_all add: draw_animating_def Let_def ctx_restore_pushed)

text \<open>
  The three labels together: \<open>drawDifficulty\<close> and \<open>drawMaxScore\<close> leave the context
  as they found it, \<open>drawScore\<close> leaves one more saved state and its own text layout.
\<close>

lemma draw_labels:
  "fst (draw_max_score mx (fst (draw_score sc (fst (draw_difficulty d u))))) =
   u\<lparr>ctx := set_text_layout ''top'' ''center'' (ctx_save (ctx u))\<rparr>"
  by (simp add: draw_difficulty_def draw_score_def draw_max_score_def Let_def)

lemma ui_draw_Inr:
  assumes "hud_data u ''difficulty'' = Some d" "hud_data u ''score'' = Some sc"
    "hud_data u ''maxScore'' = Some mx"
  shows "ui_draw u = Inr (fst (draw_animating (u\<lparr>ctx := set_text_layout ''top'' ''center'' (ctx_save (ctx u))\<rparr>)),
           [difficulty_text d, score_text sc, max_score_text mx]
             @ map ptext (snd (draw_animating (u\<lparr>ctx := set_text_layout ''top'' ''center'' (ctx_save (ctx u))\<rparr>))))"
proof -
  have t: "snd (draw_difficulty d u) = difficulty_text d" "snd (draw_score sc v) = score_text sc"
    "snd (draw_max_score mx v) = max_score_text mx" for v
    by (simp_all add: draw_difficulty_def draw_score_def draw_max_score_def Let_def)
  show ?thesis
    using assms draw_labels [of mx sc d u]
    by (simp add: ui_draw_def get_game_var_Some split_def t Let_def)
qed

lemma ui_draw_Inl: "ui_draw u = Inl e \<Longrightarrow> e = Undefined_Game_Var"
  by (auto simp: ui_draw_def get_game_var_def bind_js_def split_def Let_def split: option.splits)

lemma ui_draw_Inr_dom:
  "(\<exists>r. ui_draw u = Inr r) \<Longrightarrow>
   ''difficulty'' \<in> dom (hud_data u) \<and> ''score'' \<in> dom (hud_data u) \<and> ''maxScore'' \<in> dom (hud_data u)"
  by (auto simp: ui_draw_def get_game_var_def bind_js_def split_def split: option.splits)

lemma ui_draw_result:
  assumes "ui_draw u = Inr (u', texts)"
  shows "u' = fst (draw_animating (u\<lparr>ctx := set_text_layout ''top'' ''center'' (ctx_save (ctx u))\<rparr>))"
proof -
  obtain d sc mx where "hud_data u ''difficulty'' = Some d" "hud_data u ''score'' = Some sc"
    "hud_data u ''maxScore'' = Some mx"
    using ui_draw_Inr_dom [of u] assms by blast
  from ui_draw_Inr [OF this] assms show ?thesis by simp
qed

lemma step_anim_update [simp]:
  "step_anim (a\<lparr>aticks := t, ay := y\<rparr>) = a\<lparr>aticks := t - 1, ay := y - 1\<rparr>"
  by (simp add: step_anim_def)

lemma animating_draw:
  "animating (fst (draw_animating u)) = filter (\<lambda>a. 0 < aticks a) (map step_anim (animating u))"
  by (simp add: draw_animating_def Let_def)

lemma draw_animating_frames:
  "animating (((\<lambda>v. fst (draw_animating v)) ^^ Suc k) u) =
     map (\<lambda>a. a\<lparr>aticks := aticks a - int (Suc k), ay := ay a - real (Suc k)\<rparr>)
         (filter (\<lambda>a. int (Suc k) < aticks a) (animating u))"
proof (induction k)
  case 0
  then show ?case by (simp add: animating_draw filter_map comp_def step_anim_def)
next
  case (Suc k)
  have "animating (((\<lambda>v. fst (draw_animating v)) ^^ Suc (Suc k)) u) =
        filter (\<lambda>a. 0 < aticks a) (map step_anim (animating (((\<lambda>v. fst (draw_animating v)) ^^ Suc k) u)))"
    by (simp only: funpow.simps comp_apply animating_draw)
  also have "\<dots> = filter (\<lambda>a. 0 < aticks a) (map step_anim
      (map (\<lambda>a. a\<lparr>aticks := aticks a - int (Suc k), ay := ay a - real (Suc k)\<rparr>)
         (filter (\<lambda>a. int (Suc k) < aticks a) (animating u))))"
    by (simp only: Suc.IH)
  also have "\<dots> = map (\<lambda>a. a\<lparr>aticks := aticks a - int (Suc (Suc k)), ay := ay a - real (Suc (Suc k))\<rparr>)
         (filter (\<lambda>a. int (Suc (Suc k)) < aticks a) (animating u))"
  proof -
    have "filter (\<lambda>x. 1 + int k < aticks x \<and> int k + 2 < aticks x) xs =
          filter (\<lambda>a. int k + 2 < aticks a) xs" for xs :: "anim list"
      by (rule filter_cong) auto
    then show ?thesis by (simp add: filter_map comp_def filter_filter algebra_simps)
  qed
  finally show ?case .
qed

subsection \<open>Properties of the HUD\<close>

text \<open>
  C9. Fail fast on missing data: \<open>UI.draw\<close> succeeds exactly when the game data
  holds \<open>difficulty\<close>, \<open>score\<close> and \<open>maxScore\<close>; otherwise it throws, and the
  only error it throws is the missing-variable one.
\<close>

theorem ui_draw_requires_vars:
  "((\<exists>r. ui_draw u = Inr r) \<longleftrightarrow>
      ''difficulty'' \<in> dom (hud_data u) \<and> ''score'' \<in> dom (hud_data u) \<and>
      ''maxScore'' \<in> dom (hud_data u)) \<and>
   (\<forall>e. ui_draw u = Inl e \<longrightarrow> e = Undefined_Game_Var)"
proof -
  have "(\<exists>r. ui_draw u = Inr r)" if "''difficulty'' \<in> dom (hud_data u)" "''score'' \<in> dom (hud_data u)"
    "''maxScore'' \<in> dom (hud_data u)"
    using that ui_draw_Inr by blast
  then show ?thesis using ui_draw_Inr_dom ui_draw_Inl by blast
qed

theorem ui_draw_requires_vars_witness:
  "ui_draw hud_empty = Inl Undefined_Game_Var \<and>
   (\<exists>r. ui_draw (ui_update_game_data [(''difficulty'', 0), (''score'', 0), (''maxScore'', 0)] hud_empty) = Inr r)"
proof -
  have e: "\<not> (\<exists>r. ui_draw hud_empty = Inr r)"
    using ui_draw_requires_vars [of hud_empty] by (simp add: hud_empty_def)
  then obtain e where "ui_draw hud_empty = Inl e" by (cases "ui_draw hud_empty") auto
  moreover have "\<exists>r. ui_draw (ui_update_game_data [(''difficulty'', 0), (''score'', 0), (''maxScore'', 0)] hud_empty) = Inr r"
    using ui_draw_requires_vars [of "ui_update_game_data [(''difficulty'', 0), (''score'', 0), (''maxScore'', 0)] hud_empty"]
    by (simp add: hud_empty_def)
  ultimately show ?thesis using ui_draw_requires_vars [of hud_empty] by blast
qed

text \<open>
  C10. The save stack of the HUD canvas grows by one on every frame: of the four
  \<open>ctx.save()\<close> calls of \<open>UI.draw\<close> (one each in \<open>drawDifficulty\<close>, \<open>drawScore\<close>,
  \<open>drawMaxScore\<close> and \<open>drawAnimating\<close>) only three are matched by a \<open>ctx.restore()\<close>,
  so each successful frame pushes the drawing state it started with, and the frame
  ends with \<open>drawScore\<close>'s layout (\<open>top\<close>, \<open>center\<close>) still in force, the state every
  later label and animation is drawn from.
\<close>

theorem ui_draw_save_depth:
  assumes "ui_draw u = Inr (u', texts)"
  shows "save_stack (ctx u') = drawing (ctx u) # save_stack (ctx u) \<and>
         drawing (ctx u') = (drawing (ctx u))\<lparr>text_baseline := ''top'', text_align := ''center''\<rparr>"
  using ui_draw_result [OF assms] by simp

theorem ui_draw_save_depth_witness:
  "\<exists>u' u'' t t'. ui_draw (ui_init 640 480 (ui_update_game_data [(''difficulty'', 0), (''score'', 0), (''maxScore'', 0)] hud_empty)) = Inr (u', t) \<and>
     ui_draw u' = Inr (u'', t') \<and> length (save_stack (ctx u'')) = 2 \<and> text_align (drawing (ctx u'')) = ''center''"
proof -
  let ?u = "ui_init 640 480 (ui_update_game_data [(''difficulty'', 0), (''score'', 0), (''maxScore'', 0)] hud_empty)"
  have v: "hud_data ?u ''difficulty'' = Some 0" "hud_data ?u ''score'' = Some 0" "hud_data ?u ''maxScore'' = Some 0"
    by (simp_all add: ui_init_def hud_empty_def)
  obtain u' t where d1: "ui_draw ?u = Inr (u', t)" using ui_draw_Inr [OF v] by blast
  have "hud_data u' = hud_data ?u" using ui_draw_result [OF d1] by simp
  then obtain u'' t' where d2: "ui_draw u' = Inr (u'', t')" using ui_draw_Inr [of u'] v by auto
  have "save_stack (ctx ?u) = []"
    by (simp add: ui_init_def hud_empty_def ctx_default_def ui_update_game_data_def)
  with ui_draw_save_depth [OF d1] ui_draw_save_depth [OF d2] d1 d2 show ?thesis by auto
qed

text \<open>
  C11. A score animation lives for \<open>ANIMATION_DURATION\<close> frames: after \<open>addScore\<close>,
  the list of running animations is one longer than it would have been for exactly the
  first 100 frames (the frame that counts it down to zero still paints it, then drops it).
\<close>

theorem add_score_lifetime:
  "length (animating (((\<lambda>v. fst (draw_animating v)) ^^ k) (add_score n u))) =
   length (animating (((\<lambda>v. fst (draw_animating v)) ^^ k) u)) + (if int k < animation_duration then 1 else 0)"
proof (cases k)
  case 0
  then show ?thesis by (simp add: add_score_def Let_def game_consts)
next
  case (Suc j)
  then show ?thesis
    by (simp only: draw_animating_frames) (simp add: add_score_def Let_def game_consts)
qed

subsection \<open>Opacity of the score animations\<close>

lemma anims_ok_draw_animating: "anims_ok u \<Longrightarrow> anims_ok (fst (draw_animating u))"
  by (auto simp: anims_ok_def draw_animating_def Let_def step_anim_def)

lemma draw_animating_alpha:
  assumes "anims_ok u" "p \<in> set (snd (draw_animating u))"
  shows "0 \<le> palpha p \<and> palpha p < 1"
proof -
  obtain a where a: "a \<in> set (animating u)" "p = paint_of (step_anim a)"
    using assms(2) by (auto simp: draw_animating_def Let_def)
  then have t: "0 \<le> aticks a - 1" "aticks a - 1 < animation_duration"
    using assms(1) by (auto simp: anims_ok_def)
  have d: "0 < real_of_int animation_duration" by (simp add: animation_duration_def)
  have "palpha p = real_of_int (aticks a - 1) / real_of_int animation_duration"
    using a(2) by (simp add: paint_of_def step_anim_def)
  with t d show ?thesis by (simp add: divide_less_eq)
qed

text \<open>
  C36. The score animations stay well-formed and their opacity stays in range: \<open>addScore\<close>
  and every HUD frame (\<open>drawAnimating\<close>, also inside \<open>draw\<close>) keep each animation's
  remaining frames in \<open>[1, ANIMATION_DURATION]\<close>, so the \<open>globalAlpha\<close> every animated
  text is painted with, \<open>ticks / ANIMATION_DURATION\<close> after the decrement, lies in
  \<open>[0, 1)\<close>.
\<close>

theorem anim_alpha_bounds:
  assumes "anims_ok u"
  shows "anims_ok (add_score n u) \<and> anims_ok (fst (draw_animating u)) \<and>
         (\<forall>p\<in>set (snd (draw_animating u)). 0 \<le> palpha p \<and> palpha p < 1) \<and>
         (\<forall>u' texts. ui_draw u = Inr (u', texts) \<longrightarrow> anims_ok u')"
proof -
  have "anims_ok (add_score n u)"
    using assms by (simp add: anims_ok_def add_score_def Let_def animation_duration_def)
  moreover have "anims_ok (u\<lparr>ctx := c\<rparr>)" for c using assms by (simp add: anims_ok_def)
  then have "ui_draw u = Inr (u', texts) \<Longrightarrow> anims_ok u'" for u' texts
    by (auto dest!: ui_draw_result intro: anims_ok_draw_animating)
  ultimately show ?thesis using assms anims_ok_draw_animating draw_animating_alpha by blast
qed

theorem anim_alpha_bounds_witness:
  "snd (draw_animating (add_score 5 hud_empty)) =
     [\<lparr>ptext = ''+5'', pcolor = score_inc_color, palpha = 99 / 100, px = 0, py = 119\<rparr>] \<and>
   0 \<le> palpha (hd (snd (draw_animating (add_score 5 hud_empty)))) \<and>
   palpha (hd (snd (draw_animating (add_score 5 hud_empty)))) < 1"
proof -
  have e: "anims_ok hud_empty" by (simp add: anims_ok_def hud_empty_def)
  have a1: "anims_ok (add_score 5 hud_empty)" using anim_alpha_bounds [OF e, of 5] by blast
  have al: "\<forall>p\<in>set (snd (draw_animating (add_score 5 hud_empty))). 0 \<le> palpha p \<and> palpha p < 1"
    using anim_alpha_bounds [OF a1, of 0] by blast
  have i: "int_str 5 = ''5''" by code_simp
  have "add_score 5 hud_empty = hud_empty\<lparr>animating := [\<lparr>atext = ''+5'', acolor = score_inc_color,
      aticks = 100, ax = 0, ay = 120\<rparr>]\<rparr>"
    by (simp add: add_score_def hud_empty_def i animation_duration_def animation_start_y_def)
  then have l: "snd (draw_animating (add_score 5 hud_empty)) =
     [\<lparr>ptext = ''+5'', pcolor = score_inc_color, palpha = 99 / 100, px = 0, py = 119\<rparr>]"
    by (simp add: draw_animating_def step_anim_def paint_of_def animation_duration_def)
  have "hd (snd (draw_animating (add_score 5 hud_empty))) \<in> set (snd (draw_animating (add_score 5 hud_empty)))"
    by (simp add: l)
  with al l show ?thesis by blast
qed

end
