(* ===== verification/Drawer.thy ===== *)
theory Drawer
  imports Entities
begin

text \<open>
  The scene renderer \<open>src/src/Drawer.js\<close>. Its module state is the merged game data
  (read by its own \<open>getGameVar\<close>, which throws on a missing name), the scroll offset of
  the lane lines \<open>scene_position\<close>, the tick of the previous frame \<open>last_tick\<close>, the
  projection set by \<open>clear\<close>, and what \<open>init\<close> obtained from the browser (the
  viewport of the WebGL context and the shader program). The browser itself is a parameter
  \<open>gl_env\<close>. What a frame sends
  to \<open>gl.drawArrays(gl.LINES, ...)\<close> is a list of segments, each a pair of vertices;
  a function returns them in the order the code pushes them. The loop of
  \<open>drawScene\<close> over the lane depth, \<open>for (let i = -2; i < d; i += SCENE_LINE_STEP)\<close>,
  runs over reals, so it is a \<open>function\<close> with a termination proof. The last group
  models the camera and the projection and characterises which vertices a frame shows.
\<close>

definition scene_height :: real where [game_consts]: "scene_height = 3"
definition scene_line_step :: real where [game_consts]: "scene_line_step = 2"

type_synonym point3 = "real \<times> real \<times> real"
type_synonym segment = "point3 \<times> point3"

text \<open>
  The browser side of \<open>init\<close>: whether the canvas yields a WebGL context, the canvas
  size, the \<open><script>\<close> elements \<open>getShader\<close> finds by id (their \<open>type\<close> and
  their child nodes as \<open>(nodeType, textContent)\<close>), and which sources the driver
  compiles and which shader pairs it links.
\<close>

record shader_script =
  script_type :: string
  script_children :: "(nat \<times> string) list"

datatype shader_kind = Fragment_Shader | Vertex_Shader

type_synonym shader = "shader_kind \<times> string"

record gl_env =
  webgl :: bool
  canvas_width :: real
  canvas_height :: real
  shader_scripts :: "string \<Rightarrow> shader_script option"
  compiles :: "shader_kind \<Rightarrow> string \<Rightarrow> bool"
  links :: "shader \<Rightarrow> shader \<Rightarrow> bool"

record gl_program =
  vertex_shader :: shader
  fragment_shader :: shader
  linked :: bool

record drawer_state =
  dr_data :: "string \<rightharpoonup> real"
  scene_position :: real
  last_tick :: real
  projection :: "(real \<times> real) option"
  gl_viewport :: "(real \<times> real) option"
  shader_program :: "gl_program option"

definition drawer_empty :: drawer_state where
  "drawer_empty = \<lparr>dr_data = Map.empty, scene_position = scene_line_step, last_tick = 0, projection = None,
                   gl_viewport = None, shader_program = None\<rparr>"

definition drawer_update_game_data :: "(string \<times> real) list \<Rightarrow> drawer_state \<Rightarrow> drawer_state" where
  "drawer_update_game_data d u = u\<lparr>dr_data := dr_data u ++ map_of d\<rparr>"

definition drawer_get_game_var :: "string \<Rightarrow> drawer_state \<Rightarrow> real js" where
  "drawer_get_game_var name u =
     (case dr_data u name of None \<Rightarrow> Inl Undefined_Game_Var | Some v \<Rightarrow> Inr v)"

text \<open>
  \<open>getShader\<close>: the text of the script's text nodes (\<open>nodeType === 3\<close>) in order,
  a shader of the kind its \<open>type\<close> names, and \<open>null\<close> (here \<open>None\<close>) for a
  missing script, an unknown type or a source that does not compile.
\<close>

fun script_text :: "(nat \<times> string) list \<Rightarrow> string" where
  "script_text [] = []"
| "script_text ((t, txt) # ks) = (if t = 3 then txt else []) @ script_text ks"

definition get_shader :: "gl_env \<Rightarrow> string \<Rightarrow> shader option" where
  "get_shader env sid =
     (case shader_scripts env sid of
        None \<Rightarrow> None
      | Some sc \<Rightarrow>
          (let str = script_text (script_children sc)
           in if script_type sc = ''x-shader/x-fragment''
              then (if compiles env Fragment_Shader str then Some (Fragment_Shader, str) else None)
              else if script_type sc = ''x-shader/x-vertex''
              then (if compiles env Vertex_Shader str then Some (Vertex_Shader, str) else None)
              else None))"

text \<open>
  \<open>initShaders\<close>: \<open>gl.attachShader\<close> throws a \<open>TypeError\<close> on a \<open>null\<close> shader; a
  failed link is only logged, and the unlinked program is used.
\<close>

definition init_shaders :: "gl_env \<Rightarrow> gl_program js" where
  "init_shaders env =
     (let fragment = get_shader env ''shader-fs''; vertex = get_shader env ''shader-vs''
      in case vertex of
           None \<Rightarrow> Inl Type_Error
         | Some v \<Rightarrow> (case fragment of
                        None \<Rightarrow> Inl Type_Error
                      | Some f \<Rightarrow> Inr \<lparr>vertex_shader = v, fragment_shader = f, linked = links env v f\<rparr>))"

text \<open>
  \<open>init(canvas)\<close>: without a context the code logs and goes on, so the assignment
  \<open>gl.viewportWidth = ...\<close> on \<open>null\<close> throws. The background colour and the depth
  test it then sets are not part of the model.
\<close>

definition drawer_init :: "gl_env \<Rightarrow> drawer_state \<Rightarrow> drawer_state js" where
  "drawer_init env u =
     (if \<not> webgl env then Inl Type_Error
      else bind_js (init_shaders env) (\<lambda>p.
             Inr (u\<lparr>gl_viewport := Some (canvas_width env, canvas_height env), shader_program := Some p\<rparr>)))"

text \<open>
  \<open>clear()\<close> uses the context (a \<open>TypeError\<close> when \<open>init\<close> found none) and sets the
  perspective matrix from the viewport's aspect ratio and \<open>SCENE_DEPTH\<close> as far plane.
\<close>

definition drawer_clear :: "drawer_state \<Rightarrow> drawer_state js" where
  "drawer_clear u =
     (case gl_viewport u of
        None \<Rightarrow> Inl Type_Error
      | Some (w, h) \<Rightarrow>
          bind_js (drawer_get_game_var ''SCENE_DEPTH'' u) (\<lambda>d. Inr (u\<lparr>projection := Some (w / h, d)\<rparr>)))"

text \<open>The depths of the lane lines: one per step of the loop, at \<open>-i - scene_position\<close>.\<close>

function line_depths :: "real \<Rightarrow> real \<Rightarrow> real \<Rightarrow> real list" where
  "line_depths i d pos = (if i < d then (- i - pos) # line_depths (i + scene_line_step) d pos else [])"
  by pat_completeness auto
termination
proof (relation "measure (\<lambda>(i, d, pos). nat \<lceil>d - i\<rceil>)")
  show "wf (measure (\<lambda>(i, d, pos). nat \<lceil>d - i\<rceil>))" by simp
next
  fix i d pos :: real
  assume "i < d"
  then have "\<lceil>d - (i + 2)\<rceil> < \<lceil>d - i\<rceil>" "0 < \<lceil>d - i\<rceil>"
    by (simp_all add: ceiling_diff_numeral algebra_simps) linarith
  then show "((i + scene_line_step, d, pos), i, d, pos) \<in> measure (\<lambda>(i, d, pos). nat \<lceil>d - i\<rceil>)"
    by (simp add: scene_line_step_def)
qed

declare line_depths.simps [simp del]

definition lane_square :: "real \<Rightarrow> real \<Rightarrow> real \<Rightarrow> segment list" where
  "lane_square w h z =
     [((- w, 0, z), (- w, h, z)), ((- w, h, z), (w, h, z)),
      ((w, h, z), (w, 0, z)), ((w, 0, z), (- w, 0, z))]"

definition draw_scene :: "drawer_state \<Rightarrow> (drawer_state \<times> segment list) js" where
  "draw_scene u =
     bind_js (drawer_get_game_var ''SCENE_LEFT_BORDER'' u) (\<lambda>l.
     bind_js (drawer_get_game_var ''SCENE_RIGHT_BORDER'' u) (\<lambda>r.
     bind_js (drawer_get_game_var ''SCENE_DEPTH'' u) (\<lambda>d.
     bind_js (drawer_get_game_var ''tick'' u) (\<lambda>current.
     bind_js (drawer_get_game_var ''speed'' u) (\<lambda>sp.
       (let w = (l - r) / 2;
            h = scene_height;
            base = [((- w, h, - d), (w, h, - d)), ((w, h, - d), (w, 0, - d)),
                    ((w, 0, - d), (- w, 0, - d)), ((- w, 0, - d), (- w, h, - d)),
                    ((- w, h, d), (- w, h, - d)), ((w, h, d), (w, h, - d)),
                    ((w, 0, d), (w, 0, - d)), ((- w, 0, d), (- w, 0, - d))];
            diff0 = current - last_tick u;
            (diff, pos0) = (if diff0 < 0 then (0, scene_line_step) else (diff0, scene_position u));
            pos1 = pos0 - sp * diff;
            pos = (if pos1 \<le> 0 then scene_line_step else pos1)
        in Inr (u\<lparr>scene_position := pos, last_tick := current\<rparr>,
                base @ concat (map (lane_square w h) (line_depths (- 2) d pos)))))))))"

definition draw_cuboid :: "real \<Rightarrow> real \<Rightarrow> real \<Rightarrow> real \<Rightarrow> real \<Rightarrow> real \<Rightarrow> segment list" where
  "draw_cuboid x y z wd ht dp =
     (let w = wd / 2; h = ht / 2; d = dp / 2;
          shift = (\<lambda>(a, b, c). (x + a, y + b, z + c))
      in map (\<lambda>(p, q). (shift p, shift q))
           [((- w, h, d), (w, h, d)), ((w, h, d), (w, - h, d)),
            ((w, - h, d), (- w, - h, d)), ((- w, - h, d), (- w, h, d)),
            ((- w, h, - d), (w, h, - d)), ((w, h, - d), (w, - h, - d)),
            ((w, - h, - d), (- w, - h, - d)), ((- w, - h, - d), (- w, h, - d)),
            ((- w, h, d), (- w, h, - d)), ((w, h, d), (w, h, - d)),
            ((w, - h, d), (w, - h, - d)), ((- w, - h, d), (- w, - h, - d))])"

definition draw_object :: "game_object \<Rightarrow> segment list" where
  "draw_object ob = draw_cuboid (ox ob) (oy ob) (- oz ob) (width ob) (height ob) (depth ob)"

text \<open>
  The Drawer part of \<open>draw()\<close> in \<open>Game.js\<close>: \<open>updateGameData\<close>, \<open>clear\<close>,
  \<open>drawScene\<close>, then \<open>drawObject\<close> for every object in key order.
\<close>

definition drawer_frame ::
  "(string \<times> real) list \<Rightarrow> game_object list \<Rightarrow> drawer_state \<Rightarrow> (drawer_state \<times> segment list) js" where
  "drawer_frame data objs u =
     bind_js (drawer_clear (drawer_update_game_data data u)) (\<lambda>u1.
     bind_js (draw_scene u1) (\<lambda>(u2, scene).
       Inr (u2, scene @ concat (map draw_object objs))))"

text \<open>
  The camera and the projection. Every model-view matrix the code builds is the identity
  followed by translations (\<open>getInitialMatrix\<close> moves the world by \<open>-CAM_POSITION\<close>,
  \<open>drawCuboid\<close> then by the object's position, which \<open>draw_cuboid\<close> above already
  adds to the vertices), so it is represented by its translation vector. \<open>clear()\<close> sets
  the projection with \<open>mat4.perspective(pMatrix, Math.PI / 2, aspect, 0.1, SCENE_DEPTH)\<close>;
  \<open>perspective_clip\<close> is the product of that matrix (gl-matrix's formula, with
  \<open>f = 1 / tan (fovy / 2)\<close>) with a point in eye coordinates, and a vertex is on
  screen when its clip coordinates lie in the OpenGL view volume.
\<close>

definition cam_position :: point3 where "cam_position = (0, 2, 3)"

definition get_initial_matrix :: point3 where
  "get_initial_matrix = (case cam_position of (a, b, c) \<Rightarrow> (- a, - b, - c))"

definition mv_apply :: "point3 \<Rightarrow> point3 \<Rightarrow> point3" where
  "mv_apply t p = (case t of (a, b, c) \<Rightarrow> case p of (x, y, z) \<Rightarrow> (a + x, b + y, c + z))"

definition near_plane :: real where "near_plane = 0.1"

definition perspective_clip :: "real \<Rightarrow> real \<Rightarrow> real \<Rightarrow> point3 \<Rightarrow> real \<times> real \<times> real \<times> real" where
  "perspective_clip aspect near far p =
     (let f = 1 / tan (pi / 2 / 2); nf = 1 / (near - far)
      in case p of (x, y, z) \<Rightarrow> (f / aspect * x, f * y, (far + near) * nf * z + 2 * far * near * nf, - z))"

definition in_view_volume :: "real \<times> real \<times> real \<times> real \<Rightarrow> bool" where
  "in_view_volume c = (case c of (xc, yc, zc, wc) \<Rightarrow>
     - wc \<le> xc \<and> xc \<le> wc \<and> - wc \<le> yc \<and> yc \<le> wc \<and> - wc \<le> zc \<and> zc \<le> wc)"

text \<open>The canvas is \<open>RENDER_WIDTH\<close> by \<open>RENDER_HEIGHT\<close> (\<open>components/Game.js\<close>).\<close>

definition render_width :: real where "render_width = 640"
definition render_height :: real where "render_height = 480"

definition vertex_visible :: "drawer_state \<Rightarrow> point3 \<Rightarrow> bool" where
  "vertex_visible u p =
     (case projection u of
        None \<Rightarrow> False
      | Some (aspect, far) \<Rightarrow>
          in_view_volume (perspective_clip aspect near_plane far (mv_apply get_initial_matrix p)))"

text \<open>
  A browser in which \<open>init\<close> succeeds: it gives a WebGL context and both shader
  scripts are found, of a known type, and compile. \<open>sample_gl_env\<close> is such a browser
  with the page's canvas, used by the examples.
\<close>

definition gl_env_ok :: "gl_env \<Rightarrow> bool" where
  "gl_env_ok env \<longleftrightarrow>
     webgl env \<and> get_shader env ''shader-vs'' \<noteq> None \<and> get_shader env ''shader-fs'' \<noteq> None"

definition sample_gl_env :: gl_env where
  "sample_gl_env =
     \<lparr>webgl = True, canvas_width = render_width, canvas_height = render_height,
      shader_scripts = (\<lambda>sid.
        if sid = ''shader-vs'' then Some \<lparr>script_type = ''x-shader/x-vertex'', script_children = [(3, ''vs'')]\<rparr>
        else if sid = ''shader-fs'' then Some \<lparr>script_type = ''x-shader/x-fragment'', script_children = [(3, ''fs'')]\<rparr>
        else None),
      compiles = (\<lambda>k str. True), links = (\<lambda>v f. True)\<rparr>"

subsection \<open>The lane-line loop\<close>

lemma ceiling_half_step:
  fixes x :: real
  assumes "0 < x"
  shows "nat \<lceil>x / 2\<rceil> = Suc (nat \<lceil>(x - 2) / 2\<rceil>)"
proof -
  define c where "c = \<lceil>x / 2\<rceil>"
  have "(x - 2) / 2 = x / 2 - 1" by (simp add: field_simps)
  then have e: "\<lceil>(x - 2) / 2\<rceil> = c - 1" by (simp only: ceiling_diff_one c_def)
  have "0 < c" using assms by (simp add: c_def)
  then have "nat c = Suc (nat (c - 1))" by arith
  with e show ?thesis by (simp add: c_def)
qed

lemma map_upt_shift:
  "map (\<lambda>k. a - 2 * real k) [0..<Suc m] = a # map (\<lambda>k. (a - 2) - 2 * real k) [0..<m]"
  by (induction m) (simp_all add: algebra_simps)

text \<open>
  C20. The loop of \<open>drawScene\<close> terminates and draws \<open>\<lceil>(d - i) / 2\<rceil>\<close> lane lines, the
  \<open>k\<close>-th at depth \<open>-i - scene_position - 2 k\<close>: the recursion equals the closed form
  a reader would write for the loop.
\<close>

theorem line_depths_closed_form:
  "line_depths i d pos = map (\<lambda>k. - i - pos - scene_line_step * real k) [0..<nat \<lceil>(d - i) / scene_line_step\<rceil>]"
proof (induction i d pos rule: line_depths.induct)
  case (1 i d pos)
  show ?case
  proof (cases "i < d")
    case True
    then have n: "nat \<lceil>(d - i) / 2\<rceil> = Suc (nat \<lceil>(d - (i + 2)) / 2\<rceil>)"
      using ceiling_half_step [of "d - i"] by (simp add: algebra_simps)
    have "- i - pos - 2 = - (i + 2) - pos" by simp
    with True "1.IH" n show ?thesis
      by (simp add: line_depths.simps [of i] scene_line_step_def map_upt_shift del: upt_Suc)
  next
    case False
    then show ?thesis by (simp add: line_depths.simps [of i] scene_line_step_def)
  qed
qed

subsection \<open>The scroll offset\<close>

lemma draw_scene_Inr:
  assumes "draw_scene u = Inr (u', segs)"
  obtains l r d c sp where
    "dr_data u ''SCENE_LEFT_BORDER'' = Some l" "dr_data u ''SCENE_RIGHT_BORDER'' = Some r"
    "dr_data u ''SCENE_DEPTH'' = Some d" "dr_data u ''tick'' = Some c" "dr_data u ''speed'' = Some sp"
    "u' = u\<lparr>scene_position :=
            (let pos1 = (if c - last_tick u < 0 then scene_line_step else scene_position u - sp * (c - last_tick u))
             in if pos1 \<le> 0 then scene_line_step else pos1), last_tick := c\<rparr>"
    "length segs = 8 + 4 * length (line_depths (- 2) d (scene_position u'))"
  using assms
  by (auto simp: draw_scene_def drawer_get_game_var_def Let_def lane_square_def length_concat
      comp_def sum_list_triv split: option.splits if_splits prod.splits)

lemma draw_scene_position:
  assumes "0 < scene_position u" "scene_position u \<le> scene_line_step"
    "dr_data u ''speed'' = Some sp" "0 \<le> sp" "draw_scene u = Inr (u', segs)"
  shows "0 < scene_position u' \<and> scene_position u' \<le> scene_line_step \<and> dr_data u' = dr_data u"
proof -
  obtain l r d c sp' where v: "dr_data u ''speed'' = Some sp'"
    and u': "u' = u\<lparr>scene_position :=
            (let pos1 = (if c - last_tick u < 0 then scene_line_step else scene_position u - sp' * (c - last_tick u))
             in if pos1 \<le> 0 then scene_line_step else pos1), last_tick := c\<rparr>"
    using draw_scene_Inr [OF assms(5)] by metis
  have sp: "sp' = sp" using v assms(3) by simp
  have "0 \<le> sp * (c - last_tick u)" if "\<not> c - last_tick u < 0" using that assms(4) by simp
  then show ?thesis using assms(1,2) u' sp by (auto simp: Let_def scene_line_step_def)
qed

lemma drawer_frame_position:
  assumes "0 < scene_position u" "scene_position u \<le> scene_line_step"
    "map_of data ''speed'' = Some sp" "0 \<le> sp" "drawer_frame data objs u = Inr (u', segs)"
  shows "0 < scene_position u' \<and> scene_position u' \<le> scene_line_step"
proof -
  from assms(5) obtain u1 scene where c: "drawer_clear (drawer_update_game_data data u) = Inr u1"
    and d: "draw_scene u1 = Inr (u', scene)"
    by (auto simp: drawer_frame_def bind_js_eq_Inr split: prod.splits)
  have "scene_position u1 = scene_position u" "dr_data u1 ''speed'' = Some sp"
    using c assms(3)
    by (auto simp: drawer_clear_def drawer_update_game_data_def bind_js_eq_Inr split: option.splits)
  with draw_scene_position [OF _ _ _ assms(4) d] assms(1,2) show ?thesis by simp
qed

lemma drawer_frame_Inr:
  assumes "map_of data ''SCENE_LEFT_BORDER'' \<noteq> None" "map_of data ''SCENE_RIGHT_BORDER'' \<noteq> None"
    "map_of data ''SCENE_DEPTH'' \<noteq> None" "map_of data ''tick'' \<noteq> None" "map_of data ''speed'' \<noteq> None"
    "gl_viewport u \<noteq> None"
  shows "\<exists>u' segs. drawer_frame data objs u = Inr (u', segs)"
  using assms
  by (auto simp: drawer_frame_def drawer_clear_def draw_scene_def drawer_get_game_var_def
      drawer_update_game_data_def Let_def split: prod.splits option.splits)

text \<open>
  C21. The lane lines scroll within one step: while the game's speed is not negative, every
  frame of \<open>drawScene\<close> keeps \<open>scene_position\<close> in \<open>(0, SCENE_LINE_STEP]\<close> (a restart,
  seen as a tick counter that went back, resets it), remembers the tick it drew, and
  sends the 8 segments of the lane box plus 4 per lane line.
\<close>

theorem scene_position_bounds:
  assumes "0 < scene_position u" "scene_position u \<le> scene_line_step"
    "dr_data u ''speed'' = Some sp" "0 \<le> sp" "draw_scene u = Inr (u', segs)"
  shows "0 < scene_position u' \<and> scene_position u' \<le> scene_line_step \<and>
         dr_data u ''tick'' = Some (last_tick u') \<and>
         length segs = 8 + 4 * nat \<lceil>(the (dr_data u ''SCENE_DEPTH'') + 2) / scene_line_step\<rceil> \<and>
         (the (dr_data u ''tick'') < last_tick u \<longrightarrow> scene_position u' = scene_line_step)"
proof -
  obtain l r d c sp' where v: "dr_data u ''SCENE_DEPTH'' = Some d" "dr_data u ''tick'' = Some c"
    and u': "u' = u\<lparr>scene_position :=
            (let pos1 = (if c - last_tick u < 0 then scene_line_step else scene_position u - sp' * (c - last_tick u))
             in if pos1 \<le> 0 then scene_line_step else pos1), last_tick := c\<rparr>"
    and n: "length segs = 8 + 4 * length (line_depths (- 2) d (scene_position u'))"
    by (rule draw_scene_Inr [OF assms(5)])
  have "last_tick u' = c" using u' by simp
  moreover have "c < last_tick u \<longrightarrow> scene_position u' = scene_line_step"
    using u' by (simp add: Let_def scene_line_step_def)
  ultimately show ?thesis
    using v n draw_scene_position [OF assms] by (simp add: line_depths_closed_form)
qed

theorem scene_position_bounds_witness:
  "\<exists>u' segs. draw_scene (drawer_update_game_data [(''SCENE_LEFT_BORDER'', - 3), (''SCENE_RIGHT_BORDER'', 3),
       (''SCENE_DEPTH'', 30), (''tick'', 1), (''speed'', 0.04)] drawer_empty) = Inr (u', segs) \<and>
     0 < scene_position u' \<and> scene_position u' \<le> 2 \<and> length segs = 72"
proof -
  let ?u = "drawer_update_game_data [(''SCENE_LEFT_BORDER'', - 3), (''SCENE_RIGHT_BORDER'', 3),
       (''SCENE_DEPTH'', 30), (''tick'', 1), (''speed'', 0.04)] drawer_empty"
  obtain u' segs where d: "draw_scene ?u = Inr (u', segs)"
    by (simp add: draw_scene_def drawer_get_game_var_def drawer_update_game_data_def drawer_empty_def Let_def)
  have p: "0 < scene_position ?u" "scene_position ?u \<le> scene_line_step" "dr_data ?u ''speed'' = Some 0.04"
    by (simp_all add: drawer_update_game_data_def drawer_empty_def scene_line_step_def)
  have "\<lceil>(30 + 2) / 2 :: real\<rceil> = 16" by simp
  with scene_position_bounds [OF p _ d] d show ?thesis
    by (simp add: drawer_update_game_data_def drawer_empty_def scene_line_step_def)
qed

lemma drawer_frame_viewport:
  "drawer_frame data objs u = Inr (u', segs) \<Longrightarrow> gl_viewport u' = gl_viewport u"
  by (auto simp: drawer_frame_def drawer_clear_def draw_scene_def drawer_get_game_var_def
      drawer_update_game_data_def bind_js_eq_Inr Let_def split: option.splits prod.splits if_splits)

subsection \<open>Initialisation\<close>

lemma script_text_filter: "script_text ks = concat (map snd (filter (\<lambda>(t, txt). t = 3) ks))"
  by (induction ks rule: script_text.induct) auto

lemma init_shaders_Inr_iff:
  "init_shaders env = Inr p \<longleftrightarrow>
     (\<exists>v f. get_shader env ''shader-vs'' = Some v \<and> get_shader env ''shader-fs'' = Some f \<and>
            p = \<lparr>vertex_shader = v, fragment_shader = f, linked = links env v f\<rparr>)"
  by (auto simp: init_shaders_def Let_def split: option.splits)

lemma init_shaders_Inl: "init_shaders env = Inl e \<Longrightarrow> e = Type_Error"
  by (auto simp: init_shaders_def Let_def split: option.splits)

lemma drawer_init_Inr:
  "drawer_init env u = Inr u' \<longleftrightarrow>
     webgl env \<and> (\<exists>p. init_shaders env = Inr p \<and>
       u' = u\<lparr>gl_viewport := Some (canvas_width env, canvas_height env), shader_program := Some p\<rparr>)"
  by (auto simp: drawer_init_def bind_js_eq_Inr)

lemma drawer_init_ok:
  "gl_env_ok env \<Longrightarrow> \<exists>p. drawer_init env u =
     Inr (u\<lparr>gl_viewport := Some (canvas_width env, canvas_height env), shader_program := Some p\<rparr>)"
  by (auto simp: gl_env_ok_def drawer_init_def init_shaders_def Let_def)

lemma drawer_init_fields [simp]:
  "drawer_init env u = Inr u' \<Longrightarrow> dr_data u' = dr_data u \<and> scene_position u' = scene_position u \<and>
     last_tick u' = last_tick u \<and> projection u' = projection u \<and> gl_viewport u' \<noteq> None"
  by (auto simp: drawer_init_Inr)

lemma sample_gl_env_ok: "gl_env_ok sample_gl_env"
  by (simp add: gl_env_ok_def sample_gl_env_def get_shader_def)

text \<open>
  C29. \<open>Drawer.init\<close> throws, and only a \<open>TypeError\<close>, exactly when the canvas gives
  no WebGL context or a shader script is missing, of an unknown type or does not compile:
  the code logs these cases and goes on until it dereferences \<open>null\<close>. Otherwise it
  succeeds, takes the viewport from the canvas, and keeps the program even when linking
  failed.
\<close>

theorem drawer_init_errors:
  "(drawer_init env u = Inl Type_Error \<longleftrightarrow>
      \<not> webgl env \<or> get_shader env ''shader-vs'' = None \<or> get_shader env ''shader-fs'' = None) \<and>
   (\<forall>e. drawer_init env u = Inl e \<longrightarrow> e = Type_Error) \<and>
   (webgl env \<and> get_shader env ''shader-vs'' \<noteq> None \<and> get_shader env ''shader-fs'' \<noteq> None \<longrightarrow>
      (\<exists>p. drawer_init env u =
             Inr (u\<lparr>gl_viewport := Some (canvas_width env, canvas_height env), shader_program := Some p\<rparr>) \<and>
           linked p = links env (vertex_shader p) (fragment_shader p)))"
proof -
  have err: "drawer_init env u = Inl e \<longleftrightarrow> e = Type_Error \<and> \<not> gl_env_ok env" for e
    by (auto simp: drawer_init_def bind_js_def gl_env_ok_def init_shaders_def Let_def
        split: option.splits sum.splits)
  have ok: "\<exists>p. drawer_init env u =
             Inr (u\<lparr>gl_viewport := Some (canvas_width env, canvas_height env), shader_program := Some p\<rparr>) \<and>
           linked p = links env (vertex_shader p) (fragment_shader p)" if "gl_env_ok env"
    using that by (auto simp: gl_env_ok_def drawer_init_def init_shaders_def Let_def)
  have "drawer_init env u = Inl Type_Error \<longleftrightarrow> \<not> gl_env_ok env" using err [of Type_Error] by simp
  moreover have "\<forall>e. drawer_init env u = Inl e \<longrightarrow> e = Type_Error" using err by blast
  ultimately show ?thesis using ok unfolding gl_env_ok_def by blast
qed

theorem drawer_init_errors_witness:
  "drawer_init (sample_gl_env\<lparr>webgl := False\<rparr>) drawer_empty = Inl Type_Error \<and>
   (\<exists>p. drawer_init sample_gl_env drawer_empty =
          Inr (drawer_empty\<lparr>gl_viewport := Some (render_width, render_height), shader_program := Some p\<rparr>) \<and>
        linked p = links sample_gl_env (vertex_shader p) (fragment_shader p))"
proof -
  have s: "webgl sample_gl_env" "get_shader sample_gl_env ''shader-vs'' \<noteq> None"
    "get_shader sample_gl_env ''shader-fs'' \<noteq> None"
    using sample_gl_env_ok by (simp_all add: gl_env_ok_def)
  have "canvas_width sample_gl_env = render_width" "canvas_height sample_gl_env = render_height"
    by (simp_all add: sample_gl_env_def)
  with s drawer_init_errors [of sample_gl_env drawer_empty]
    drawer_init_errors [of "sample_gl_env\<lparr>webgl := False\<rparr>" drawer_empty]
  show ?thesis by auto
qed

subsection \<open>Camera and clipping\<close>

lemma perspective_clip_eq:
  "perspective_clip aspect near far (x, y, z) =
     (x / aspect, y, (far + near) / (near - far) * z + 2 * far * near / (near - far), - z)"
  by (simp add: perspective_clip_def Let_def tan_45)

lemma perspective_depth_iff:
  fixes near far z :: real
  assumes "0 < near" "near < far" "z < 0"
  shows "(z \<le> (far + near) / (near - far) * z + 2 * far * near / (near - far) \<and>
          (far + near) / (near - far) * z + 2 * far * near / (near - far) \<le> - z) \<longleftrightarrow>
         - far \<le> z \<and> z \<le> - near"
proof -
  define A where "A = (far + near) * z + 2 * far * near"
  have c: "near - far < 0" using assms by simp
  have zc: "(far + near) / (near - far) * z + 2 * far * near / (near - far) = A / (near - far)"
    unfolding A_def add_divide_distrib [of "(far + near) * z"] times_divide_eq_left ..
  have e1: "A - z * (near - far) = 2 * far * (z + near)" by (simp add: A_def algebra_simps)
  have e2: "A + z * (near - far) = 2 * near * (z + far)" by (simp add: A_def algebra_simps)
  have lo: "z \<le> A / (near - far) \<longleftrightarrow> A \<le> z * (near - far)" using c by (simp add: le_divide_eq)
  have hi: "A / (near - far) \<le> - z \<longleftrightarrow> - z * (near - far) \<le> A" using c by (simp add: divide_le_eq)
  have s1: "2 * far * (z + near) \<le> 0 \<longleftrightarrow> z \<le> - near" using assms by (auto simp: mult_le_0_iff)
  have s2: "0 \<le> 2 * near * (z + far) \<longleftrightarrow> - far \<le> z" using assms by (auto simp: zero_le_mult_iff)
  show ?thesis unfolding zc lo hi using e1 e2 s1 s2 by linarith
qed


lemma vertex_visible_iff:
  assumes "projection u = Some (aspect, far)" "near_plane < far" "0 < aspect" "z < 3"
  shows "vertex_visible u (x, y, z) \<longleftrightarrow>
         \<bar>x\<bar> \<le> aspect * (3 - z) \<and> \<bar>y - 2\<bar> \<le> 3 - z \<and> 3 - far \<le> z \<and> z \<le> 3 - near_plane"
proof -
  have n: "0 < near_plane" by (simp add: near_plane_def)
  have d: "(- 3 + z \<le> (far + near_plane) / (near_plane - far) * (- 3 + z) + 2 * far * near_plane / (near_plane - far) \<and>
            (far + near_plane) / (near_plane - far) * (- 3 + z) + 2 * far * near_plane / (near_plane - far) \<le> - (- 3 + z))
         \<longleftrightarrow> 3 - far \<le> z \<and> z \<le> 3 - near_plane"
    using perspective_depth_iff [OF n assms(2), of "- 3 + z"] assms(4) by linarith
  have x: "(- (3 - z) \<le> x / aspect \<and> x / aspect \<le> 3 - z) \<longleftrightarrow> \<bar>x\<bar> \<le> aspect * (3 - z)"
  proof -
    have "x / aspect \<le> 3 - z \<longleftrightarrow> x \<le> aspect * (3 - z)"
      using assms(3) by (simp add: pos_divide_le_eq mult.commute)
    moreover have "- (3 - z) \<le> x / aspect \<longleftrightarrow> - (aspect * (3 - z)) \<le> x"
      using assms(3) by (simp add: pos_le_divide_eq mult.commute right_diff_distrib)
    ultimately show ?thesis by (simp add: abs_le_iff) linarith
  qed
  show ?thesis
    using assms(1) d x
    by (simp add: vertex_visible_def in_view_volume_def mv_apply_def get_initial_matrix_def
        cam_position_def perspective_clip_eq abs_le_iff) linarith
qed


lemma drawer_frame_parts:
  assumes "drawer_frame data objs u = Inr (u', segs)"
  obtains u1 scene where "drawer_clear (drawer_update_game_data data u) = Inr u1"
    "draw_scene u1 = Inr (u', scene)" "segs = scene @ concat (map draw_object objs)"
  using assms by (auto simp: drawer_frame_def bind_js_eq_Inr split: prod.splits)

lemma drawer_clear_projection:
  "drawer_clear (drawer_update_game_data data u) = Inr u1 \<Longrightarrow> map_of data ''SCENE_DEPTH'' = Some d \<Longrightarrow>
   gl_viewport u = Some (w, h) \<Longrightarrow> projection u1 = Some (w / h, d) \<and> dr_data u1 ''SCENE_DEPTH'' = Some d"
  by (auto simp: drawer_clear_def drawer_update_game_data_def drawer_get_game_var_def bind_js_eq_Inr)

lemma draw_scene_back_wall:
  assumes "draw_scene u = Inr (u', segs)" "dr_data u ''SCENE_DEPTH'' = Some d"
  shows "projection u' = projection u \<and> 4 \<le> length segs \<and>
         (\<forall>(p, q) \<in> set (take 4 segs). snd (snd p) = - d \<and> snd (snd q) = - d)"
  using assms
  by (auto simp: draw_scene_def drawer_get_game_var_def Let_def split: option.splits if_splits prod.splits)

lemma draw_cuboid_depth:
  "(p, q) \<in> set (draw_cuboid x y z wd ht dp) \<Longrightarrow> 0 \<le> dp \<Longrightarrow>
   snd (snd p) \<le> z + dp / 2 \<and> snd (snd q) \<le> z + dp / 2"
  by (auto simp: draw_cuboid_def Let_def)

lemma beyond_far_invisible:
  assumes "projection u = Some (aspect, far)" "near_plane < far" "0 < aspect" "snd (snd p) < 3 - far"
  shows "\<not> vertex_visible u p"
proof -
  obtain x y z where p: "p = (x, y, z)" by (cases p) auto
  have "0 < far" using assms(2) by (simp add: near_plane_def)
  then have "z < 3" using assms(4) p by simp
  with vertex_visible_iff [OF assms(1-3) this, of x y] assms(4) p show ?thesis by simp
qed

text \<open>
  C26. What a frame shows: after \<open>updateGameData\<close>, \<open>clear\<close> and \<open>drawScene\<close>, a
  vertex in front of the camera (\<open>z < 3\<close>) is on screen exactly when it lies in the
  frustum of the camera at \<open>(0, 2, 3)\<close> looking down \<open>-z\<close> with a right-angle vertical
  field of view, between the near plane \<open>0.1\<close> and a far plane \<open>SCENE_DEPTH\<close> away
  from the camera, that is at world depth \<open>3 - SCENE_DEPTH\<close>, not \<open>-SCENE_DEPTH\<close>.
\<close>

theorem frame_visible_region:
  assumes "drawer_frame data objs u = Inr (u', segs)" "map_of data ''SCENE_DEPTH'' = Some d"
    "gl_viewport u = Some (w, h)" "0 < w" "0 < h" "near_plane < d" "z < 3"
  shows "vertex_visible u' (x, y, z) \<longleftrightarrow>
         \<bar>x\<bar> \<le> w / h * (3 - z) \<and> \<bar>y - 2\<bar> \<le> 3 - z \<and> 3 - d \<le> z \<and> z \<le> 3 - near_plane"
proof -
  obtain u1 scene where c: "drawer_clear (drawer_update_game_data data u) = Inr u1"
    and ds: "draw_scene u1 = Inr (u', scene)" by (rule drawer_frame_parts [OF assms(1)])
  have f: "projection u1 = Some (w / h, d)" "dr_data u1 ''SCENE_DEPTH'' = Some d"
    using drawer_clear_projection [OF c assms(2,3)] by auto
  then have "projection u' = Some (w / h, d)" using draw_scene_back_wall [OF ds f(2)] by simp
  moreover have "0 < w / h" using assms(4,5) by simp
  ultimately show ?thesis using vertex_visible_iff [OF _ assms(6) _ assms(7)] by blast
qed

theorem frame_visible_region_witness:
  "\<exists>u' segs. drawer_frame [(''SCENE_LEFT_BORDER'', - 3), (''SCENE_RIGHT_BORDER'', 3), (''SCENE_DEPTH'', 30),
       (''tick'', 1), (''speed'', 0.04)] [new_car] (drawer_empty\<lparr>gl_viewport := Some (render_width, render_height)\<rparr>)
       = Inr (u', segs) \<and>
     vertex_visible u' (0, 0, 0) \<and> \<not> vertex_visible u' (0, 0, - 28)"
proof -
  let ?u = "drawer_empty\<lparr>gl_viewport := Some (render_width, render_height)\<rparr>"
  obtain u' segs where fr: "drawer_frame [(''SCENE_LEFT_BORDER'', - 3), (''SCENE_RIGHT_BORDER'', 3), (''SCENE_DEPTH'', 30),
       (''tick'', 1), (''speed'', 0.04)] [new_car] ?u = Inr (u', segs)"
    using drawer_frame_Inr by fastforce
  have a: "gl_viewport ?u = Some (render_width, render_height)" "0 < render_width" "0 < render_height"
    "near_plane < 30" "(0::real) < 3" "(- 28::real) < 3"
    by (simp_all add: render_width_def render_height_def near_plane_def)
  have "vertex_visible u' (0, 0, 0)"
    using frame_visible_region [OF fr _ a(1-4) a(5), of 0 0]
    by (simp add: near_plane_def render_width_def render_height_def)
  moreover have "\<not> vertex_visible u' (0, 0, - 28)"
    using frame_visible_region [OF fr _ a(1-4) a(6), of 0 0] by simp
  ultimately show ?thesis using fr by blast
qed

text \<open>
  C27. The scene is deeper than the projection: in every frame the back wall of the lane
  box (at \<open>z = -SCENE_DEPTH\<close>) and every object whose near face is more than
  \<open>SCENE_DEPTH - 3\<close> away are drawn but clipped away entirely, so obstacles and
  pedestrians spawned at \<open>SCENE_DEPTH\<close> appear only after scrolling 2.5 units.
\<close>

theorem deep_geometry_clipped:
  assumes "drawer_frame data objs u = Inr (u', segs)" "map_of data ''SCENE_DEPTH'' = Some d"
    "gl_viewport u = Some (w, h)" "0 < w" "0 < h" "near_plane < d"
    "ob \<in> set objs" "0 \<le> depth ob" "d - 3 < oz ob - depth ob / 2"
  shows "set (draw_object ob) \<subseteq> set segs \<and>
         (\<forall>(p, q) \<in> set (take 4 segs) \<union> set (draw_object ob).
            \<not> vertex_visible u' p \<and> \<not> vertex_visible u' q)"
proof -
  obtain u1 scene where c: "drawer_clear (drawer_update_game_data data u) = Inr u1"
    and ds: "draw_scene u1 = Inr (u', scene)" and sg: "segs = scene @ concat (map draw_object objs)"
    by (rule drawer_frame_parts [OF assms(1)])
  have f: "projection u1 = Some (w / h, d)" "dr_data u1 ''SCENE_DEPTH'' = Some d"
    using drawer_clear_projection [OF c assms(2,3)] by auto
  note bw = draw_scene_back_wall [OF ds f(2)]
  have far: "projection u' = Some (w / h, d)" using bw f(1) by simp
  have asp: "0 < w / h" using assms(4,5) by simp
  have t: "take 4 segs = take 4 scene" using bw sg by simp
  have inv: "\<not> vertex_visible u' p" if "snd (snd p) < 3 - d" for p
    by (rule beyond_far_invisible [OF far assms(6) asp that])
  have wall: "\<not> vertex_visible u' p \<and> \<not> vertex_visible u' q" if "(p, q) \<in> set (take 4 segs)" for p q
  proof -
    have "(p, q) \<in> set (take 4 scene)" using that t by simp
    then have "snd (snd p) = - d \<and> snd (snd q) = - d" using bw by blast
    with inv show ?thesis by simp
  qed
  have obj: "\<not> vertex_visible u' p \<and> \<not> vertex_visible u' q" if "(p, q) \<in> set (draw_object ob)" for p q
  proof -
    from that draw_cuboid_depth [of p q "ox ob" "oy ob" "- oz ob" "width ob" "height ob" "depth ob"] assms(8)
    have "snd (snd p) \<le> - oz ob + depth ob / 2" "snd (snd q) \<le> - oz ob + depth ob / 2"
      by (simp_all add: draw_object_def)
    with assms(9) inv show ?thesis by simp
  qed
  have "set (draw_object ob) \<subseteq> set segs" using assms(7) sg by auto
  with wall obj show ?thesis by blast
qed

theorem deep_geometry_clipped_witness:
  "\<exists>u' segs. drawer_frame [(''SCENE_LEFT_BORDER'', - 3), (''SCENE_RIGHT_BORDER'', 3), (''SCENE_DEPTH'', 30),
       (''tick'', 1), (''speed'', 0.04)] [new_obstacle 0 30]
       (drawer_empty\<lparr>gl_viewport := Some (render_width, render_height)\<rparr>) = Inr (u', segs) \<and>
     set (draw_object (new_obstacle 0 30)) \<subseteq> set segs \<and>
     (\<forall>(p, q) \<in> set (draw_object (new_obstacle 0 30)). \<not> vertex_visible u' p \<and> \<not> vertex_visible u' q)"
proof -
  let ?u = "drawer_empty\<lparr>gl_viewport := Some (render_width, render_height)\<rparr>"
  obtain u' segs where fr: "drawer_frame [(''SCENE_LEFT_BORDER'', - 3), (''SCENE_RIGHT_BORDER'', 3), (''SCENE_DEPTH'', 30),
       (''tick'', 1), (''speed'', 0.04)] [new_obstacle 0 30] ?u = Inr (u', segs)"
    using drawer_frame_Inr by fastforce
  have a: "gl_viewport ?u = Some (render_width, render_height)" "0 < render_width" "0 < render_height"
    "near_plane < 30"
    by (simp_all add: render_width_def render_height_def near_plane_def)
  have o: "new_obstacle 0 30 \<in> set [new_obstacle 0 30]" "0 \<le> depth (new_obstacle 0 30)"
    "30 - 3 < oz (new_obstacle 0 30) - depth (new_obstacle 0 30) / 2"
    by (simp_all add: new_obstacle_def new_game_object_def obstacle_depth_def)
  show ?thesis using fr deep_geometry_clipped [OF fr _ a o] by auto
qed

end
