(* ===== verification/Session.thy ===== *)
theory Session
  imports Entities Rng Hud Drawer
begin

text \<open>
  The session state of \<open>src/src/Game.js\<close>: its module-level variables (lines 57--79)
  as the record \<open>game_state\<close>, the object store \<open>gameObjects\<close> as the list of its
  objects in key order (\<open>Object.keys\<close> lists integer keys in ascending order, and ids
  are handed out in increasing order, so the list is kept sorted by id; theory
  \<open>Tick\<close> proves it), and the operations outside the tick: \<open>createGameObject\<close>,
  \<open>destroyGameObject\<close>, \<open>getCar\<close>, \<open>getGameData\<close>, the persistence of the maximum
  score, the key listeners, \<open>init\<close>, \<open>start\<close>, \<open>stop\<close> and \<open>restart\<close>.

  Effects on the page are fields of the state: \<open>key_listeners\<close> says whether the key
  listeners are installed; \<open>active_timers\<close> counts the live \<open>setInterval(tick)\<close>
  timers and \<open>tracked_timer\<close> whether the handle stored in \<open>gameInterval\<close> is one of
  them (a second \<open>start\<close> overwrites the handle of a live timer, which no \<open>stop\<close> can
  clear any more); \<open>store\<close> is the \<open>localStorage\<close> entry \<open>maxScore\<close> and
  \<open>storage_available\<close> whether \<open>window.localStorage\<close> exists; \<open>hud\<close> is the state
  of \<open>UI.js\<close> and \<open>drawer\<close> that of \<open>Drawer.js\<close>; \<open>callbacks\<close> logs the data passed to \<open>gameDataCallback\<close>.
  The render loop \<open>requestAnimationFrame(draw)\<close> is handled like the timer by the code
  and is not tracked. Before the first \<open>start\<close> JavaScript leaves most variables
  undefined; \<open>game_module\<close> gives them values no operation reads before \<open>start\<close>.
\<close>

type_synonym game_data = "(string \<times> real) list"

record game_state =
  callback_set :: bool
  key_listeners :: bool
  active_timers :: nat
  tracked_timer :: bool
  score :: real
  max_score :: int
  is_game_over :: bool
  tick_index :: nat
  game_objects :: "game_object list"
  to_destroy :: "nat list"
  game_object_id :: nat
  game_mode :: mode
  left_key_pressed :: bool
  right_key_pressed :: bool
  difficulty :: nat
  next_obstacle_in :: int
  obstacle_interval :: int
  next_human_in :: int
  speed :: real
  strafe_speed :: real
  rnd :: rng
  store :: "int option"
  storage_available :: bool
  hud :: hud_state
  drawer :: drawer_state
  callbacks :: "game_data list"

definition game_module :: "rng \<Rightarrow> bool \<Rightarrow> int option \<Rightarrow> game_state" where
  "game_module r avail st =
     \<lparr>callback_set = False, key_listeners = False, active_timers = 0, tracked_timer = False,
      score = 0, max_score = 0, is_game_over = False, tick_index = 0, game_objects = [],
      to_destroy = [], game_object_id = 0, game_mode = Robocar, left_key_pressed = False,
      right_key_pressed = False, difficulty = 0, next_obstacle_in = 0, obstacle_interval = 0,
      next_human_in = 0, speed = 0, strafe_speed = 0, rnd = r, store = st,
      storage_available = avail, hud = hud_empty, drawer = drawer_empty, callbacks = []\<rparr>"

subsection \<open>The object store\<close>

definition create_game_object :: "game_object \<Rightarrow> game_state \<Rightarrow> game_state" where
  "create_game_object ob s =
     s\<lparr>game_objects := game_objects s @ [ob\<lparr>oid := game_object_id s\<rparr>],
       game_object_id := Suc (game_object_id s)\<rparr>"

definition destroy_game_object :: "game_object \<Rightarrow> game_state \<Rightarrow> game_state" where
  "destroy_game_object ob s = s\<lparr>to_destroy := to_destroy s @ [oid ob]\<rparr>"

definition lookup_object :: "nat \<Rightarrow> game_state \<Rightarrow> game_object option" where
  "lookup_object i s = find (\<lambda>ob. oid ob = i) (game_objects s)"

definition update_object :: "nat \<Rightarrow> (game_object \<Rightarrow> game_object) \<Rightarrow> game_state \<Rightarrow> game_state" where
  "update_object i f s =
     s\<lparr>game_objects := map (\<lambda>ob. if oid ob = i then f ob else ob) (game_objects s)\<rparr>"

definition object_keys :: "game_state \<Rightarrow> nat list" where
  "object_keys s = map oid (game_objects s)"

text \<open>\<^verbatim>\<open>getCar() { return gameObjects[1]; }\<close>: the car is the object with key 1.\<close>

definition get_car :: "game_state \<Rightarrow> game_object option" where
  "get_car s = lookup_object 1 s"

definition get_game_data :: "game_state \<Rightarrow> game_data" where
  "get_game_data s =
     [(''SCENE_LEFT_BORDER'', scene_left_border), (''SCENE_RIGHT_BORDER'', scene_right_border),
      (''SCENE_DEPTH'', scene_depth), (''speed'', speed s), (''score'', of_int \<lfloor>score s\<rfloor>),
      (''tick'', of_nat (tick_index s)), (''maxScore'', of_int (max_score s)),
      (''difficulty'', of_nat (difficulty s)), (''gameOver'', if is_game_over s then 1 else 0)]"

subsection \<open>Persistence of the maximum score\<close>

definition load_max_score :: "game_state \<Rightarrow> game_state" where
  "load_max_score s =
     s\<lparr>max_score := (if storage_available s then (case store s of None \<Rightarrow> 0 | Some v \<Rightarrow> v) else 0)\<rparr>"

definition save_max_score :: "game_state \<Rightarrow> game_state" where
  "save_max_score s = (if storage_available s then s\<lparr>store := Some (max_score s)\<rparr> else s)"

subsection \<open>Listeners\<close>

definition on_key_down :: "int \<Rightarrow> bool \<Rightarrow> game_state \<Rightarrow> game_state" where
  "on_key_down code on_canvas s =
     (if key_listeners s \<and> on_canvas then
        s\<lparr>left_key_pressed := (code = turn_left_key \<or> left_key_pressed s),
          right_key_pressed := (code = turn_right_key \<or> right_key_pressed s)\<rparr>
      else s)"

definition on_key_up :: "int \<Rightarrow> bool \<Rightarrow> game_state \<Rightarrow> game_state" where
  "on_key_up code on_canvas s =
     (if key_listeners s \<and> on_canvas then
        s\<lparr>left_key_pressed := (code \<noteq> turn_left_key \<and> left_key_pressed s),
          right_key_pressed := (code \<noteq> turn_right_key \<and> right_key_pressed s)\<rparr>
      else s)"

definition add_event_listeners :: "game_state \<Rightarrow> game_state" where
  "add_event_listeners s =
     s\<lparr>key_listeners := True, active_timers := Suc (active_timers s), tracked_timer := True\<rparr>"

definition remove_event_listeners :: "game_state \<Rightarrow> game_state" where
  "remove_event_listeners s =
     s\<lparr>key_listeners := False,
       active_timers := (if tracked_timer s then active_timers s - 1 else active_timers s),
       tracked_timer := False\<rparr>"

subsection \<open>Life cycle\<close>

definition init :: "gl_env \<Rightarrow> real \<Rightarrow> real \<Rightarrow> game_state \<Rightarrow> game_state js" where
  "init env w h s =
     bind_js (drawer_init env (drawer s)) (\<lambda>d.
       Inr (load_max_score (s\<lparr>drawer := d, hud := ui_init w h (hud s)\<rparr>)))"

definition set_callback :: "game_state \<Rightarrow> game_state" where
  "set_callback s = s\<lparr>callback_set := True\<rparr>"

definition mode_of_code :: "int \<Rightarrow> mode" where
  "mode_of_code m = (if m = 1 then Carmageddon else Robocar)"

definition start :: "int \<Rightarrow> game_state \<Rightarrow> game_state" where
  "start m s =
     (let s1 = s\<lparr>game_mode := mode_of_code m, game_objects := [], game_object_id := 1,
                 is_game_over := False, tick_index := 0, score := 0, difficulty := 0,
                 next_obstacle_in := 0, next_human_in := 0,
                 obstacle_interval := initial_obstacle_interval, speed := initial_speed,
                 strafe_speed := initial_strafe_speed\<rparr>;
          s2 = create_game_object new_car s1;
          s3 = s2\<lparr>left_key_pressed := False, right_key_pressed := False\<rparr>
      in add_event_listeners s3)"

definition draw_ui :: "game_state \<Rightarrow> game_state js" where
  "draw_ui s =
     bind_js (ui_draw (ui_update_game_data (get_game_data s) (hud s))) (\<lambda>(u, _). Inr (s\<lparr>hud := u\<rparr>))"

definition stop :: "game_state \<Rightarrow> game_state js" where
  "stop s =
     (let s1 = save_max_score (remove_event_listeners (s\<lparr>is_game_over := True\<rparr>))
      in bind_js (draw_ui s1) (\<lambda>s2.
           Inr (if callback_set s2 then s2\<lparr>callbacks := callbacks s2 @ [get_game_data s2]\<rparr> else s2)))"

definition restart :: "int \<Rightarrow> game_state \<Rightarrow> game_state js" where
  "restart m s = bind_js (stop s) (\<lambda>s'. Inr (start m s'))"

subsection \<open>Frames\<close>

definition counters :: "game_state \<Rightarrow> nat \<times> nat \<times> real \<times> real \<times> int \<times> int \<times> int \<times> mode \<times> rng \<times> nat \<times> int" where
  "counters s = (tick_index s, difficulty s, speed s, strafe_speed s, obstacle_interval s,
                 next_obstacle_in s, next_human_in s, game_mode s, rnd s, game_object_id s, max_score s)"

definition stop_frame :: "game_state \<Rightarrow> game_state \<Rightarrow> bool" where
  "stop_frame s t \<longleftrightarrow>
     game_objects t = game_objects s \<and> to_destroy t = to_destroy s \<and> score t = score s \<and>
     counters t = counters s \<and> is_game_over t \<and> \<not> key_listeners t \<and> \<not> tracked_timer t \<and>
     callback_set t = callback_set s \<and> storage_available t = storage_available s"

subsection \<open>What stop changes\<close>

text \<open>
  \<open>getGameData\<close> always supplies the three variables the HUD reads, so the
  \<open>drawUI\<close> inside \<open>stop\<close> never throws; \<open>stop\<close> changes only the game-over
  flag, the listeners and timer, the stored maximum, the HUD and the callback log.
\<close>

lemma draw_ui_Inr: "\<exists>u. draw_ui s = Inr (s\<lparr>hud := u\<rparr>)"
proof -
  let ?u = "ui_update_game_data (get_game_data s) (hud s)"
  have "hud_data ?u ''difficulty'' = Some (of_nat (difficulty s))"
    "hud_data ?u ''score'' = Some (of_int \<lfloor>score s\<rfloor>)"
    "hud_data ?u ''maxScore'' = Some (of_int (max_score s))"
    by (simp_all add: get_game_data_def)
  from ui_draw_Inr [OF this] show ?thesis by (auto simp: draw_ui_def split_def)
qed

lemma stop_Inr: "\<exists>s'. stop s = Inr s' \<and> stop_frame s s'"
proof -
  let ?s1 = "save_max_score (remove_event_listeners (s\<lparr>is_game_over := True\<rparr>))"
  obtain u where u: "draw_ui ?s1 = Inr (?s1\<lparr>hud := u\<rparr>)" using draw_ui_Inr by blast
  let ?s2 = "?s1\<lparr>hud := u\<rparr>"
  have "stop s = Inr (if callback_set ?s2 then ?s2\<lparr>callbacks := callbacks ?s2 @ [get_game_data ?s2]\<rparr> else ?s2)"
    by (simp only: stop_def Let_def u bind_js_Inr)
  moreover have "stop_frame s (if callback_set ?s2 then ?s2\<lparr>callbacks := callbacks ?s2 @ [get_game_data ?s2]\<rparr> else ?s2)"
    by (simp add: stop_frame_def counters_def save_max_score_def remove_event_listeners_def)
  ultimately show ?thesis by blast
qed

lemma stop_result:
  assumes "stop s = Inr t"
  shows "\<exists>u. t = (let s2 = (save_max_score (remove_event_listeners (s\<lparr>is_game_over := True\<rparr>)))\<lparr>hud := u\<rparr>
                   in if callback_set s2 then s2\<lparr>callbacks := callbacks s2 @ [get_game_data s2]\<rparr> else s2)"
proof -
  let ?s1 = "save_max_score (remove_event_listeners (s\<lparr>is_game_over := True\<rparr>))"
  obtain u where u: "draw_ui ?s1 = Inr (?s1\<lparr>hud := u\<rparr>)" using draw_ui_Inr by blast
  have "stop s = Inr (let s2 = ?s1\<lparr>hud := u\<rparr> in
          if callback_set s2 then s2\<lparr>callbacks := callbacks s2 @ [get_game_data s2]\<rparr> else s2)"
    by (simp only: stop_def Let_def u bind_js_Inr)
  with assms show ?thesis by auto
qed

lemma stop_callbacks:
  "stop s = Inr t \<Longrightarrow>
   callbacks t = callbacks s @ (if callback_set s then [get_game_data (s\<lparr>is_game_over := True\<rparr>)] else [])"
  by (drule stop_result) (auto simp: Let_def save_max_score_def remove_event_listeners_def
      get_game_data_def)

subsection \<open>Persistence of the maximum across page loads\<close>

lemma stop_store:
  "stop s = Inr t \<Longrightarrow> store t = (if storage_available s then Some (max_score s) else store s)"
  by (drule stop_result) (auto simp: Let_def save_max_score_def remove_event_listeners_def)

lemma init_ok:
  "gl_env_ok env \<Longrightarrow> \<exists>d. init env w h s = Inr (load_max_score (s\<lparr>drawer := d, hud := ui_init w h (hud s)\<rparr>)) \<and>
     gl_viewport d = Some (canvas_width env, canvas_height env) \<and> scene_position d = scene_position (drawer s)"
  by (drule drawer_init_ok [of _ "drawer s"]) (auto simp: init_def)

text \<open>
  C15. Round trip of the maximum score through \<open>localStorage\<close>: when storage exists,
  the maximum that \<open>stop\<close> writes is the one \<open>init\<close> reads back on the next page
  load (in a browser where \<open>init\<close> succeeds); without storage \<open>init\<close> starts from 0
  and \<open>stop\<close> writes nothing.
\<close>

theorem max_score_roundtrip:
  assumes "gl_env_ok env"
  shows "\<exists>t. stop s = Inr t \<and>
     (storage_available s \<longrightarrow>
        (\<exists>g. init env w h (game_module r True (store t)) = Inr g \<and> max_score g = max_score s)) \<and>
     (\<not> storage_available s \<longrightarrow> store t = store s \<and>
        (\<exists>g. init env w h (game_module r False (store t)) = Inr g \<and> max_score g = 0))"
proof -
  obtain t where t: "stop s = Inr t" using stop_Inr by blast
  have i1: "\<exists>g. init env w h (game_module r True (Some m)) = Inr g \<and> max_score g = m" for m
    using init_ok [OF assms, of w h "game_module r True (Some m)"]
    by (auto simp: load_max_score_def game_module_def)
  have i0: "\<exists>g. init env w h (game_module r False st) = Inr g \<and> max_score g = 0" for st
    using init_ok [OF assms, of w h "game_module r False st"]
    by (auto simp: load_max_score_def game_module_def)
  show ?thesis
  proof (cases "storage_available s")
    case True
    with stop_store [OF t] i1 [of "max_score s"] t show ?thesis by auto
  next
    case False
    with stop_store [OF t] i0 [of "store t"] t show ?thesis by auto
  qed
qed

theorem max_score_roundtrip_witness:
  "\<exists>t. stop (game_module (sconst 0) True None\<lparr>max_score := 42\<rparr>) = Inr t \<and>
     (\<exists>g. init sample_gl_env 640 480 (game_module (sconst 0) True (store t)) = Inr g \<and> max_score g = 42)"
proof -
  have "storage_available (game_module (sconst 0) True None\<lparr>max_score := 42\<rparr>)"
    by (simp add: game_module_def)
  with max_score_roundtrip [OF sample_gl_env_ok, of "game_module (sconst 0) True None\<lparr>max_score := 42\<rparr>" 640 480 "sconst 0"]
  show ?thesis by auto
qed

end
