(* ===== verification/Phases.thy ===== *)
theory Phases
  imports Session
begin

text \<open>
  The phases of \<open>tick\<close> in \<open>src/src/Game.js\<close> other than the collision pass:
  \<open>updateDifficulty\<close> (lines 245--255), \<open>updateCar\<close> (257--266),
  \<open>updateObstacles\<close> (268--312), \<open>updateHumans\<close> (314--366),
  \<open>updateGameObjects\<close> (368--376), \<open>updateScore\<close> (407--414) and
  \<open>clearGameObjects\<close> (416--430). A loop over \<open>Object.keys(gameObjects)\<close> that
  changes each object in place is a \<open>map\<close> over the object list; the spawning loop of
  \<open>updateObstacles\<close> is the recursion \<open>place_obstacles\<close> over the shuffled slot array.
  \<open>getCar()\<close> returning \<open>undefined\<close> makes \<open>updateCar\<close> and
  \<open>updateGameObjects\<close> throw a \<open>TypeError\<close>, the left branch of their result. In
  \<open>updateGameObjects\<close> the code compares key strings (\<open>id === car.id\<close>), which is
  equality of ids since \<open>nat_str\<close> is injective (theory \<open>Keys\<close>).
\<close>

subsection \<open>Difficulty\<close>

definition update_difficulty :: "game_state \<Rightarrow> game_state" where
  "update_difficulty s =
     (let new_difficulty = tick_index s div difficulty_update_interval
      in if new_difficulty \<le> max_difficulty \<and> new_difficulty > difficulty s
         then s\<lparr>difficulty := new_difficulty,
                speed := speed s + speed_increment,
                strafe_speed := strafe_speed s + strafe_speed_increment,
                obstacle_interval := obstacle_interval s + obstacle_interval_decrement\<rparr>
         else s)"

subsection \<open>The car\<close>

definition update_car :: "game_state \<Rightarrow> game_state js" where
  "update_car s =
     (case get_car s of
        None \<Rightarrow> Inl Type_Error
      | Some car \<Rightarrow>
          (let x1 = (if left_key_pressed s then ox car - strafe_speed s else ox car);
               x2 = (if right_key_pressed s then x1 + strafe_speed s else x1);
               x3 = max (scene_left_border + width car / 2) (min (scene_right_border - width car / 2) x2)
           in Inr (update_object (oid car) (\<lambda>ob. ob\<lparr>ox := x3\<rparr>) s)))"

subsection \<open>Obstacles\<close>

text \<open>\<open>Math.round\<close> rounds halves upwards.\<close>

definition js_round :: "real \<Rightarrow> int" where
  "js_round v = \<lfloor>v + 1 / 2\<rfloor>"

definition obstacle_count_range :: "nat \<Rightarrow> int \<times> int" where
  "obstacle_count_range d =
     (js_round ((scale_high_min_obstacles_count - scale_low_min_obstacles_count) / real max_difficulty
                * real d + scale_low_min_obstacles_count),
      js_round ((scale_high_max_obstacles_count - scale_low_max_obstacles_count) / real max_difficulty
                * real d + scale_low_max_obstacles_count))"

definition max_obstacles_count :: nat where
  "max_obstacles_count = nat \<lfloor>(scene_right_border - scene_left_border) / obstacle_width\<rfloor>"

fun place_obstacles :: "bool \<Rightarrow> nat \<Rightarrow> int list \<Rightarrow> game_state \<Rightarrow> game_state" where
  "place_obstacles stair i [] s = s"
| "place_obstacles stair i (b # bs) s =
     place_obstacles stair (Suc i) bs
       (if b \<noteq> 0 then
          (let x = scene_left_border + obstacle_width / 2 + obstacle_width * real i;
               (z, r) = (if stair
                         then (let (flip, r') = random_bool (rnd s);
                                   inc = obstacle_width * real i
                               in (scene_depth + (if flip then - inc else inc), r'))
                         else (scene_depth, rnd s))
           in (create_game_object (new_obstacle x z) (s\<lparr>rnd := r\<rparr>))\<lparr>next_obstacle_in := obstacle_interval s\<rparr>)
        else s)"

definition spawn_obstacles :: "game_state \<Rightarrow> game_state" where
  "spawn_obstacles s =
     (let (mn, mx) = obstacle_count_range (difficulty s);
          (count, r1) = random_int (of_int mn) (of_int (mx + 1)) (rnd s);
          slots = map (\<lambda>i. if int i < count then 1 else 0) [0..<max_obstacles_count];
          (slots', r2) = shuffle slots r1;
          (stair, r3) = random_bool r2
      in place_obstacles stair 0 slots' (s\<lparr>rnd := r3\<rparr>))"

definition update_obstacles :: "game_state \<Rightarrow> game_state" where
  "update_obstacles s =
     (if tick_index s < first_obstacle_tick then s
      else (let s1 = s\<lparr>next_obstacle_in := next_obstacle_in s - 1\<rparr>
            in if next_obstacle_in s1 \<le> 0 then spawn_obstacles s1 else s1))"

subsection \<open>Humans\<close>

definition try_spawn_human :: "game_state \<Rightarrow> game_state" where
  "try_spawn_human s =
     (let mx = scene_right_border - human_width / 2;
          mn = scene_left_border + human_width / 2;
          (x, r1) = js_random mn mx (rnd s);
          z = scene_depth;
          (sp, r2) = js_random human_min_speed human_max_speed r1;
          (flip, r3) = random_bool r2;
          human = new_human x z (if flip then - sp else sp);
          collision_detected =
            list_ex (\<lambda>ob. otype ob = Obstacle \<and> check_collision human ob) (game_objects s)
      in if \<not> collision_detected
         then (let s1 = create_game_object human (s\<lparr>rnd := r3\<rparr>);
                   (n, r4) = random_int min_human_interval max_human_interval (rnd s1)
               in s1\<lparr>next_human_in := n, rnd := r4\<rparr>)
         else s\<lparr>rnd := r3\<rparr>)"

definition human_left_limit :: real where
  "human_left_limit = scene_left_border + human_width / 2"

definition human_right_limit :: real where
  "human_right_limit = scene_right_border - human_width / 2"

definition move_human :: "game_object \<Rightarrow> game_object" where
  "move_human ob =
     (if otype ob = Human then
        (let ob1 = ob\<lparr>ox := ox ob + ospeed ob\<rparr>;
             ob2 = (if ox ob1 < human_left_limit
                    then ob1\<lparr>ox := human_left_limit, ospeed := - ospeed ob1\<rparr> else ob1);
             ob3 = (if ox ob2 > human_right_limit
                    then ob2\<lparr>ox := human_right_limit, ospeed := - ospeed ob2\<rparr> else ob2)
         in ob3)
      else ob)"

definition update_humans :: "game_state \<Rightarrow> game_state" where
  "update_humans s =
     (if tick_index s < first_human_tick then s
      else (let s1 = s\<lparr>next_human_in := next_human_in s - 1\<rparr>;
                s2 = (if next_human_in s1 \<le> 0 then try_spawn_human s1 else s1)
            in s2\<lparr>game_objects := map move_human (game_objects s2)\<rparr>))"

subsection \<open>Scrolling, score and reaping\<close>

definition update_game_objects :: "game_state \<Rightarrow> game_state js" where
  "update_game_objects s =
     (if game_objects s = [] then Inr s
      else (case get_car s of
              None \<Rightarrow> Inl Type_Error
            | Some car \<Rightarrow>
                Inr (s\<lparr>game_objects :=
                       map (\<lambda>ob. if oid ob = oid car then ob else ob\<lparr>oz := oz ob - speed s\<rparr>)
                           (game_objects s)\<rparr>)))"

definition update_score :: "game_state \<Rightarrow> game_state" where
  "update_score s =
     (let sc = max 0 (score s + (real (difficulty s) + 1) / 10)
      in s\<lparr>score := sc, max_score := (if sc > of_int (max_score s) then \<lfloor>sc\<rfloor> else max_score s)\<rparr>)"

definition mark_far_object :: "game_object \<Rightarrow> game_state \<Rightarrow> game_state" where
  "mark_far_object ob s = (if oz ob < z_destroy_threshold then destroy_game_object ob s else s)"

definition clear_game_objects :: "game_state \<Rightarrow> game_state" where
  "clear_game_objects s =
     (let s1 = fold mark_far_object (game_objects s) s
      in s1\<lparr>game_objects := fold (\<lambda>i obs. filter (\<lambda>ob. oid ob \<noteq> i) obs) (to_destroy s1) (game_objects s1),
            to_destroy := []\<rparr>)"

subsection \<open>The obstacle batch\<close>

lemma place_one_added:
  "game_objects ((create_game_object (new_obstacle x z) (s\<lparr>rnd := r\<rparr>))\<lparr>next_obstacle_in := n\<rparr>) =
   game_objects s @ [(new_obstacle x z)\<lparr>oid := game_object_id s\<rparr>]"
  by (simp add: create_game_object_def)

lemma place_step_shape:
  "b \<noteq> 0 \<Longrightarrow> \<exists>x z r n.
     (if b \<noteq> 0 then
        (let x = scene_left_border + obstacle_width / 2 + obstacle_width * real i;
             (z, r) = (if stair
                       then (let (flip, r') = random_bool (rnd s);
                                 inc = obstacle_width * real i
                             in (scene_depth + (if flip then - inc else inc), r'))
                       else (scene_depth, rnd s))
         in (create_game_object (new_obstacle x z) (s\<lparr>rnd := r\<rparr>))\<lparr>next_obstacle_in := obstacle_interval s\<rparr>)
      else s) = (create_game_object (new_obstacle x z) (s\<lparr>rnd := r\<rparr>))\<lparr>next_obstacle_in := n\<rparr>"
  unfolding Let_def split_def by (simp only: not_False_eq_True if_True, intro exI, rule refl)

lemma place_obstacles_added:
  "\<exists>added. game_objects (place_obstacles stair i bs s) = game_objects s @ added \<and>
     length added = length (filter (\<lambda>b. b \<noteq> 0) bs) \<and> (\<forall>ob\<in>set added. otype ob = Obstacle)"
proof (induction stair i bs s rule: place_obstacles.induct)
  case (1 stair i s)
  then show ?case by simp
next
  case (2 stair i b bs s)
  show ?case
  proof (cases "b = 0")
    case True
    with 2 show ?thesis by simp
  next
    case False
    from place_step_shape [OF False, of i stair s] obtain x z r n where
      sh: "(if b \<noteq> 0 then
        (let x = scene_left_border + obstacle_width / 2 + obstacle_width * real i;
             (z, r) = (if stair
                       then (let (flip, r') = random_bool (rnd s);
                                 inc = obstacle_width * real i
                             in (scene_depth + (if flip then - inc else inc), r'))
                       else (scene_depth, rnd s))
         in (create_game_object (new_obstacle x z) (s\<lparr>rnd := r\<rparr>))\<lparr>next_obstacle_in := obstacle_interval s\<rparr>)
      else s) = (create_game_object (new_obstacle x z) (s\<lparr>rnd := r\<rparr>))\<lparr>next_obstacle_in := n\<rparr>"
      by blast
    obtain added where a: "game_objects (place_obstacles stair (Suc i) bs
        ((create_game_object (new_obstacle x z) (s\<lparr>rnd := r\<rparr>))\<lparr>next_obstacle_in := n\<rparr>)) =
        game_objects ((create_game_object (new_obstacle x z) (s\<lparr>rnd := r\<rparr>))\<lparr>next_obstacle_in := n\<rparr>) @ added"
      "length added = length (filter (\<lambda>b. b \<noteq> 0) bs)" "\<forall>ob\<in>set added. otype ob = Obstacle"
      using "2.IH" unfolding sh by blast
    have "place_obstacles stair i (b # bs) s =
          place_obstacles stair (Suc i) bs ((create_game_object (new_obstacle x z) (s\<lparr>rnd := r\<rparr>))\<lparr>next_obstacle_in := n\<rparr>)"
      by (simp only: place_obstacles.simps(2) sh)
    with a False show ?thesis unfolding place_one_added
      by (intro exI [of _ "(new_obstacle x z)\<lparr>oid := game_object_id s\<rparr> # added"]) simp
  qed
qed

lemma length_filter_mset_eq:
  "mset xs = mset ys \<Longrightarrow> length (filter P xs) = length (filter P ys)"
  by (metis mset_filter size_mset)

lemma slot_count:
  "length (filter (\<lambda>b. b \<noteq> 0) (map (\<lambda>i. if int i < c then 1 else (0::int)) [0..<n])) = nat (min c (int n))"
  by (induction n) (auto simp: min_def nat_add_distrib)

lemma js_round_mono: "x \<le> y \<Longrightarrow> js_round x \<le> js_round y"
  by (simp add: js_round_def floor_mono)

lemma obstacle_count_range_le: "fst (obstacle_count_range d) \<le> snd (obstacle_count_range d)"
  by (simp add: obstacle_count_range_def js_round_mono game_consts)

lemma spawn_obstacles_unfold:
  "spawn_obstacles s =
     (let rg = obstacle_count_range (difficulty s);
          c = fst (random_int (of_int (fst rg)) (of_int (snd rg + 1)) (rnd s));
          slots = map (\<lambda>i. if int i < c then 1 else 0) [0..<max_obstacles_count];
          sh = shuffle slots (stl (rnd s))
      in place_obstacles (fst (random_bool (snd sh))) 0 (fst sh) (s\<lparr>rnd := stl (snd sh)\<rparr>))"
  by (simp add: spawn_obstacles_def Let_def split_def)

text \<open>
  C12. A batch of obstacles: with \<open>Math.random()\<close> in \<open>[0, 1)\<close>, \<open>updateObstacles\<close>'
  spawn step draws a count between the interpolated bounds for the current level and
  appends exactly that many new objects (at most one per slot), all obstacles, after the
  existing ones; the shuffle only moves the occupied slots around.
\<close>

theorem spawn_obstacles_count:
  assumes "rng_ok (rnd s)"
  shows "\<exists>c added. fst (obstacle_count_range (difficulty s)) \<le> c \<and> c \<le> snd (obstacle_count_range (difficulty s)) \<and>
           game_objects (spawn_obstacles s) = game_objects s @ added \<and>
           length added = nat (min c (int max_obstacles_count)) \<and> (\<forall>ob\<in>set added. otype ob = Obstacle)"
proof -
  define rg where "rg = obstacle_count_range (difficulty s)"
  define c where "c = fst (random_int (of_int (fst rg)) (of_int (snd rg + 1)) (rnd s))"
  define slots :: "int list" where "slots = map (\<lambda>i. if int i < c then 1 else 0) [0..<max_obstacles_count]"
  define sh where "sh = shuffle slots (stl (rnd s))"
  have cb: "fst rg \<le> c \<and> c < snd rg + 1"
    unfolding c_def using random_int_bounds [OF assms, of "fst rg" "snd rg + 1"]
      obstacle_count_range_le [of "difficulty s"] by (simp add: rg_def)
  have "mset (fst sh) = mset slots"
    using shuffle_loop_mset_rng [of "stl (rnd s)" "length slots" slots] assms by (simp add: sh_def shuffle_def)
  then have n: "length (filter (\<lambda>b. b \<noteq> 0) (fst sh)) = nat (min c (int max_obstacles_count))"
    using length_filter_mset_eq slot_count by (metis slots_def)
  obtain added where a: "game_objects (place_obstacles (fst (random_bool (snd sh))) 0 (fst sh) (s\<lparr>rnd := stl (snd sh)\<rparr>)) =
      game_objects s @ added" "length added = length (filter (\<lambda>b. b \<noteq> 0) (fst sh))"
      "\<forall>ob\<in>set added. otype ob = Obstacle"
    using place_obstacles_added [of "fst (random_bool (snd sh))" 0 "fst sh" "s\<lparr>rnd := stl (snd sh)\<rparr>"] by auto
  have "spawn_obstacles s = place_obstacles (fst (random_bool (snd sh))) 0 (fst sh) (s\<lparr>rnd := stl (snd sh)\<rparr>)"
    by (simp add: spawn_obstacles_unfold Let_def rg_def c_def slots_def sh_def)
  with a n cb show ?thesis unfolding rg_def by (intro exI [of _ c] exI [of _ added]) simp
qed

theorem spawn_obstacles_count_witness:
  "rng_ok (rnd (start 0 (game_module (sconst (1 / 2)) True None))) \<and>
   (\<exists>c added. 1 \<le> c \<and> c \<le> 1 \<and>
      game_objects (spawn_obstacles (start 0 (game_module (sconst (1 / 2)) True None))) =
        game_objects (start 0 (game_module (sconst (1 / 2)) True None)) @ added \<and>
      length added = nat (min c (int max_obstacles_count)))"
proof -
  let ?s = "start 0 (game_module (sconst (1 / 2)) True None)"
  have r: "rng_ok (rnd ?s)"
    by (simp add: start_def game_module_def create_game_object_def add_event_listeners_def Let_def)
  have d: "obstacle_count_range (difficulty ?s) = (1, 1)"
    by (simp add: start_def create_game_object_def add_event_listeners_def Let_def
        obstacle_count_range_def js_round_def game_consts)
  from spawn_obstacles_count [OF r] r d show ?thesis by auto
qed

subsection \<open>The human spawner\<close>

lemma check_collision_oid [simp]: "check_collision (h\<lparr>oid := i\<rparr>) ob = check_collision h ob"
  by (simp add: check_collision_def to_rect_points_def)

lemma try_spawn_human_unfold:
  "try_spawn_human s =
     (let x = fst (js_random human_left_limit human_right_limit (rnd s));
          sp = fst (js_random human_min_speed human_max_speed (stl (rnd s)));
          human = new_human x scene_depth (if fst (random_bool (stl (stl (rnd s)))) then - sp else sp)
      in if \<not> list_ex (\<lambda>ob. otype ob = Obstacle \<and> check_collision human ob) (game_objects s)
         then (create_game_object human (s\<lparr>rnd := stl (stl (stl (rnd s)))\<rparr>))
                \<lparr>next_human_in := fst (random_int min_human_interval max_human_interval (stl (stl (stl (rnd s))))),
                  rnd := stl (stl (stl (stl (rnd s))))\<rparr>
         else s\<lparr>rnd := stl (stl (stl (rnd s)))\<rparr>)"
  by (simp add: try_spawn_human_def Let_def split_def human_left_limit_def human_right_limit_def
      create_game_object_def)

text \<open>
  C13. No one is spawned in a box: one step of the human spawner appends at most one
  object; it is a human, it overlaps none of the obstacles present, and (with
  \<open>Math.random()\<close> in \<open>[0, 1)\<close>) it stands within the lane and walks at a speed
  whose magnitude lies in \<open>[HUMAN_MIN_SPEED, HUMAN_MAX_SPEED)\<close>.
\<close>

theorem try_spawn_human_clear:
  assumes "rng_ok (rnd s)"
  shows "\<exists>added. game_objects (try_spawn_human s) = game_objects s @ added \<and> length added \<le> 1 \<and>
           (\<forall>h\<in>set added. otype h = Human \<and>
              (\<forall>ob\<in>set (game_objects s). otype ob = Obstacle \<longrightarrow> \<not> check_collision h ob) \<and>
              human_left_limit \<le> ox h \<and> ox h \<le> human_right_limit \<and>
              human_min_speed \<le> \<bar>ospeed h\<bar> \<and> \<bar>ospeed h\<bar> < human_max_speed)"
proof -
  define x where "x = fst (js_random human_left_limit human_right_limit (rnd s))"
  define sp where "sp = fst (js_random human_min_speed human_max_speed (stl (rnd s)))"
  define human where "human = new_human x scene_depth (if fst (random_bool (stl (stl (rnd s)))) then - sp else sp)"
  have xb: "human_left_limit \<le> x \<and> x \<le> human_right_limit"
    using js_random_bounds [OF assms, of human_left_limit human_right_limit]
    by (auto simp: x_def human_left_limit_def human_right_limit_def game_consts)
  have sb: "human_min_speed \<le> sp \<and> sp < human_max_speed"
    using js_random_bounds [of "stl (rnd s)" human_min_speed human_max_speed] assms
    by (simp add: sp_def game_consts)
  have hb: "otype human = Human \<and> human_left_limit \<le> ox human \<and> ox human \<le> human_right_limit \<and>
            human_min_speed \<le> \<bar>ospeed human\<bar> \<and> \<bar>ospeed human\<bar> < human_max_speed"
    using xb sb by (simp add: human_def game_consts)
  have eq: "try_spawn_human s =
     (if \<not> list_ex (\<lambda>ob. otype ob = Obstacle \<and> check_collision human ob) (game_objects s)
      then (create_game_object human (s\<lparr>rnd := stl (stl (stl (rnd s)))\<rparr>))
             \<lparr>next_human_in := fst (random_int min_human_interval max_human_interval (stl (stl (stl (rnd s))))),
               rnd := stl (stl (stl (stl (rnd s))))\<rparr>
      else s\<lparr>rnd := stl (stl (stl (rnd s)))\<rparr>)"
    unfolding try_spawn_human_unfold human_def sp_def x_def Let_def by (rule refl)
  show ?thesis
  proof (cases "list_ex (\<lambda>ob. otype ob = Obstacle \<and> check_collision human ob) (game_objects s)")
    case True
    then have "game_objects (try_spawn_human s) = game_objects s" by (simp only: eq) simp
    then show ?thesis by simp
  next
    case False
    then have "game_objects (try_spawn_human s) = game_objects s @ [human\<lparr>oid := game_object_id s\<rparr>]"
      by (simp only: eq) (simp add: create_game_object_def)
    with False hb show ?thesis by (auto simp: list_ex_iff)
  qed
qed

theorem try_spawn_human_clear_witness:
  "rng_ok (rnd (start 0 (game_module (sconst (1 / 2)) True None))) \<and>
   (\<exists>added. game_objects (try_spawn_human (start 0 (game_module (sconst (1 / 2)) True None))) =
      game_objects (start 0 (game_module (sconst (1 / 2)) True None)) @ added \<and> length added \<le> 1)"
proof -
  have r: "rng_ok (rnd (start 0 (game_module (sconst (1 / 2)) True None)))"
    by (simp add: start_def game_module_def create_game_object_def add_event_listeners_def Let_def)
  from try_spawn_human_clear [OF r] r show ?thesis by blast
qed

subsection \<open>Steering\<close>

text \<open>
  C14. Steering: \<open>updateCar\<close> throws a \<open>TypeError\<close> when there is no car; otherwise it
  moves only the car, and only sideways, to a position clamped so that the whole car
  stays within the lane.
\<close>

theorem update_car_clamped:
  "(get_car s = None \<longrightarrow> update_car s = Inl Type_Error) \<and>
   (\<forall>car. get_car s = Some car \<longrightarrow> width car \<le> scene_right_border - scene_left_border \<longrightarrow>
      (\<exists>t x. update_car s = Inr t \<and> get_car t = Some (car\<lparr>ox := x\<rparr>) \<and>
         scene_left_border + width car / 2 \<le> x \<and> x \<le> scene_right_border - width car / 2 \<and>
         game_objects t = map (\<lambda>ob. if oid ob = oid car then ob\<lparr>ox := x\<rparr> else ob) (game_objects s)))"
proof (intro conjI allI impI)
  show "get_car s = None \<Longrightarrow> update_car s = Inl Type_Error" by (simp add: update_car_def)
next
  fix car
  assume c: "get_car s = Some car" and w: "width car \<le> scene_right_border - scene_left_border"
  have o: "oid car = 1"
    using c find_Some_in_set [of "\<lambda>ob. oid ob = 1"] by (auto simp: get_car_def lookup_object_def)
  define x2 where "x2 = (if right_key_pressed s
      then (if left_key_pressed s then ox car - strafe_speed s else ox car) + strafe_speed s
      else (if left_key_pressed s then ox car - strafe_speed s else ox car))"
  define x where "x = max (scene_left_border + width car / 2) (min (scene_right_border - width car / 2) x2)"
  have u: "update_car s = Inr (update_object (oid car) (\<lambda>ob. ob\<lparr>ox := x\<rparr>) s)"
    using c by (simp add: update_car_def x_def x2_def Let_def)
  have g: "get_car (update_object (oid car) (\<lambda>ob. ob\<lparr>ox := x\<rparr>) s) = Some (car\<lparr>ox := x\<rparr>)"
    using c o by (simp add: get_car_def lookup_object_def update_object_def)
  have "scene_left_border + width car / 2 \<le> x \<and> x \<le> scene_right_border - width car / 2"
    unfolding x_def using w by (intro clamp_bounds) simp
  with u g show "\<exists>t x. update_car s = Inr t \<and> get_car t = Some (car\<lparr>ox := x\<rparr>) \<and>
         scene_left_border + width car / 2 \<le> x \<and> x \<le> scene_right_border - width car / 2 \<and>
         game_objects t = map (\<lambda>ob. if oid ob = oid car then ob\<lparr>ox := x\<rparr> else ob) (game_objects s)"
    by (auto simp: update_object_def)
qed

theorem update_car_clamped_witness:
  "update_car (game_module (sconst 0) False None) = Inl Type_Error \<and>
   (\<exists>t x. update_car (start 0 (game_module (sconst 0) False None)) = Inr t \<and>
      get_car t = Some (new_car\<lparr>oid := 1, ox := x\<rparr>) \<and> - 2.75 \<le> x \<and> x \<le> 2.75)"
proof -
  have n: "get_car (game_module (sconst 0) False None) = None"
    by (simp add: get_car_def lookup_object_def game_module_def)
  have c: "get_car (start 0 (game_module (sconst 0) False None)) = Some (new_car\<lparr>oid := 1\<rparr>)"
    by (simp add: get_car_def lookup_object_def start_def create_game_object_def add_event_listeners_def
        Let_def game_module_def)
  have w: "width (new_car\<lparr>oid := 1\<rparr>) \<le> scene_right_border - scene_left_border"
    by (simp add: game_consts)
  from update_car_clamped [of "game_module (sconst 0) False None"] n
  have "update_car (game_module (sconst 0) False None) = Inl Type_Error" by simp
  moreover from update_car_clamped [of "start 0 (game_module (sconst 0) False None)"] c w
  obtain t x where "update_car (start 0 (game_module (sconst 0) False None)) = Inr t"
    "get_car t = Some (new_car\<lparr>oid := 1, ox := x\<rparr>)" "scene_left_border + car_width / 2 \<le> x"
    "x \<le> scene_right_border - car_width / 2" by auto
  ultimately show ?thesis by (auto simp: game_consts)
qed

end
