(* ===== verification/Collisions.thy ===== *)
theory Collisions
  imports Session Keys
begin

text \<open>
  \<open>handleCollisions\<close> of \<open>src/src/Game.js\<close> (lines 378--398): over a snapshot of the
  keys, every pair \<open>(i, k)\<close> that passes the string test (\<open>collision_pairs\<close>, theory
  \<open>Keys\<close>) is tested with \<open>checkCollision\<close>, and on a hit both responses run,
  \<open>obj1.onCollide(obj2)\<close> then \<open>obj2.onCollide(obj1)\<close>. A response is the list of
  reactions of theory \<open>Entities\<close>; \<open>apply_reaction\<close> gives each its effect on the
  session: \<open>Stop_Game\<close> is the whole \<open>stop()\<close> (which can throw through the HUD),
  \<open>Destroy_Other\<close> only marks the other object's id in \<open>toDestroy\<close>. The two objects
  are looked up by key when the pair is reached, as \<open>gameObjects[i]\<close> is; a missing key
  would throw (\<open>undefined.toRectPoints\<close>). The responses read only the type and the id
  of the other object, which no response changes, so the second call may be given the
  object as it was read for the test.
\<close>

fun apply_reaction :: "game_object \<Rightarrow> game_object \<Rightarrow> reaction \<Rightarrow> game_state \<Rightarrow> game_state js" where
  "apply_reaction this other Flip_Speed s = Inr (update_object (oid this) (\<lambda>ob. ob\<lparr>ospeed := - ospeed ob\<rparr>) s)"
| "apply_reaction this other Stop_Game s = stop s"
| "apply_reaction this other (Score_Delta n) s = Inr (s\<lparr>score := score s + of_int n\<rparr>)"
| "apply_reaction this other (Show_Delta n) s = Inr (s\<lparr>hud := add_score n (hud s)\<rparr>)"
| "apply_reaction this other Destroy_Other s = Inr (destroy_game_object other s)"

definition respond :: "game_object \<Rightarrow> game_object \<Rightarrow> game_state \<Rightarrow> game_state js" where
  "respond this other s =
     fold_js (apply_reaction this other) (on_collide (game_mode s) (otype this) (otype other)) s"

fun collide_pair :: "nat \<times> nat \<Rightarrow> game_state \<Rightarrow> game_state js" where
  "collide_pair (i, k) s =
     (case (lookup_object i s, lookup_object k s) of
        (Some obj1, Some obj2) \<Rightarrow>
          (if check_collision obj1 obj2
           then bind_js (respond obj1 obj2 s) (respond obj2 obj1)
           else Inr s)
      | _ \<Rightarrow> Inl Type_Error)"

definition handle_collisions :: "game_state \<Rightarrow> game_state js" where
  "handle_collisions s =
     (let keys = object_keys s
      in if length keys < 2 then Inr s else fold_js collide_pair (collision_pairs keys) s)"

text \<open>
  What the pass may change: the objects only in their speed, the deletion marks only by
  ids of humans, and none of the counters the other phases read.
\<close>

definition strip_speed :: "game_object \<Rightarrow> game_object" where
  "strip_speed ob = ob\<lparr>ospeed := 0\<rparr>"

definition human_ids :: "game_state \<Rightarrow> nat set" where
  "human_ids s = set (map oid (filter (\<lambda>ob. otype ob = Human) (game_objects s)))"

definition coll_frame :: "game_state \<Rightarrow> game_state \<Rightarrow> bool" where
  "coll_frame s t \<longleftrightarrow>
     map strip_speed (game_objects t) = map strip_speed (game_objects s) \<and>
     set (to_destroy t) \<subseteq> set (to_destroy s) \<union> human_ids s \<and> counters t = counters s"

subsection \<open>Frame of the collision pass\<close>

lemma map_strip_speed_oid: "map strip_speed xs = map strip_speed ys \<Longrightarrow> map oid xs = map oid ys"
proof -
  assume "map strip_speed xs = map strip_speed ys"
  then have "map oid (map strip_speed xs) = map oid (map strip_speed ys)" by simp
  then show ?thesis by (simp add: strip_speed_def comp_def)
qed

lemma oid_filter_strip_speed:
  "map oid (filter (\<lambda>ob. otype ob = Human) (map strip_speed xs)) = map oid (filter (\<lambda>ob. otype ob = Human) xs)"
  by (induction xs) (simp_all add: strip_speed_def)

lemma human_ids_strip_speed:
  "map strip_speed (game_objects t) = map strip_speed (game_objects s) \<Longrightarrow> human_ids t = human_ids s"
  by (metis human_ids_def oid_filter_strip_speed)

lemma coll_frame_refl [simp]: "coll_frame s s"
  by (simp add: coll_frame_def)

lemma coll_frame_trans:
  assumes a: "coll_frame s t" and b: "coll_frame t u"
  shows "coll_frame s u"
proof -
  from a have "map strip_speed (game_objects t) = map strip_speed (game_objects s)"
    by (simp add: coll_frame_def)
  then have h: "human_ids t = human_ids s" by (rule human_ids_strip_speed)
  from a have a2: "set (to_destroy t) \<subseteq> set (to_destroy s) \<union> human_ids s"
    by (simp add: coll_frame_def)
  from b have b2: "set (to_destroy u) \<subseteq> set (to_destroy t) \<union> human_ids t"
    by (simp add: coll_frame_def)
  from a2 b2 h have "set (to_destroy u) \<subseteq> set (to_destroy s) \<union> human_ids s" by blast
  moreover from a b have "map strip_speed (game_objects u) = map strip_speed (game_objects s)"
    by (simp add: coll_frame_def)
  moreover from a b have "counters u = counters s" by (simp add: coll_frame_def)
  ultimately show ?thesis by (simp add: coll_frame_def)
qed

lemma coll_frame_human_ids: "coll_frame s t \<Longrightarrow> human_ids t = human_ids s"
  unfolding coll_frame_def by (elim conjE) (rule human_ids_strip_speed)

lemma coll_frame_keys: "coll_frame s t \<Longrightarrow> object_keys t = object_keys s"
  unfolding coll_frame_def object_keys_def by (elim conjE) (rule map_strip_speed_oid)

lemma strip_speed_ospeed [simp]: "strip_speed (ob\<lparr>ospeed := v\<rparr>) = strip_speed ob"
  by (simp add: strip_speed_def)

lemma apply_reaction_frame:
  assumes ap: "apply_reaction this other r s = Inr t"
    and d: "r = Destroy_Other \<longrightarrow> oid other \<in> human_ids s"
  shows "coll_frame s t"
proof (cases r)
  case Flip_Speed
  with ap have "t = update_object (oid this) (\<lambda>ob. ob\<lparr>ospeed := - ospeed ob\<rparr>) s" by simp
  then show ?thesis by (simp add: coll_frame_def counters_def update_object_def)
next
  case Stop_Game
  obtain t' where "stop s = Inr t'" "stop_frame s t'" using stop_Inr by blast
  with ap Stop_Game show ?thesis by (simp add: stop_frame_def coll_frame_def)
next
  case (Score_Delta n)
  with ap have "t = s\<lparr>score := score s + of_int n\<rparr>" by simp
  then show ?thesis by (simp add: coll_frame_def counters_def)
next
  case (Show_Delta n)
  with ap have "t = s\<lparr>hud := add_score n (hud s)\<rparr>" by simp
  then show ?thesis by (simp add: coll_frame_def counters_def)
next
  case Destroy_Other
  with ap have "t = destroy_game_object other s" by simp
  with Destroy_Other d show ?thesis by (simp add: coll_frame_def counters_def destroy_game_object_def)
qed

lemma apply_reaction_Inr: "\<exists>t. apply_reaction this other r s = Inr t"
  using stop_Inr by (cases r) auto

lemma destroy_only_humans:
  "Destroy_Other \<in> set (on_collide m a b) \<Longrightarrow> a = Car \<and> b = Human"
  by (cases a) (auto split: if_splits)

lemma respond_frame:
  assumes "respond this other s = Inr t" "otype other = Human \<longrightarrow> oid other \<in> human_ids s"
  shows "coll_frame s t"
proof (rule fold_js_invariant [where P = "coll_frame s", OF coll_frame_refl _ assms(1) [unfolded respond_def]])
  fix r u u'
  assume r: "r \<in> set (on_collide (game_mode s) (otype this) (otype other))"
    and fu: "coll_frame s u" and ap: "apply_reaction this other r u = Inr u'"
  have "r = Destroy_Other \<longrightarrow> oid other \<in> human_ids u"
    using r assms(2) destroy_only_humans coll_frame_human_ids [OF fu] by auto
  with ap have "coll_frame u u'" by (rule apply_reaction_frame)
  with fu show "coll_frame s u'" by (rule coll_frame_trans)
qed

lemma respond_Inr: "\<exists>t. respond this other s = Inr t"
proof -
  have "\<exists>t. fold_js (apply_reaction this other) rs s = Inr t \<and> True" for rs
    by (rule fold_js_total) (simp_all add: apply_reaction_Inr)
  then show ?thesis by (simp add: respond_def)
qed

lemma lookup_object_human_ids:
  "lookup_object i s = Some ob \<Longrightarrow> otype ob = Human \<Longrightarrow> oid ob \<in> human_ids s"
  by (auto simp: lookup_object_def human_ids_def dest: find_Some_in_set)

lemma lookup_object_present:
  "i \<in> set (object_keys s) \<Longrightarrow> \<exists>ob. lookup_object i s = Some ob"
  by (cases "lookup_object i s") (auto simp: lookup_object_def object_keys_def find_key_None_iff)

lemma collide_pair_frame:
  assumes "collide_pair (i, k) s = Inr t"
  shows "coll_frame s t"
proof -
  obtain o1 o2 where l: "lookup_object i s = Some o1" "lookup_object k s = Some o2"
    using assms by (auto split: option.splits)
  show ?thesis
  proof (cases "check_collision o1 o2")
    case True
    with assms l obtain u where u: "respond o1 o2 s = Inr u" "respond o2 o1 u = Inr t"
      by (auto simp: bind_js_eq_Inr)
    have f1: "coll_frame s u"
      using u(1) l by (auto intro: respond_frame lookup_object_human_ids)
    have "otype o1 = Human \<longrightarrow> oid o1 \<in> human_ids u"
      using l coll_frame_human_ids [OF f1] by (auto intro: lookup_object_human_ids)
    with u(2) have "coll_frame u t" by (rule respond_frame)
    with f1 show ?thesis by (rule coll_frame_trans)
  next
    case False
    with assms l show ?thesis by simp
  qed
qed

lemma collide_pair_Inr:
  assumes "i \<in> set (object_keys s)" "k \<in> set (object_keys s)"
  shows "\<exists>t. collide_pair (i, k) s = Inr t"
proof -
  obtain o1 o2 where l: "lookup_object i s = Some o1" "lookup_object k s = Some o2"
    using assms lookup_object_present by blast
  obtain u where u: "respond o1 o2 s = Inr u" using respond_Inr by blast
  obtain t where "respond o2 o1 u = Inr t" using respond_Inr by blast
  with l u show ?thesis by auto
qed

lemma handle_collisions_frame: "\<exists>t. handle_collisions s = Inr t \<and> coll_frame s t"
proof (cases "length (object_keys s) < 2")
  case True
  then show ?thesis by (simp add: handle_collisions_def)
next
  case False
  have "\<exists>t. fold_js collide_pair (collision_pairs (object_keys s)) s = Inr t \<and> coll_frame s t"
  proof (rule fold_js_total)
    fix p u
    assume p: "p \<in> set (collision_pairs (object_keys s))" and u: "coll_frame s u"
    obtain i k where ik: "p = (i, k)" by (cases p)
    from p ik u have "i \<in> set (object_keys u)" "k \<in> set (object_keys u)"
      by (simp_all add: set_collision_pairs coll_frame_keys)
    then obtain u' where u': "collide_pair (i, k) u = Inr u'" using collide_pair_Inr by blast
    then have "coll_frame u u'" by (rule collide_pair_frame)
    with u u' ik show "\<exists>u'. collide_pair p u = Inr u' \<and> coll_frame s u'"
      by (blast intro: coll_frame_trans)
  qed simp
  with False show ?thesis by (simp add: handle_collisions_def)
qed

text \<open>
  C2. No mid-tick destruction: the collision pass always returns (it never throws), every
  object is still in the store afterwards with the same id, position, size and type (only
  a human's speed may change), and the only new deletion marks are ids of humans.
\<close>

theorem handle_collisions_no_destruction:
  "\<exists>t. handle_collisions s = Inr t \<and> object_keys t = object_keys s \<and>
       map strip_speed (game_objects t) = map strip_speed (game_objects s) \<and>
       set (to_destroy t) \<subseteq> set (to_destroy s) \<union> human_ids s"
  using handle_collisions_frame [of s] coll_frame_keys by (auto simp: coll_frame_def)

subsection \<open>The responses of each pair of types\<close>

lemma respond_car_obstacle: "otype a = Car \<Longrightarrow> otype b = Obstacle \<Longrightarrow> respond a b s = stop s"
  by (simp add: respond_def)

lemma respond_car_human:
  "otype a = Car \<Longrightarrow> otype b = Human \<Longrightarrow>
   respond a b s = Inr (destroy_game_object b
     (s\<lparr>score := score s + of_int (mode_inc (game_mode s)),
        hud := add_score (mode_inc (game_mode s)) (hud s)\<rparr>))"
  by (simp add: respond_def)

lemma respond_silent:
  "otype a = Obstacle \<or> (otype a = Human \<and> otype b \<noteq> Obstacle) \<Longrightarrow> respond a b s = Inr s"
  by (cases "otype a") (auto simp: respond_def)

subsection \<open>Properties every response keeps\<close>

text \<open>
  A property of the session kept by \<open>stop\<close> and by the four in-place effects of the
  responses is kept by the whole collision pass.
\<close>

lemma handle_collisions_preserves:
  assumes stop: "\<And>s t. P s \<Longrightarrow> stop s = Inr t \<Longrightarrow> P t"
    and upd: "\<And>s i f. P s \<Longrightarrow> P (update_object i f s)"
    and sc: "\<And>s v. P s \<Longrightarrow> P (s\<lparr>score := v\<rparr>)"
    and hd: "\<And>s u. P s \<Longrightarrow> P (s\<lparr>hud := u\<rparr>)"
    and ds: "\<And>s ob. P s \<Longrightarrow> P (destroy_game_object ob s)"
    and P: "P s" and h: "handle_collisions s = Inr t"
  shows "P t"
proof -
  have ar: "P u'" if u: "P u" and e: "apply_reaction a b r u = Inr u'" for a b r u u'
  proof (cases r)
    case Stop_Game
    with e have "stop u = Inr u'" by simp
    with u show ?thesis by (rule stop)
  qed (use u e in \<open>auto intro: upd sc hd ds\<close>)
  have rs: "P u'" if "P u" "respond a b u = Inr u'" for a b u u'
    by (rule fold_js_invariant [where P = P, OF that(1) _ that(2) [unfolded respond_def]])
      (rule ar; assumption)
  have cp: "P u'" if "P u" "collide_pair q u = Inr u'" for q u u'
  proof -
    obtain i k where q: "q = (i, k)" by (cases q)
    show ?thesis
    proof (cases "lookup_object i u")
      case None
      with that q show ?thesis by simp
    next
      case (Some o1)
      show ?thesis
      proof (cases "lookup_object k u")
        case None
        with that q Some show ?thesis by simp
      next
        case (Some o2)
        show ?thesis
        proof (cases "check_collision o1 o2")
          case True
          with that q \<open>lookup_object i u = Some o1\<close> Some obtain v where
            "respond o1 o2 u = Inr v" "respond o2 o1 v = Inr u'" by (auto simp: bind_js_eq_Inr)
          with that(1) show ?thesis by (blast intro: rs)
        next
          case False
          with that q \<open>lookup_object i u = Some o1\<close> Some show ?thesis by simp
        qed
      qed
    qed
  qed
  show ?thesis
  proof (cases "length (object_keys s) < 2")
    case True
    with P h show ?thesis by (simp add: handle_collisions_def)
  next
    case False
    with h have f: "fold_js collide_pair (collision_pairs (object_keys s)) s = Inr t"
      by (simp add: handle_collisions_def)
    show ?thesis by (rule fold_js_invariant [where P = P, OF P _ f]) (rule cp; assumption)
  qed
qed

end
