(* ===== verification/Tick.thy ===== *)
theory Tick
  imports Phases Collisions
begin

text \<open>
  \<open>tick\<close> of \<open>src/src/Game.js\<close> (lines 501--512): the tick counter is incremented,
  then the phases run in the fixed order of the code. A phase that throws ends the tick.
  The session invariant \<open>session_inv\<close> holds after \<open>start\<close> and after every tick:
  \<^item> \<open>keys_ok\<close>: the ids are strictly increasing in store order (so \<open>Object.keys\<close>
    order is the list order) and below the next id to hand out;
  \<^item> \<open>car_ok\<close>: the first object is the car, with id 1, its own size, depth 0 and its
    centre within the lane (\<open>x\<close> in \<open>[-2.75, 2.75]\<close>), and no other object is a car;
  \<^item> \<open>humans_ok\<close>: every human is within the lane (\<open>x\<close> in \<open>[-2.9, 2.9]\<close>);
  \<^item> \<open>progress_ok\<close>: the level is \<open>min (tick div 750) 9\<close> and the forward speed,
    strafe speed and obstacle interval are their initial values plus one increment per
    level;
  \<^item> the score is not negative and no deletion mark is pending.
\<close>

definition tick :: "game_state \<Rightarrow> game_state js" where
  "tick s =
     (let s1 = update_difficulty (s\<lparr>tick_index := Suc (tick_index s)\<rparr>)
      in bind_js (update_car s1) (\<lambda>s2.
         let s3 = update_humans (update_obstacles s2)
         in bind_js (update_game_objects s3) (\<lambda>s4.
            bind_js (handle_collisions s4) (\<lambda>s5.
              Inr (clear_game_objects (update_score s5))))))"

definition keys_ok :: "game_state \<Rightarrow> bool" where
  "keys_ok s \<longleftrightarrow>
     sorted_wrt (<) (object_keys s) \<and> list_all (\<lambda>i. i < game_object_id s) (object_keys s)"

definition car_obj_ok :: "game_object \<Rightarrow> bool" where
  "car_obj_ok car \<longleftrightarrow>
     oid car = 1 \<and> otype car = Car \<and> width car = car_width \<and> depth car = car_depth \<and>
     oz car = 0 \<and> scene_left_border + car_width / 2 \<le> ox car \<and>
     ox car \<le> scene_right_border - car_width / 2"

definition car_list_ok :: "game_object list \<Rightarrow> bool" where
  "car_list_ok obs \<longleftrightarrow>
     (case obs of
        [] \<Rightarrow> False
      | car # rest \<Rightarrow> car_obj_ok car \<and> list_all (\<lambda>ob. otype ob \<noteq> Car) rest)"

definition car_ok :: "game_state \<Rightarrow> bool" where
  "car_ok s \<longleftrightarrow> car_list_ok (game_objects s)"

definition human_in_lane :: "game_object \<Rightarrow> bool" where
  "human_in_lane ob \<longleftrightarrow>
     (otype ob = Human \<longrightarrow> human_left_limit \<le> ox ob \<and> ox ob \<le> human_right_limit)"

definition humans_ok :: "game_state \<Rightarrow> bool" where
  "humans_ok s \<longleftrightarrow> list_all human_in_lane (game_objects s)"

definition progress_ok :: "game_state \<Rightarrow> bool" where
  "progress_ok s \<longleftrightarrow>
     difficulty s = min (tick_index s div difficulty_update_interval) max_difficulty \<and>
     speed s = initial_speed + speed_increment * real (difficulty s) \<and>
     strafe_speed s = initial_strafe_speed + strafe_speed_increment * real (difficulty s) \<and>
     obstacle_interval s = initial_obstacle_interval + obstacle_interval_decrement * int (difficulty s)"

definition inv_core :: "game_state \<Rightarrow> bool" where
  "inv_core s \<longleftrightarrow> keys_ok s \<and> car_ok s \<and> humans_ok s"

definition prog_fields ::
  "game_state \<Rightarrow> nat \<times> nat \<times> real \<times> real \<times> int \<times> real \<times> nat list \<times> int \<times> bool \<times> nat \<times> bool \<times>
                 drawer_state \<times> bool" where
  "prog_fields s = (tick_index s, difficulty s, speed s, strafe_speed s, obstacle_interval s,
                    score s, to_destroy s, max_score s, key_listeners s, active_timers s, tracked_timer s,
                    drawer s, is_game_over s)"

text \<open>
  The page has at most one live \<open>setInterval(tick)\<close> timer, and it is the one whose
  handle \<open>gameInterval\<close> holds exactly when the key listeners are installed.
\<close>

definition timers_ok :: "game_state \<Rightarrow> bool" where
  "timers_ok s \<longleftrightarrow>
     active_timers s = (if tracked_timer s then 1 else 0) \<and> key_listeners s = tracked_timer s"

text \<open>A stopped game has no tracked tick timer: \<open>stop\<close> removed it.\<close>

definition over_ok :: "game_state \<Rightarrow> bool" where
  "over_ok s \<longleftrightarrow> (is_game_over s \<longrightarrow> \<not> tracked_timer s)"

definition session_inv :: "game_state \<Rightarrow> bool" where
  "session_inv s \<longleftrightarrow>
     keys_ok s \<and> car_ok s \<and> humans_ok s \<and> progress_ok s \<and> 0 \<le> score s \<and> to_destroy s = []"

subsection \<open>Difficulty\<close>

lemma div_step_750: "t div 750 \<le> Suc t div 750 \<and> Suc t div 750 \<le> t div 750 + (1::nat)"
  by (simp add: div_le_mono)

lemma update_difficulty_progress:
  assumes "progress_ok s"
  shows "progress_ok (update_difficulty (s\<lparr>tick_index := Suc (tick_index s)\<rparr>)) \<and>
         difficulty s \<le> difficulty (update_difficulty (s\<lparr>tick_index := Suc (tick_index s)\<rparr>)) \<and>
         difficulty (update_difficulty (s\<lparr>tick_index := Suc (tick_index s)\<rparr>)) \<le> Suc (difficulty s)"
proof -
  let ?t = "tick_index s"
  have d: "difficulty s = min (?t div 750) 9" using assms by (simp add: progress_ok_def game_consts)
  have st: "?t div 750 \<le> Suc ?t div 750" "Suc ?t div 750 \<le> ?t div 750 + 1" using div_step_750 by auto
  show ?thesis
  proof (cases "Suc ?t div 750 \<le> 9 \<and> Suc ?t div 750 > difficulty s")
    case True
    with d st have up: "Suc ?t div 750 = Suc (difficulty s)" by linarith
    from True assms up show ?thesis
      by (simp add: update_difficulty_def progress_ok_def game_consts algebra_simps Let_def)
  next
    case False
    with d st have d': "difficulty s = min (Suc ?t div 750) 9" by linarith
    from False have u: "update_difficulty (s\<lparr>tick_index := Suc ?t\<rparr>) = s\<lparr>tick_index := Suc ?t\<rparr>"
      by (simp add: update_difficulty_def Let_def game_consts)
    from assms d' show ?thesis
      unfolding u by (simp add: progress_ok_def game_consts)
  qed
qed

lemma update_difficulty_frame [simp]:
  "inv_core (update_difficulty s) = inv_core s" "score (update_difficulty s) = score s"
  "to_destroy (update_difficulty s) = to_destroy s" "tick_index (update_difficulty s) = tick_index s"
  "max_score (update_difficulty s) = max_score s" "timers_ok (update_difficulty s) = timers_ok s"
  by (simp_all add: update_difficulty_def Let_def timers_ok_def inv_core_def keys_ok_def car_ok_def humans_ok_def
      object_keys_def)

subsection \<open>The shape of the store\<close>

lemma car_ok_split:
  assumes "car_ok s" "keys_ok s"
  obtains car rest where "game_objects s = car # rest" "car_obj_ok car"
    "list_all (\<lambda>ob. otype ob \<noteq> Car \<and> 1 < oid ob) rest"
proof -
  from assms(1) obtain car rest where cr: "game_objects s = car # rest" "car_obj_ok car"
    "list_all (\<lambda>ob. otype ob \<noteq> Car) rest"
    by (auto simp: car_ok_def car_list_ok_def split: list.splits)
  from assms(2) cr have "list_all (\<lambda>ob. 1 < oid ob) rest"
    by (auto simp: keys_ok_def object_keys_def car_obj_ok_def list_all_iff)
  with cr that show ?thesis by (simp add: list_all_iff)
qed

lemma map_skip_rest:
  "list_all (\<lambda>ob. P ob \<and> k < oid ob) rest \<Longrightarrow>
   map (\<lambda>ob. if oid ob = k then f ob else ob) rest = rest"
  by (induction rest) auto

lemma get_car_head: "game_objects s = car # rest \<Longrightarrow> car_obj_ok car \<Longrightarrow> get_car s = Some car"
  by (simp add: get_car_def lookup_object_def car_obj_ok_def)

lemma progress_ok_cong:
  "tick_index t = tick_index s \<Longrightarrow> difficulty t = difficulty s \<Longrightarrow> speed t = speed s \<Longrightarrow>
   strafe_speed t = strafe_speed s \<Longrightarrow> obstacle_interval t = obstacle_interval s \<Longrightarrow>
   progress_ok t = progress_ok s"
  by (simp add: progress_ok_def)

lemma keys_ok_cong:
  "object_keys t = object_keys s \<Longrightarrow> game_object_id t = game_object_id s \<Longrightarrow> keys_ok t = keys_ok s"
  by (simp add: keys_ok_def)

subsection \<open>The car phase\<close>

lemma update_car_inv:
  assumes "car_ok s" "keys_ok s" "humans_ok s"
  shows "\<exists>t. update_car s = Inr t \<and> car_ok t \<and> keys_ok t \<and> humans_ok t \<and>
              counters t = counters s \<and> score t = score s \<and> to_destroy t = to_destroy s"
proof -
  obtain car rest where cr: "game_objects s = car # rest" "car_obj_ok car"
    and rest: "list_all (\<lambda>ob. otype ob \<noteq> Car \<and> 1 < oid ob) rest"
    using assms car_ok_split by blast
  define x2 where "x2 = (if right_key_pressed s
      then (if left_key_pressed s then ox car - strafe_speed s else ox car) + strafe_speed s
      else (if left_key_pressed s then ox car - strafe_speed s else ox car))"
  define x3 where "x3 = max (scene_left_border + width car / 2) (min (scene_right_border - width car / 2) x2)"
  have w: "width car = car_width" "oid car = 1" using cr(2) by (simp_all add: car_obj_ok_def)
  have t: "update_car s = Inr (s\<lparr>game_objects := car\<lparr>ox := x3\<rparr> # rest\<rparr>)"
    using cr rest by (simp add: update_car_def get_car_head update_object_def x2_def x3_def Let_def w map_skip_rest)
  have b: "scene_left_border + car_width / 2 \<le> x3 \<and> x3 \<le> scene_right_border - car_width / 2"
    unfolding x3_def w by (rule clamp_bounds) (simp add: game_consts)
  have "car_obj_ok (car\<lparr>ox := x3\<rparr>)" using cr(2) b by (simp add: car_obj_ok_def)
  moreover have "list_all (\<lambda>ob. otype ob \<noteq> Car) rest" using rest by (simp add: list_all_iff)
  moreover have "human_in_lane (car\<lparr>ox := x3\<rparr>)" using cr(2) by (simp add: human_in_lane_def car_obj_ok_def)
  ultimately show ?thesis using assms cr t
    by (simp add: car_ok_def car_list_ok_def keys_ok_def humans_ok_def object_keys_def counters_def)
qed

subsection \<open>Creating objects\<close>

lemma inv_core_cong:
  "game_objects t = game_objects s \<Longrightarrow> game_object_id t = game_object_id s \<Longrightarrow> inv_core t = inv_core s"
  by (simp add: inv_core_def keys_ok_def car_ok_def humans_ok_def object_keys_def)

lemma inv_core_fields [simp]:
  "inv_core (s\<lparr>rnd := r\<rparr>) = inv_core s"
  "inv_core (s\<lparr>next_obstacle_in := n\<rparr>) = inv_core s"
  "inv_core (s\<lparr>next_human_in := n\<rparr>) = inv_core s"
  "inv_core (s\<lparr>score := v\<rparr>) = inv_core s"
  "inv_core (s\<lparr>max_score := m\<rparr>) = inv_core s"
  "inv_core (s\<lparr>tick_index := t\<rparr>) = inv_core s"
  by (simp_all add: inv_core_def keys_ok_def car_ok_def humans_ok_def object_keys_def)

lemma prog_fields_fields [simp]:
  "prog_fields (s\<lparr>rnd := r\<rparr>) = prog_fields s"
  "prog_fields (s\<lparr>next_obstacle_in := n\<rparr>) = prog_fields s"
  "prog_fields (s\<lparr>next_human_in := n\<rparr>) = prog_fields s"
  "prog_fields (s\<lparr>game_objects := obs\<rparr>) = prog_fields s"
  by (simp_all add: prog_fields_def)

lemma prog_fields_progress_ok: "prog_fields t = prog_fields s \<Longrightarrow> progress_ok t = progress_ok s"
  by (simp add: prog_fields_def progress_ok_def)

lemma create_keys_ok: "keys_ok s \<Longrightarrow> keys_ok (create_game_object ob s)"
  by (auto simp: keys_ok_def object_keys_def create_game_object_def sorted_wrt_append list_all_iff)

lemma create_car_ok: "car_ok s \<Longrightarrow> otype ob \<noteq> Car \<Longrightarrow> car_ok (create_game_object ob s)"
  by (auto simp: car_ok_def car_list_ok_def create_game_object_def split: list.splits)

lemma create_humans_ok:
  "humans_ok s \<Longrightarrow> otype ob \<noteq> Human \<Longrightarrow> humans_ok (create_game_object ob s)"
  by (simp add: humans_ok_def human_in_lane_def create_game_object_def)

lemma create_prog_fields [simp]: "prog_fields (create_game_object ob s) = prog_fields s"
  by (simp add: prog_fields_def create_game_object_def)

subsection \<open>The obstacle phase\<close>

lemma place_one_obstacle:
  assumes "inv_core s"
  shows "inv_core ((create_game_object (new_obstacle x z) (s\<lparr>rnd := r\<rparr>))\<lparr>next_obstacle_in := n\<rparr>) \<and>
         prog_fields ((create_game_object (new_obstacle x z) (s\<lparr>rnd := r\<rparr>))\<lparr>next_obstacle_in := n\<rparr>) = prog_fields s"
proof -
  have "inv_core (s\<lparr>rnd := r\<rparr>)" using assms by simp
  then have "inv_core (create_game_object (new_obstacle x z) (s\<lparr>rnd := r\<rparr>))"
    by (simp add: inv_core_def create_keys_ok create_car_ok create_humans_ok)
  then show ?thesis by simp
qed

lemma place_obstacles_inv:
  "inv_core s \<Longrightarrow> inv_core (place_obstacles stair i bs s) \<and> prog_fields (place_obstacles stair i bs s) = prog_fields s"
proof (induction stair i bs s rule: place_obstacles.induct)
  case (1 stair i s)
  then show ?case by simp
next
  case (2 stair i b bs s)
  show ?case
  proof (cases "b = 0")
    case True
    with 2 show ?thesis by simp
  next
    case False
    with 2 place_one_obstacle [OF "2.prems"] show ?thesis by (simp add: Let_def split_def)
  qed
qed

lemma update_obstacles_inv:
  "inv_core s \<Longrightarrow> inv_core (update_obstacles s) \<and> prog_fields (update_obstacles s) = prog_fields s"
proof -
  assume a: "inv_core s"
  have s1: "inv_core (s\<lparr>next_obstacle_in := n, rnd := r\<rparr>)" for n r
    using a by simp
  have "inv_core (spawn_obstacles (s\<lparr>next_obstacle_in := n\<rparr>)) \<and>
        prog_fields (spawn_obstacles (s\<lparr>next_obstacle_in := n\<rparr>)) = prog_fields s" for n
    using place_obstacles_inv [OF s1] by (simp add: spawn_obstacles_def Let_def split_def)
  with a show ?thesis by (simp add: update_obstacles_def Let_def)
qed

subsection \<open>The human phase\<close>

lemma move_human_fields [simp]:
  "oid (move_human ob) = oid ob" "otype (move_human ob) = otype ob"
  "width (move_human ob) = width ob" "depth (move_human ob) = depth ob" "oz (move_human ob) = oz ob"
  by (simp_all add: move_human_def Let_def)

lemma move_human_other: "otype ob \<noteq> Human \<Longrightarrow> move_human ob = ob"
  by (simp add: move_human_def)

lemma move_human_in_lane: "human_in_lane (move_human ob)"
  by (auto simp: human_in_lane_def move_human_def Let_def human_left_limit_def
      human_right_limit_def game_consts)

lemma create_game_object_fields [simp]:
  "rnd (create_game_object ob s) = rnd s" "score (create_game_object ob s) = score s"
  "to_destroy (create_game_object ob s) = to_destroy s"
  by (simp_all add: create_game_object_def)

lemma try_spawn_human_shape:
  "\<exists>c h r n r'. try_spawn_human s =
      (if c then (create_game_object h (s\<lparr>rnd := r\<rparr>))\<lparr>next_human_in := n, rnd := r'\<rparr>
       else s\<lparr>rnd := r\<rparr>) \<and> otype h = Human"
  unfolding try_spawn_human_def Let_def split_def
  by (intro exI conjI, rule refl) simp

lemma try_spawn_human_inv:
  assumes "keys_ok s" "car_ok s"
  shows "keys_ok (try_spawn_human s) \<and> car_ok (try_spawn_human s) \<and>
         prog_fields (try_spawn_human s) = prog_fields s"
proof -
  have kc: "keys_ok (s\<lparr>rnd := r\<rparr>) \<and> car_ok (s\<lparr>rnd := r\<rparr>)" for r
    using assms by (simp add: keys_ok_def car_ok_def object_keys_def)
  obtain c h r n r' where sh: "try_spawn_human s =
      (if c then (create_game_object h (s\<lparr>rnd := r\<rparr>))\<lparr>next_human_in := n, rnd := r'\<rparr>
       else s\<lparr>rnd := r\<rparr>)" and hu: "otype h = Human"
    using try_spawn_human_shape by blast
  show ?thesis
  proof (cases c)
    case False
    with kc sh show ?thesis by (simp add: prog_fields_def)
  next
    case True
    from kc have "keys_ok (create_game_object h (s\<lparr>rnd := r\<rparr>)) \<and> car_ok (create_game_object h (s\<lparr>rnd := r\<rparr>))"
      using hu by (simp add: create_keys_ok create_car_ok)
    with True sh show ?thesis
      by (simp add: keys_ok_def car_ok_def object_keys_def prog_fields_def create_game_object_def)
  qed
qed

lemma move_humans_inv:
  assumes "keys_ok s" "car_ok s"
  shows "inv_core (s\<lparr>game_objects := map move_human (game_objects s)\<rparr>)"
proof -
  have "map oid (map move_human (game_objects s)) = map oid (game_objects s)" by (simp add: comp_def)
  then have k: "keys_ok (s\<lparr>game_objects := map move_human (game_objects s)\<rparr>)"
    using assms(1) by (simp add: keys_ok_def object_keys_def comp_def)
  obtain car rest where cr: "game_objects s = car # rest" "car_obj_ok car"
    "list_all (\<lambda>ob. otype ob \<noteq> Car) rest"
    using assms(2) by (auto simp: car_ok_def car_list_ok_def split: list.splits)
  have "move_human car = car" using cr(2) by (simp add: car_obj_ok_def move_human_other)
  with cr have c: "car_ok (s\<lparr>game_objects := map move_human (game_objects s)\<rparr>)"
    by (simp add: car_ok_def car_list_ok_def list_all_iff)
  have h: "humans_ok (s\<lparr>game_objects := map move_human (game_objects s)\<rparr>)"
    by (simp add: humans_ok_def list_all_iff move_human_in_lane)
  from k c h show ?thesis by (simp add: inv_core_def)
qed

lemma update_humans_inv:
  "inv_core s \<Longrightarrow> inv_core (update_humans s) \<and> prog_fields (update_humans s) = prog_fields s"
proof -
  assume a: "inv_core s"
  let ?s1 = "s\<lparr>next_human_in := next_human_in s - 1\<rparr>"
  let ?s2 = "if next_human_in ?s1 \<le> 0 then try_spawn_human ?s1 else ?s1"
  have "keys_ok ?s1" "car_ok ?s1" using a by (simp_all add: inv_core_def keys_ok_def car_ok_def object_keys_def)
  then have "keys_ok ?s2 \<and> car_ok ?s2 \<and> prog_fields ?s2 = prog_fields s"
    using try_spawn_human_inv by auto
  then have "inv_core (?s2\<lparr>game_objects := map move_human (game_objects ?s2)\<rparr>) \<and>
             prog_fields (?s2\<lparr>game_objects := map move_human (game_objects ?s2)\<rparr>) = prog_fields s"
    using move_humans_inv by simp
  with a show ?thesis by (simp add: update_humans_def Let_def del: prog_fields_fields)
qed

subsection \<open>Scrolling\<close>

lemma update_game_objects_inv:
  assumes "inv_core s"
  shows "\<exists>t. update_game_objects s = Inr t \<and> inv_core t \<and> prog_fields t = prog_fields s \<and>
              game_object_id t = game_object_id s"
proof -
  obtain car rest where cr: "game_objects s = car # rest" "car_obj_ok car"
    and rest: "list_all (\<lambda>ob. otype ob \<noteq> Car \<and> 1 < oid ob) rest"
    using assms car_ok_split by (auto simp: inv_core_def)
  let ?rest' = "map (\<lambda>ob. ob\<lparr>oz := oz ob - speed s\<rparr>) rest"
  have o1: "oid car = 1" using cr(2) by (simp add: car_obj_ok_def)
  have m: "map (\<lambda>ob. if oid ob = 1 then ob else ob\<lparr>oz := oz ob - speed s\<rparr>) rest = ?rest'"
    using rest by (induction rest) auto
  have t: "update_game_objects s = Inr (s\<lparr>game_objects := car # ?rest'\<rparr>)"
    using cr m o1 by (simp add: update_game_objects_def get_car_head)
  have "map oid ?rest' = map oid rest" "list_all (\<lambda>ob. otype ob \<noteq> Car) ?rest'"
    "list_all human_in_lane ?rest' = list_all human_in_lane rest"
    using rest by (simp_all add: list_all_iff human_in_lane_def comp_def)
  with assms cr have "inv_core (s\<lparr>game_objects := car # ?rest'\<rparr>)"
    by (simp add: inv_core_def keys_ok_def car_ok_def car_list_ok_def humans_ok_def object_keys_def comp_def)
  with t show ?thesis by simp
qed

subsection \<open>Collisions\<close>

lemma car_list_ok_strip: "car_list_ok (map strip_speed obs) = car_list_ok obs"
  by (cases obs) (simp_all add: car_list_ok_def car_obj_ok_def strip_speed_def list_all_iff)

lemma humans_strip: "list_all human_in_lane (map strip_speed obs) = list_all human_in_lane obs"
  by (simp add: list_all_iff human_in_lane_def strip_speed_def)

lemma inv_core_strip:
  assumes "map strip_speed (game_objects t) = map strip_speed (game_objects s)"
    "game_object_id t = game_object_id s"
  shows "inv_core t = inv_core s"
proof -
  have k: "object_keys t = object_keys s"
    unfolding object_keys_def by (rule map_strip_speed_oid [OF assms(1)])
  have "car_list_ok (map strip_speed (game_objects t)) = car_list_ok (map strip_speed (game_objects s))"
    "list_all human_in_lane (map strip_speed (game_objects t)) =
     list_all human_in_lane (map strip_speed (game_objects s))"
    by (simp_all only: assms(1))
  then have "car_ok t = car_ok s" "humans_ok t = humans_ok s"
    unfolding car_ok_def humans_ok_def car_list_ok_strip humans_strip .
  with k assms(2) show ?thesis by (simp add: inv_core_def keys_ok_def)
qed

lemma coll_frame_inv: "coll_frame s t \<Longrightarrow> inv_core t = inv_core s"
  by (rule inv_core_strip) (simp_all add: coll_frame_def counters_def)

lemma counters_progress_ok: "counters t = counters s \<Longrightarrow> progress_ok t = progress_ok s"
  by (simp add: counters_def progress_ok_def)

lemma car_not_human: "inv_core s \<Longrightarrow> 1 \<notin> human_ids s"
proof
  assume a: "inv_core s" and h: "1 \<in> human_ids s"
  obtain car rest where cr: "game_objects s = car # rest" "car_obj_ok car"
    and rest: "list_all (\<lambda>ob. otype ob \<noteq> Car \<and> 1 < oid ob) rest"
    using a car_ok_split by (auto simp: inv_core_def)
  from h cr rest show False by (auto simp: human_ids_def car_obj_ok_def list_all_iff)
qed

subsection \<open>Score and reaping\<close>

lemma fold_mark_far:
  "fold mark_far_object obs s =
     s\<lparr>to_destroy := to_destroy s @ map oid (filter (\<lambda>ob. oz ob < z_destroy_threshold) obs)\<rparr>"
  by (induction obs arbitrary: s) (simp_all add: mark_far_object_def destroy_game_object_def)

lemma fold_filter_ids:
  "fold (\<lambda>i obs. filter (\<lambda>ob. oid ob \<noteq> i) obs) ids obs = filter (\<lambda>ob. oid ob \<notin> set ids) obs"
  by (induction ids arbitrary: obs) (auto intro: filter_cong)

lemma clear_game_objects_eq:
  "clear_game_objects s =
     s\<lparr>game_objects := filter (\<lambda>ob. oid ob \<notin> set (to_destroy s @
            map oid (filter (\<lambda>ob. oz ob < z_destroy_threshold) (game_objects s)))) (game_objects s),
       to_destroy := []\<rparr>"
  by (simp add: clear_game_objects_def Let_def fold_mark_far fold_filter_ids)

lemma inv_core_filter:
  assumes "inv_core s" "1 \<notin> D"
  shows "inv_core (s\<lparr>game_objects := filter (\<lambda>ob. oid ob \<notin> D) (game_objects s)\<rparr>)"
proof -
  obtain car rest where cr: "game_objects s = car # rest" "car_obj_ok car"
    and rest: "list_all (\<lambda>ob. otype ob \<noteq> Car \<and> 1 < oid ob) rest"
    using assms(1) car_ok_split by (auto simp: inv_core_def)
  have f: "filter (\<lambda>ob. oid ob \<notin> D) (game_objects s) = car # filter (\<lambda>ob. oid ob \<notin> D) rest"
    using cr assms(2) by (simp add: car_obj_ok_def)
  have "sorted_wrt (<) (map oid (filter (\<lambda>ob. oid ob \<notin> D) (game_objects s)))"
    using assms(1) by (auto simp: inv_core_def keys_ok_def object_keys_def)
  moreover have "list_all (\<lambda>i. i < game_object_id s) (map oid (filter (\<lambda>ob. oid ob \<notin> D) (game_objects s)))"
    "list_all human_in_lane (filter (\<lambda>ob. oid ob \<notin> D) (game_objects s))"
    using assms(1) by (auto simp: inv_core_def keys_ok_def object_keys_def humans_ok_def list_all_iff)
  moreover have "car_list_ok (filter (\<lambda>ob. oid ob \<notin> D) (game_objects s))"
    unfolding f using cr(2) rest by (simp add: car_list_ok_def list_all_iff)
  ultimately show ?thesis
    by (simp add: inv_core_def keys_ok_def object_keys_def car_ok_def humans_ok_def)
qed

lemma clear_game_objects_inv:
  assumes "inv_core s" "set (to_destroy s) \<subseteq> human_ids s"
  shows "inv_core (clear_game_objects s) \<and> to_destroy (clear_game_objects s) = [] \<and>
         score (clear_game_objects s) = score s \<and> counters (clear_game_objects s) = counters s"
proof -
  obtain car rest where cr: "game_objects s = car # rest" "car_obj_ok car"
    and rest: "list_all (\<lambda>ob. otype ob \<noteq> Car \<and> 1 < oid ob) rest"
    using assms(1) car_ok_split by (auto simp: inv_core_def)
  have "1 \<notin> set (map oid (filter (\<lambda>ob. oz ob < z_destroy_threshold) (game_objects s)))"
    using cr rest by (auto simp: car_obj_ok_def list_all_iff game_consts)
  moreover have "1 \<notin> set (to_destroy s)" using assms car_not_human by blast
  ultimately have "1 \<notin> set (to_destroy s @
            map oid (filter (\<lambda>ob. oz ob < z_destroy_threshold) (game_objects s)))" by simp
  from inv_core_filter [OF assms(1) this]
  have "inv_core (s\<lparr>game_objects := filter (\<lambda>ob. oid ob \<notin> set (to_destroy s @
            map oid (filter (\<lambda>ob. oz ob < z_destroy_threshold) (game_objects s)))) (game_objects s)\<rparr>)" .
  then show ?thesis
    unfolding clear_game_objects_eq by (simp add: inv_core_def keys_ok_def car_ok_def humans_ok_def
      object_keys_def counters_def)
qed

lemma update_score_frame [simp]:
  "inv_core (update_score s) = inv_core s" "to_destroy (update_score s) = to_destroy s"
  "human_ids (update_score s) = human_ids s" "progress_ok (update_score s) = progress_ok s"
  by (simp_all add: update_score_def Let_def human_ids_def progress_ok_def)

lemma update_score_nonneg: "0 \<le> score (update_score s)"
  by (simp add: update_score_def Let_def)

lemma update_score_max:
  "max_score s \<le> max_score (update_score s) \<and> \<lfloor>score (update_score s)\<rfloor> \<le> max_score (update_score s) \<and>
   tick_index (update_score s) = tick_index s \<and> difficulty (update_score s) = difficulty s"
proof (cases "max 0 (score s + (real (difficulty s) + 1) / 10) > of_int (max_score s)")
  case True
  then have "max_score s \<le> \<lfloor>max 0 (score s + (real (difficulty s) + 1) / 10)\<rfloor>"
    by (simp add: le_floor_iff)
  with True show ?thesis by (simp add: update_score_def Let_def)
next
  case False
  then have "\<lfloor>max 0 (score s + (real (difficulty s) + 1) / 10)\<rfloor> \<le> \<lfloor>of_int (max_score s) :: real\<rfloor>"
    using False by (intro floor_mono) (simp only: not_less)
  then have "\<lfloor>max 0 (score s + (real (difficulty s) + 1) / 10)\<rfloor> \<le> max_score s" by simp
  with False show ?thesis by (simp add: update_score_def Let_def)
qed

subsection \<open>Timers through the collision pass\<close>

lemma stop_timers:
  "stop s = Inr t \<Longrightarrow> \<not> key_listeners t \<and> \<not> tracked_timer t \<and>
     active_timers t = (if tracked_timer s then active_timers s - 1 else active_timers s)"
  by (drule stop_result) (auto simp: Let_def save_max_score_def remove_event_listeners_def split: if_splits)

lemma stop_timers_ok: "timers_ok s \<Longrightarrow> stop s = Inr t \<Longrightarrow> timers_ok t"
  by (drule stop_timers) (simp add: timers_ok_def)

lemma timers_ok_fields [simp]:
  "timers_ok (update_object i f s) = timers_ok s"
  "timers_ok (s\<lparr>score := v\<rparr>) = timers_ok s"
  "timers_ok (s\<lparr>hud := u\<rparr>) = timers_ok s"
  "timers_ok (destroy_game_object ob s) = timers_ok s"
  by (simp_all add: timers_ok_def update_object_def destroy_game_object_def)

lemma handle_collisions_timers_ok:
  "timers_ok s \<Longrightarrow> handle_collisions s = Inr t \<Longrightarrow> timers_ok t"
  by (rule handle_collisions_preserves [where P = timers_ok]) (auto intro: stop_timers_ok)

lemma stop_drawer: "stop s = Inr t \<Longrightarrow> drawer t = drawer s"
  by (drule stop_result) (auto simp: Let_def save_max_score_def remove_event_listeners_def)

lemma handle_collisions_drawer: "handle_collisions s = Inr t \<Longrightarrow> drawer t = drawer s"
  by (rule handle_collisions_preserves [where P = "\<lambda>u. drawer u = drawer s"])
     (auto dest: stop_drawer simp: update_object_def destroy_game_object_def)

lemma timers_ok_phases [simp]:
  "timers_ok (s\<lparr>tick_index := n\<rparr>) = timers_ok s"
  "timers_ok (update_score s) = timers_ok s"
  "timers_ok (clear_game_objects s) = timers_ok s"
  by (simp_all add: timers_ok_def update_score_def Let_def clear_game_objects_eq)

lemma update_car_timers_ok: "update_car s = Inr t \<Longrightarrow> timers_ok t = timers_ok s \<and> drawer t = drawer s"
  by (auto simp: update_car_def Let_def update_object_def timers_ok_def split: option.splits)

lemma prog_fields_timers_ok: "prog_fields t = prog_fields s \<Longrightarrow> timers_ok t = timers_ok s"
  by (simp add: prog_fields_def timers_ok_def)

lemma update_car_over: "update_car s = Inr t \<Longrightarrow> over_ok t = over_ok s"
  by (auto simp: update_car_def Let_def update_object_def over_ok_def split: option.splits)

lemma stop_over: "stop s = Inr t \<Longrightarrow> is_game_over t \<and> \<not> tracked_timer t"
  by (drule stop_result) (auto simp: Let_def save_max_score_def remove_event_listeners_def split: if_splits)

lemma handle_collisions_over: "over_ok s \<Longrightarrow> handle_collisions s = Inr t \<Longrightarrow> over_ok t"
  by (rule handle_collisions_preserves [where P = over_ok])
     (auto dest: stop_over simp: over_ok_def update_object_def destroy_game_object_def)

subsection \<open>The whole tick\<close>

lemma tick_phases:
  assumes "session_inv s"
  obtains s2 s4 s5 where
    "update_car (update_difficulty (s\<lparr>tick_index := Suc (tick_index s)\<rparr>)) = Inr s2" "inv_core s2"
    "counters s2 = counters (update_difficulty (s\<lparr>tick_index := Suc (tick_index s)\<rparr>))" "to_destroy s2 = []"
    "update_game_objects (update_humans (update_obstacles s2)) = Inr s4" "inv_core s4"
    "prog_fields s4 = prog_fields s2"
    "handle_collisions s4 = Inr s5" "coll_frame s4 s5"
    "tick s = Inr (clear_game_objects (update_score s5))"
proof -
  let ?s1 = "update_difficulty (s\<lparr>tick_index := Suc (tick_index s)\<rparr>)"
  have "inv_core s" using assms by (simp add: session_inv_def inv_core_def)
  then have i1: "inv_core ?s1" "to_destroy ?s1 = []" using assms by (simp_all add: session_inv_def)
  obtain s2 where s2: "update_car ?s1 = Inr s2" "inv_core s2" "counters s2 = counters ?s1"
    "to_destroy s2 = []"
    using update_car_inv [of ?s1] i1 by (auto simp: inv_core_def)
  let ?s3 = "update_humans (update_obstacles s2)"
  have i3: "inv_core ?s3" "prog_fields ?s3 = prog_fields s2"
    using update_obstacles_inv [OF s2(2)] update_humans_inv by auto
  obtain s4 where s4: "update_game_objects ?s3 = Inr s4" "inv_core s4" "prog_fields s4 = prog_fields s2"
    using update_game_objects_inv [OF i3(1)] i3(2) by auto
  obtain s5 where s5: "handle_collisions s4 = Inr s5" "coll_frame s4 s5"
    using handle_collisions_frame by blast
  have "tick s = Inr (clear_game_objects (update_score s5))"
    using s2(1) s4(1) s5(1) by (simp add: tick_def Let_def)
  with s2 s4 s5 show thesis by (rule that)
qed

lemma tick_inv:
  assumes "session_inv s"
  shows "\<exists>t. tick s = Inr t \<and> session_inv t \<and> tick_index t = Suc (tick_index s) \<and>
             difficulty t = difficulty (update_difficulty (s\<lparr>tick_index := Suc (tick_index s)\<rparr>)) \<and>
             max_score s \<le> max_score t \<and> \<lfloor>score t\<rfloor> \<le> max_score t \<and>
             (timers_ok s \<longrightarrow> timers_ok t) \<and> drawer t = drawer s"
proof -
  let ?s1 = "update_difficulty (s\<lparr>tick_index := Suc (tick_index s)\<rparr>)"
  obtain s2 s4 s5 where s2: "update_car ?s1 = Inr s2" "inv_core s2" "counters s2 = counters ?s1"
    "to_destroy s2 = []"
    and s4: "update_game_objects (update_humans (update_obstacles s2)) = Inr s4" "inv_core s4"
    "prog_fields s4 = prog_fields s2"
    and s5: "handle_collisions s4 = Inr s5" "coll_frame s4 s5"
    and tt: "tick s = Inr (clear_game_objects (update_score s5))"
    by (rule tick_phases [OF assms])
  have p1: "progress_ok ?s1" using assms update_difficulty_progress by (simp add: session_inv_def)
  have p2: "progress_ok s2" using counters_progress_ok [OF s2(3)] p1 by simp
  have p4: "progress_ok s4" "to_destroy s4 = []"
    using prog_fields_progress_ok [OF s4(3)] p2 s4(3) s2(4) by (simp_all add: prog_fields_def)
  have i5: "inv_core s5" using coll_frame_inv [OF s5(2)] s4(2) by simp
  have c5: "counters s5 = counters s4" using s5(2) by (simp add: coll_frame_def)
  have p5: "progress_ok s5" using counters_progress_ok [OF c5] p4(1) by simp
  have "human_ids s5 = human_ids s4"
    using s5(2) unfolding coll_frame_def by (elim conjE) (rule human_ids_strip_speed)
  then have d5: "set (to_destroy s5) \<subseteq> human_ids s5"
    using s5(2) p4(2) by (simp add: coll_frame_def)
  let ?t = "clear_game_objects (update_score s5)"
  have ct: "inv_core ?t \<and> to_destroy ?t = [] \<and> score ?t = score (update_score s5) \<and>
        counters ?t = counters (update_score s5)"
    by (rule clear_game_objects_inv) (simp_all add: i5 d5)
  have pt: "progress_ok ?t"
    using counters_progress_ok [of ?t "update_score s5"] ct p5 by simp
  have "tick_index s5 = tick_index ?s1 \<and> difficulty s5 = difficulty ?s1 \<and> max_score s5 = max_score ?s1"
    using c5 s4(3) s2(3) by (simp add: counters_def prog_fields_def)
  moreover have "max_score s = max_score ?s1" "tick_index ?s1 = Suc (tick_index s)" by simp_all
  moreover have "tick_index ?t = tick_index (update_score s5)" "difficulty ?t = difficulty (update_score s5)"
    "max_score ?t = max_score (update_score s5)" "score ?t = score (update_score s5)"
    using ct by (simp_all add: counters_def)
  ultimately have "tick_index ?t = Suc (tick_index s) \<and> difficulty ?t = difficulty ?s1 \<and>
      max_score s \<le> max_score ?t \<and> \<lfloor>score ?t\<rfloor> \<le> max_score ?t"
    using update_score_max [of s5] by (simp only:)
  moreover have "timers_ok s \<longrightarrow> timers_ok ?t"
  proof
    assume "timers_ok s"
    then have "timers_ok s2" using update_car_timers_ok [OF s2(1)] by simp
    then have "timers_ok s4" using prog_fields_timers_ok [OF s4(3)] by simp
    then show "timers_ok ?t" using handle_collisions_timers_ok [OF _ s5(1)] by simp
  qed
  moreover have "drawer ?t = drawer s"
  proof -
    have "drawer s2 = drawer ?s1" using update_car_timers_ok [OF s2(1)] by simp
    moreover have "drawer s4 = drawer s2" using s4(3) by (simp add: prog_fields_def)
    moreover have "drawer s5 = drawer s4" by (rule handle_collisions_drawer [OF s5(1)])
    ultimately show ?thesis
      by (simp add: clear_game_objects_eq update_score_def update_difficulty_def Let_def)
  qed
  ultimately show ?thesis using ct pt tt
    using update_score_nonneg [of s5] by (auto simp: session_inv_def inv_core_def)
qed

lemma tick_over:
  assumes "session_inv s" "over_ok s" "tick s = Inr t"
  shows "over_ok t"
proof -
  let ?s1 = "update_difficulty (s\<lparr>tick_index := Suc (tick_index s)\<rparr>)"
  obtain s2 s4 s5 where s2: "update_car ?s1 = Inr s2"
    and s4: "prog_fields s4 = prog_fields s2"
    and s5: "handle_collisions s4 = Inr s5"
    and tt: "tick s = Inr (clear_game_objects (update_score s5))"
    by (rule tick_phases [OF assms(1)])
  have "over_ok ?s1" using assms(2) by (simp add: over_ok_def update_difficulty_def Let_def)
  then have "over_ok s4" using update_car_over [OF s2] s4 by (simp add: over_ok_def prog_fields_def)
  then have "over_ok s5" by (rule handle_collisions_over [OF _ s5])
  moreover have "t = clear_game_objects (update_score s5)" using assms(3) tt by simp
  ultimately show ?thesis
    by (simp add: over_ok_def clear_game_objects_eq update_score_def Let_def)
qed

subsection \<open>Starting a game\<close>

lemma start_inv: "to_destroy s = [] \<Longrightarrow> session_inv (start m s)"
  by (simp add: session_inv_def start_def create_game_object_def add_event_listeners_def Let_def
      keys_ok_def object_keys_def car_ok_def car_list_ok_def car_obj_ok_def humans_ok_def
      human_in_lane_def progress_ok_def game_consts)

lemma start_inv_game_module: "session_inv (start m (game_module r avail st))"
  by (rule start_inv) (simp add: game_module_def)

subsection \<open>Properties of one tick\<close>

text \<open>
  C3. Levels: from a consistent session a tick succeeds, advances the tick counter by one,
  leaves the level equal to \<open>min (tick div 750) 9\<close>, raises it by at most one, and keeps
  the forward speed, strafe speed and obstacle interval at one increment per level.
\<close>

theorem tick_level_step:
  assumes "session_inv s"
  shows "\<exists>t. tick s = Inr t \<and> tick_index t = Suc (tick_index s) \<and>
             difficulty t = min (tick_index t div difficulty_update_interval) max_difficulty \<and>
             difficulty s \<le> difficulty t \<and> difficulty t \<le> Suc (difficulty s) \<and>
             speed t = initial_speed + speed_increment * real (difficulty t) \<and>
             obstacle_interval t = initial_obstacle_interval + obstacle_interval_decrement * int (difficulty t)"
proof -
  obtain t where t: "tick s = Inr t" "session_inv t" "tick_index t = Suc (tick_index s)"
    "difficulty t = difficulty (update_difficulty (s\<lparr>tick_index := Suc (tick_index s)\<rparr>))"
    using tick_inv [OF assms] by blast
  have "difficulty s \<le> difficulty t \<and> difficulty t \<le> Suc (difficulty s)"
    using update_difficulty_progress [of s] assms t(4) by (simp add: session_inv_def)
  with t show ?thesis by (auto simp: session_inv_def progress_ok_def)
qed

theorem tick_level_step_witness:
  "session_inv (start 0 (game_module (sconst (1 / 2)) True None)) \<and>
   (\<exists>t. tick (start 0 (game_module (sconst (1 / 2)) True None)) = Inr t \<and> tick_index t = 1 \<and>
        difficulty t = 0 \<and> speed t = initial_speed)"
proof -
  let ?s = "start 0 (game_module (sconst (1 / 2)) True None)"
  have s: "session_inv ?s" by (rule start_inv_game_module)
  have "tick_index ?s = 0" "difficulty ?s = 0"
    by (simp_all add: start_def create_game_object_def add_event_listeners_def Let_def)
  with tick_level_step [OF s] s show ?thesis by (auto simp: game_consts)
qed

text \<open>
  C4. Score bounds: after a tick from a consistent session the score is not negative, the
  maximum score has not decreased, and the maximum is at least the floored score.
\<close>

theorem tick_score_bounds:
  assumes "session_inv s"
  shows "\<exists>t. tick s = Inr t \<and> 0 \<le> score t \<and> max_score s \<le> max_score t \<and> \<lfloor>score t\<rfloor> \<le> max_score t"
  using tick_inv [OF assms] by (auto simp: session_inv_def)

theorem tick_score_bounds_witness:
  "session_inv (start 1 (game_module (sconst 0) False (Some 7))) \<and>
   (\<exists>t. tick (start 1 (game_module (sconst 0) False (Some 7))) = Inr t \<and> 0 \<le> score t \<and>
        0 \<le> max_score t \<and> \<lfloor>score t\<rfloor> \<le> max_score t)"
proof -
  let ?s = "start 1 (game_module (sconst 0) False (Some 7))"
  have s: "session_inv ?s" by (rule start_inv_game_module)
  have "max_score ?s = 0"
    by (simp add: start_def create_game_object_def add_event_listeners_def Let_def game_module_def)
  with tick_score_bounds [OF s] s show ?thesis by auto
qed

end
