(* ===== verification/Lifecycle.thy ===== *)
theory Lifecycle
  imports Tick
begin

text \<open>
  The life cycle of the page: the React component \<open>src/src/components/Game.js\<close> (with
  the start/restart button of \<open>GameControls.js\<close> and the canvas mount of
  \<open>GameRenderer.js\<close>) driving the game module of \<open>src/src/Game.js\<close>, and the two
  callbacks the browser schedules, the tick timer and the animation frame. The page is a
  record holding the game state and the component's state; each thing that can happen
  is a \<open>page_event\<close>, and \<open>page_step\<close> gives its effect: \<open>None\<close> when it cannot
  happen (the button shown decides between start and restart; the timer and the frame
  fire only while a timer is live), otherwise the result of the JavaScript that runs,
  which may throw. The snapshots passed to \<open>gameDataCallback\<close> during a step are
  delivered to \<open>gameCallback\<close> in order, before the handler's own \<open>setState\<close>.
  The reachable pages are the inductive closure of the mounted page under the steps.
  Key events go to the focused element; \<open>canvas_focused\<close> records whether that is the
  game's canvas, the only target \<open>onKeyDown\<close> and \<open>onKeyUp\<close> act on.
\<close>

record page =
  game :: game_state
  sel_mode :: int
  message :: string
  playing :: bool
  game_was_started :: bool
  view_data :: game_data
  canvas_focused :: bool

text \<open>\<open>gameData[name]\<close>; the snapshots of \<open>getGameData\<close> hold every name read here.\<close>

definition data_var :: "string \<Rightarrow> game_data \<Rightarrow> real" where
  "data_var name d = (case map_of d name of Some v \<Rightarrow> v | None \<Rightarrow> 0)"

definition game_callback :: "game_data \<Rightarrow> page \<Rightarrow> page" where
  "game_callback d p =
     (let p1 = p\<lparr>view_data := d\<rparr>
      in if data_var ''gameOver'' d \<noteq> 0 then
           (let sc = data_var ''score'' d;
                mx = data_var ''maxScore'' d;
                msg = ''You've earned '' @ num_str sc @ '' points!'' @
                      (if sc = mx then '' That's a new record!'' else [])
            in p1\<lparr>message := msg, playing := False\<rparr>)
         else p1)"

definition run_game :: "(game_state \<Rightarrow> game_state js) \<Rightarrow> page \<Rightarrow> page js" where
  "run_game f p =
     bind_js (f (game p)) (\<lambda>g.
       Inr (fold game_callback (drop (length (callbacks (game p))) (callbacks g)) (p\<lparr>game := g\<rparr>)))"

text \<open>
  \<open>draw()\<close> of \<open>Game.js\<close>: the Drawer draws the scene and the objects (theory
  \<open>Drawer\<close>), then the HUD is redrawn; the next frame is requested.
\<close>

definition draw_frame :: "game_state \<Rightarrow> game_state js" where
  "draw_frame s =
     bind_js (drawer_frame (get_game_data s) (game_objects s) (drawer s)) (\<lambda>(d, _).
       draw_ui (s\<lparr>drawer := d\<rparr>))"

text \<open>
  The component after mounting: its constructor registered the callback, and
  \<open>GameRenderer\<close>'s \<open>componentDidMount\<close> ran \<open>init\<close>, which returned the game state.
\<close>

definition page_init :: "game_state \<Rightarrow> page" where
  "page_init g =
     \<lparr>game = g, sel_mode = 0, message = [], playing = False, game_was_started = False, view_data = [],
      canvas_focused = False\<rparr>"

text \<open>
  \<open>handleClick\<close> of \<open>GameRenderer.js\<close>: a click on the HUD canvas focuses the game
  canvas beneath it.
\<close>

definition handle_canvas_click :: "page \<Rightarrow> page" where
  "handle_canvas_click p = p\<lparr>canvas_focused := True\<rparr>"

datatype page_event =
    Change_Mode int | Start_Click | Restart_Click | Timer_Fires | Frame_Fires
  | Key_Down int | Key_Up int | Canvas_Click | Focus_Elsewhere

text \<open>
  Choosing a mode focuses the \<open><select>\<close>; \<open>start\<close> ends with \<open>canvas.focus()\<close>;
  \<open>Focus_Elsewhere\<close> is the user focusing any other element of the page.
\<close>

fun page_step :: "page_event \<Rightarrow> page \<Rightarrow> page js option" where
  "page_step (Change_Mode m) p = Some (Inr (p\<lparr>sel_mode := m, canvas_focused := False\<rparr>))"
| "page_step Start_Click p =
     (if game_was_started p then None
      else Some (bind_js (run_game (\<lambda>g. Inr (start (sel_mode p) g)) (p\<lparr>game_was_started := True\<rparr>))
                   (\<lambda>p'. Inr (p'\<lparr>playing := True, canvas_focused := True\<rparr>))))"
| "page_step Restart_Click p =
     (if game_was_started p
      then Some (bind_js (run_game (restart (sel_mode p)) p)
                  (\<lambda>p'. Inr (p'\<lparr>playing := True, canvas_focused := True\<rparr>)))
      else None)"
| "page_step Timer_Fires p = (if 0 < active_timers (game p) then Some (run_game tick p) else None)"
| "page_step Frame_Fires p = (if 0 < active_timers (game p) then Some (run_game draw_frame p) else None)"
| "page_step (Key_Down c) p = Some (Inr (p\<lparr>game := on_key_down c (canvas_focused p) (game p)\<rparr>))"
| "page_step (Key_Up c) p = Some (Inr (p\<lparr>game := on_key_up c (canvas_focused p) (game p)\<rparr>))"
| "page_step Canvas_Click p = Some (Inr (handle_canvas_click p))"
| "page_step Focus_Elsewhere p = Some (Inr (p\<lparr>canvas_focused := False\<rparr>))"

inductive reachable :: "page \<Rightarrow> bool" where
  mounted: "init env w h (set_callback (game_module r avail st)) = Inr g \<Longrightarrow> reachable (page_init g)"
| step: "reachable p \<Longrightarrow> page_step e p = Some (Inr p') \<Longrightarrow> reachable p'"

text \<open>
  The renderer has its WebGL context, and its scroll offset stays within one line step
  while the speed it is fed is not negative.
\<close>

definition drawer_ok :: "game_state \<Rightarrow> bool" where
  "drawer_ok g \<longleftrightarrow>
     gl_viewport (drawer g) \<noteq> None \<and>
     0 \<le> speed g \<and> 0 < scene_position (drawer g) \<and> scene_position (drawer g) \<le> scene_line_step"

text \<open>
  The page invariant: no deletion mark is pending between callbacks, at most one tick
  timer is live and it is the tracked one, the renderer's offset is in range, a started
  game satisfies the session invariant, and before the first start there is no object
  and no timer.
\<close>

definition page_inv :: "page \<Rightarrow> bool" where
  "page_inv p \<longleftrightarrow>
     to_destroy (game p) = [] \<and> timers_ok (game p) \<and> drawer_ok (game p) \<and>
     (game_was_started p \<longrightarrow> session_inv (game p)) \<and>
     (\<not> game_was_started p \<longrightarrow> game_objects (game p) = [] \<and> \<not> tracked_timer (game p))"

text \<open>
  The session state machine of the specification (section 4.6): \<open>Idle\<close> before the
  first start, \<open>Running\<close>, and \<open>Game_Over\<close>. Ticks happen only while running and
  either keep it running or end the game; \<open>start\<close> leaves \<open>Idle\<close>; \<open>restart\<close> (stop,
  then start) enters \<open>Running\<close> from either later state; frames are drawn only while
  running; input and focus changes leave the phase alone. \<open>abs_phase\<close> reads the phase
  of a page and \<open>spec_event_of\<close> the abstract event of a page event.
\<close>

datatype session_phase = Idle | Running | Game_Over

datatype spec_event = Spec_Start | Spec_Restart | Spec_Tick | Spec_Frame | Spec_Input

inductive spec_step :: "spec_event \<Rightarrow> session_phase \<Rightarrow> session_phase \<Rightarrow> bool" where
  spec_start: "spec_step Spec_Start Idle Running"
| spec_restart: "a \<noteq> Idle \<Longrightarrow> spec_step Spec_Restart a Running"
| spec_tick: "spec_step Spec_Tick Running Running"
| spec_crash: "spec_step Spec_Tick Running Game_Over"
| spec_frame: "spec_step Spec_Frame Running Running"
| spec_input: "spec_step Spec_Input a a"

definition abs_phase :: "page \<Rightarrow> session_phase" where
  "abs_phase p =
     (if \<not> game_was_started p then Idle else if is_game_over (game p) then Game_Over else Running)"

fun spec_event_of :: "page_event \<Rightarrow> spec_event" where
  "spec_event_of Start_Click = Spec_Start"
| "spec_event_of Restart_Click = Spec_Restart"
| "spec_event_of Timer_Fires = Spec_Tick"
| "spec_event_of Frame_Fires = Spec_Frame"
| "spec_event_of _ = Spec_Input"

subsection \<open>The component's callback\<close>

lemma fold_game_callback_fields [simp]:
  "game (fold game_callback ds p) = game p"
  "game_was_started (fold game_callback ds p) = game_was_started p"
  by (induction ds arbitrary: p) (simp_all add: game_callback_def Let_def)

lemma run_game_Inr:
  "run_game f p = Inr p' \<longleftrightarrow>
     (\<exists>g. f (game p) = Inr g \<and>
          p' = fold game_callback (drop (length (callbacks (game p))) (callbacks g)) (p\<lparr>game := g\<rparr>))"
  by (auto simp: run_game_def bind_js_eq_Inr)

lemma run_game_Inr_fields:
  "run_game f p = Inr p' \<Longrightarrow> f (game p) = Inr (game p') \<and> game_was_started p' = game_was_started p"
  by (auto simp: run_game_Inr)

lemma run_game_total:
  "f (game p) = Inr g \<Longrightarrow>
   \<exists>p'. run_game f p = Inr p' \<and> game p' = g \<and> game_was_started p' = game_was_started p"
  by (simp add: run_game_def)

subsection \<open>Operations that only touch flags or the HUD\<close>

lemma invariants_hud [simp]:
  "session_inv (s\<lparr>hud := u\<rparr>) = session_inv s" "timers_ok (s\<lparr>hud := u\<rparr>) = timers_ok s"
  "session_inv (s\<lparr>drawer := d\<rparr>) = session_inv s" "timers_ok (s\<lparr>drawer := d\<rparr>) = timers_ok s"
  by (simp_all add: session_inv_def keys_ok_def object_keys_def car_ok_def humans_ok_def
      progress_ok_def timers_ok_def)

lemma invariants_keys [simp]:
  "session_inv (on_key_down c b s) = session_inv s" "timers_ok (on_key_down c b s) = timers_ok s"
  "session_inv (on_key_up c b s) = session_inv s" "timers_ok (on_key_up c b s) = timers_ok s"
  "game_objects (on_key_down c b s) = game_objects s" "game_objects (on_key_up c b s) = game_objects s"
  "to_destroy (on_key_down c b s) = to_destroy s" "to_destroy (on_key_up c b s) = to_destroy s"
  "tracked_timer (on_key_down c b s) = tracked_timer s" "tracked_timer (on_key_up c b s) = tracked_timer s"
  by (simp_all add: on_key_down_def on_key_up_def session_inv_def keys_ok_def object_keys_def
      car_ok_def humans_ok_def progress_ok_def timers_ok_def)

lemma draw_frame_Inr:
  "gl_viewport (drawer s) \<noteq> None \<Longrightarrow>
   \<exists>d segs u. drawer_frame (get_game_data s) (game_objects s) (drawer s) = Inr (d, segs) \<and>
     draw_frame s = Inr (s\<lparr>drawer := d, hud := u\<rparr>)"
proof -
  assume v: "gl_viewport (drawer s) \<noteq> None"
  obtain d segs where d: "drawer_frame (get_game_data s) (game_objects s) (drawer s) = Inr (d, segs)"
    using drawer_frame_Inr [of "get_game_data s" "drawer s" "game_objects s"] v by (auto simp: get_game_data_def)
  obtain u where "draw_ui (s\<lparr>drawer := d\<rparr>) = Inr ((s\<lparr>drawer := d\<rparr>)\<lparr>hud := u\<rparr>)" using draw_ui_Inr by blast
  with d show ?thesis by (auto simp: draw_frame_def)
qed

subsection \<open>Start and restart\<close>

lemma start_timers:
  "timers_ok g \<Longrightarrow> \<not> tracked_timer g \<Longrightarrow>
   timers_ok (start m g) \<and> to_destroy (start m g) = to_destroy g \<and> tracked_timer (start m g)"
  by (simp add: timers_ok_def start_def create_game_object_def add_event_listeners_def Let_def)

lemma restart_inv:
  assumes "timers_ok g" "to_destroy g = []"
  shows "\<exists>g'. restart m g = Inr g' \<and> session_inv g' \<and> timers_ok g' \<and> to_destroy g' = [] \<and>
              tracked_timer g'"
proof -
  obtain g1 where g1: "stop g = Inr g1" "stop_frame g g1" using stop_Inr by blast
  have "timers_ok g1" "\<not> tracked_timer g1" "to_destroy g1 = []"
    using stop_timers_ok [OF assms(1) g1(1)] stop_timers [OF g1(1)] g1(2) assms(2)
    by (simp_all add: stop_frame_def)
  with start_timers [of g1 m] start_inv [of g1 m] g1(1) show ?thesis
    by (simp add: restart_def)
qed

subsection \<open>The renderer's offset\<close>

lemma drawer_ok_keys [simp]:
  "drawer_ok (on_key_down c b g) = drawer_ok g" "drawer_ok (on_key_up c b g) = drawer_ok g"
  by (simp_all add: drawer_ok_def on_key_down_def on_key_up_def)

lemma drawer_ok_start: "drawer_ok g \<Longrightarrow> drawer_ok (start m g)"
  by (simp add: drawer_ok_def start_def create_game_object_def add_event_listeners_def Let_def game_consts)

lemma drawer_ok_restart: "drawer_ok g \<Longrightarrow> restart m g = Inr g' \<Longrightarrow> drawer_ok g'"
  by (auto simp: restart_def bind_js_eq_Inr drawer_ok_def start_def create_game_object_def
      add_event_listeners_def Let_def game_consts dest: stop_drawer)

lemma drawer_ok_tick:
  "session_inv s \<Longrightarrow> drawer_ok s \<Longrightarrow> \<exists>t. tick s = Inr t \<and> session_inv t \<and> drawer_ok t \<and>
     (timers_ok s \<longrightarrow> timers_ok t)"
proof -
  assume si: "session_inv s" and d: "drawer_ok s"
  obtain t where t: "tick s = Inr t" "session_inv t" "timers_ok s \<longrightarrow> timers_ok t" "drawer t = drawer s"
    using tick_inv [OF si] by blast
  have "0 \<le> speed t" using t(2) by (simp add: session_inv_def progress_ok_def game_consts)
  with t d show ?thesis by (auto simp: drawer_ok_def)
qed

lemma drawer_ok_frame: "drawer_ok g \<Longrightarrow> draw_frame g = Inr g' \<Longrightarrow> drawer_ok g'"
proof -
  assume d: "drawer_ok g" and f: "draw_frame g = Inr g'"
  obtain dr segs u where dr: "drawer_frame (get_game_data g) (game_objects g) (drawer g) = Inr (dr, segs)"
    and g': "draw_frame g = Inr (g\<lparr>drawer := dr, hud := u\<rparr>)"
    using draw_frame_Inr d unfolding drawer_ok_def by blast
  have "0 < scene_position dr \<and> scene_position dr \<le> scene_line_step"
    using drawer_frame_position [of "drawer g" "get_game_data g" "speed g" "game_objects g" dr segs] d dr
    by (simp add: drawer_ok_def get_game_data_def)
  with d f g' drawer_frame_viewport [OF dr] show ?thesis by (auto simp: drawer_ok_def)
qed

subsection \<open>One step keeps the page invariant and does not throw\<close>

lemma page_inv_view_fields [simp]:
  "page_inv (p\<lparr>playing := b\<rparr>) = page_inv p" "page_inv (p\<lparr>canvas_focused := c\<rparr>) = page_inv p"
  by (simp_all add: page_inv_def)

lemma page_inv_step:
  assumes inv: "page_inv p" and st: "page_step e p = Some r"
  shows "\<exists>p'. r = Inr p' \<and> page_inv p'"
proof (cases e)
  case (Change_Mode m)
  with inv st show ?thesis by (auto simp: page_inv_def)
next
  case Start_Click
  let ?p = "p\<lparr>game_was_started := True\<rparr>"
  from st Start_Click have ns: "\<not> game_was_started p" by (simp split: if_splits)
  with inv have g: "timers_ok (game p)" "\<not> tracked_timer (game p)" "to_destroy (game p) = []"
    "drawer_ok (game p)" by (simp_all add: page_inv_def)
  obtain p' where p': "run_game (\<lambda>g. Inr (start (sel_mode p) g)) ?p = Inr p'"
    "game p' = start (sel_mode p) (game p)" "game_was_started p'"
    using run_game_total [of "\<lambda>g. Inr (start (sel_mode p) g)" ?p] by auto
  have "page_inv (p'\<lparr>playing := True\<rparr>)"
    using start_timers [OF g(1,2)] start_inv [OF g(3)] drawer_ok_start [OF g(4)] g(3) p'(2,3)
    by (simp add: page_inv_def)
  with st Start_Click ns p'(1) show ?thesis by auto
next
  case Restart_Click
  from st Restart_Click have sd: "game_was_started p" by (simp split: if_splits)
  with inv have g: "timers_ok (game p)" "to_destroy (game p) = []" "drawer_ok (game p)"
    by (simp_all add: page_inv_def)
  obtain g' where g': "restart (sel_mode p) (game p) = Inr g'" "session_inv g'" "timers_ok g'"
    "to_destroy g' = []" using restart_inv [OF g(1,2)] by blast
  have "drawer_ok g'" by (rule drawer_ok_restart [OF g(3) g'(1)])
  obtain p' where p': "run_game (restart (sel_mode p)) p = Inr p'" "game p' = g'"
    "game_was_started p'" using run_game_total [of "restart (sel_mode p)" p, OF g'(1)] sd by auto
  have "page_inv (p'\<lparr>playing := True\<rparr>)" using g' \<open>drawer_ok g'\<close> p'(2,3) by (simp add: page_inv_def)
  with st Restart_Click sd p'(1) show ?thesis by auto
next
  case Timer_Fires
  from st Timer_Fires have a: "0 < active_timers (game p)" by (simp split: if_splits)
  with inv have sd: "game_was_started p" by (auto simp: page_inv_def timers_ok_def)
  with inv have si: "session_inv (game p)" "timers_ok (game p)" "drawer_ok (game p)"
    by (simp_all add: page_inv_def)
  obtain t where t: "tick (game p) = Inr t" "session_inv t" "timers_ok t" "drawer_ok t"
    using drawer_ok_tick [OF si(1,3)] si(2) by blast
  obtain p' where p': "run_game tick p = Inr p'" "game p' = t" "game_was_started p'"
    using run_game_total [of tick p, OF t(1)] sd by auto
  have "page_inv p'" using t p'(2,3) by (simp add: page_inv_def session_inv_def)
  with st Timer_Fires a p'(1) show ?thesis by auto
next
  case Frame_Fires
  from st Frame_Fires have a: "0 < active_timers (game p)" by (simp split: if_splits)
  have v: "gl_viewport (drawer (game p)) \<noteq> None" using inv by (simp add: page_inv_def drawer_ok_def)
  obtain d segs u where u: "draw_frame (game p) = Inr ((game p)\<lparr>drawer := d, hud := u\<rparr>)"
    using draw_frame_Inr [OF v] by blast
  obtain p' where p': "run_game draw_frame p = Inr p'" "game p' = (game p)\<lparr>drawer := d, hud := u\<rparr>"
    "game_was_started p' = game_was_started p" using run_game_total [of draw_frame p, OF u] by auto
  have "drawer_ok (game p')" using drawer_ok_frame [of "game p"] inv u p'(2) by (simp add: page_inv_def)
  then have "page_inv p'" using inv p'(2,3) by (simp add: page_inv_def)
  with st Frame_Fires a p'(1) show ?thesis by auto
next
  case (Key_Down c)
  with inv st show ?thesis by (auto simp: page_inv_def)
next
  case (Key_Up c)
  with inv st show ?thesis by (auto simp: page_inv_def)
next
  case Canvas_Click
  with inv st show ?thesis by (auto simp: page_inv_def handle_canvas_click_def)
next
  case Focus_Elsewhere
  with inv st show ?thesis by (auto simp: page_inv_def)
qed

lemma page_init_inv:
  assumes "init env w h (set_callback (game_module r avail st)) = Inr g"
  shows "page_inv (page_init g)"
proof -
  obtain d where d: "drawer_init env drawer_empty = Inr d"
    and g: "g = load_max_score ((set_callback (game_module r avail st))\<lparr>drawer := d,
              hud := ui_init w h hud_empty\<rparr>)"
    using assms by (auto simp: init_def bind_js_eq_Inr set_callback_def game_module_def)
  have "gl_viewport d \<noteq> None" "scene_position d = scene_line_step"
    using drawer_init_fields [OF d] by (simp_all add: drawer_empty_def)
  then show ?thesis
    by (simp add: g page_inv_def page_init_def load_max_score_def set_callback_def
        game_module_def timers_ok_def drawer_ok_def scene_line_step_def)
qed

lemma reachable_page_inv: "reachable p \<Longrightarrow> page_inv p"
proof (induction rule: reachable.induct)
  case (mounted env w h r avail st g)
  then show ?case by (rule page_init_inv)
next
  case (step p e p')
  then show ?case using page_inv_step by blast
qed

subsection \<open>Properties of the page\<close>

text \<open>
  C1. Every page reachable from the mounted component by clicks, key presses, timer ticks
  and animation frames keeps the page invariant (at most one live tick timer, the session
  invariant once a game was started, no pending deletion marks, the renderer's scroll
  offset within one line step), and no event that can happen on it throws.
\<close>

theorem reachable_pages_safe:
  assumes "reachable p"
  shows "page_inv p \<and> (\<forall>e r. page_step e p = Some r \<longrightarrow> (\<exists>p'. r = Inr p'))"
  using reachable_page_inv [OF assms] page_inv_step by blast

theorem reachable_pages_safe_witness:
  "\<exists>g. init sample_gl_env 640 480 (set_callback (game_module (sconst (1 / 2)) True None)) = Inr g \<and>
     reachable (page_init g) \<and> page_inv (page_init g) \<and>
     (\<exists>p'. page_step Start_Click (page_init g) = Some (Inr p'))"
proof -
  obtain g where i: "init sample_gl_env 640 480 (set_callback (game_module (sconst (1 / 2)) True None)) = Inr g"
    using init_ok [OF sample_gl_env_ok] by blast
  have r: "reachable (page_init g)" by (rule reachable.mounted [OF i])
  have "\<exists>r. page_step Start_Click (page_init g) = Some r"
    by (simp add: page_init_def)
  with reachable_pages_safe [OF r] r i show ?thesis by blast
qed

text \<open>
  C8. Calling \<open>start\<close> twice without \<open>stop\<close> is not rejected: the second call
  installs a second tick timer and overwrites the handle of the first, so a later
  \<open>stop\<close> clears only one of them and a timer keeps firing \<open>tick\<close> on the stopped
  game.
\<close>

theorem start_twice_leaks_timer:
  "\<exists>t. stop (start m' (start m s)) = Inr t \<and> active_timers t = Suc (active_timers s) \<and>
        \<not> tracked_timer t \<and> \<not> key_listeners t \<and> is_game_over t"
proof -
  obtain t where t: "stop (start m' (start m s)) = Inr t" "stop_frame (start m' (start m s)) t"
    using stop_Inr by blast
  have "active_timers (start m' (start m s)) = Suc (Suc (active_timers s))"
    "tracked_timer (start m' (start m s))"
    by (simp_all add: start_def create_game_object_def add_event_listeners_def Let_def)
  with stop_timers [OF t(1)] t show ?thesis by (simp add: stop_frame_def)
qed

text \<open>
  C33. A released arrow key can be lost. The key listeners sit on \<open>document\<close> but act
  only on events whose target is the canvas. If the focus leaves the canvas while the
  left arrow is held (the player picks a mode, or clicks elsewhere), the key-up event goes
  to another element and is ignored. The car then keeps steering left with no key
  pressed, until the canvas is focused again and the key pressed and released there.
\<close>

theorem key_release_lost:
  assumes "reachable p" "canvas_focused p" "key_listeners (game p)"
  shows "\<exists>p1 p2 p3. page_step (Key_Down turn_left_key) p = Some (Inr p1) \<and>
           page_step Focus_Elsewhere p1 = Some (Inr p2) \<and>
           page_step (Key_Up turn_left_key) p2 = Some (Inr p3) \<and>
           reachable p3 \<and> key_listeners (game p3) \<and> left_key_pressed (game p3)"
proof -
  define p1 where "p1 = p\<lparr>game := on_key_down turn_left_key True (game p)\<rparr>"
  define p2 where "p2 = p1\<lparr>canvas_focused := False\<rparr>"
  define p3 where "p3 = p2\<lparr>game := on_key_up turn_left_key False (game p2)\<rparr>"
  have s1: "page_step (Key_Down turn_left_key) p = Some (Inr p1)" using assms(2) by (simp add: p1_def)
  have s2: "page_step Focus_Elsewhere p1 = Some (Inr p2)" by (simp add: p2_def)
  have s3: "page_step (Key_Up turn_left_key) p2 = Some (Inr p3)" by (simp add: p2_def p3_def)
  have "reachable p3" using reachable.step [OF reachable.step [OF reachable.step [OF assms(1) s1] s2] s3] .
  moreover have "key_listeners (game p3) \<and> left_key_pressed (game p3)"
    using assms(3) by (simp add: p1_def p2_def p3_def on_key_down_def on_key_up_def)
  ultimately show ?thesis using s1 s2 s3 by blast
qed

theorem key_release_lost_witness:
  "\<exists>g p p1 p2 p3. init sample_gl_env 640 480 (set_callback (game_module (sconst (1 / 2)) True None)) = Inr g \<and>
     page_step Start_Click (page_init g) = Some (Inr p) \<and>
     reachable p \<and> canvas_focused p \<and> key_listeners (game p) \<and>
     page_step (Key_Down turn_left_key) p = Some (Inr p1) \<and> page_step Focus_Elsewhere p1 = Some (Inr p2) \<and>
     page_step (Key_Up turn_left_key) p2 = Some (Inr p3) \<and> left_key_pressed (game p3)"
proof -
  obtain g where i: "init sample_gl_env 640 480 (set_callback (game_module (sconst (1 / 2)) True None)) = Inr g"
    using init_ok [OF sample_gl_env_ok] by blast
  have r0: "reachable (page_init g)" by (rule reachable.mounted [OF i])
  obtain p0 where p0: "run_game (\<lambda>g. Inr (start 0 g)) ((page_init g)\<lparr>game_was_started := True\<rparr>) = Inr p0"
    "game p0 = start 0 g"
    using run_game_total [of "\<lambda>g. Inr (start 0 g)" "(page_init g)\<lparr>game_was_started := True\<rparr>"]
    by (auto simp: page_init_def)
  define p where "p = p0\<lparr>playing := True, canvas_focused := True\<rparr>"
  have st: "page_step Start_Click (page_init g) = Some (Inr p)" using p0(1) by (simp add: p_def page_init_def)
  have r: "reachable p" by (rule reachable.step [OF r0 st])
  have f: "canvas_focused p" "key_listeners (game p)"
    using p0(2) by (simp_all add: p_def start_def add_event_listeners_def create_game_object_def Let_def)
  obtain p1 p2 p3 where k: "page_step (Key_Down turn_left_key) p = Some (Inr p1)"
    "page_step Focus_Elsewhere p1 = Some (Inr p2)" "page_step (Key_Up turn_left_key) p2 = Some (Inr p3)"
    "left_key_pressed (game p3)"
    using key_release_lost [OF r f] by blast
  show ?thesis using i st r f k by blast
qed

subsection \<open>Refinement of the session state machine\<close>

lemma page_inv_no_timer:
  "page_inv p \<Longrightarrow> \<not> tracked_timer (game p) \<Longrightarrow> active_timers (game p) = 0"
  by (simp add: page_inv_def timers_ok_def)

lemma keys_over [simp]:
  "is_game_over (on_key_down c b g) = is_game_over g" "is_game_over (on_key_up c b g) = is_game_over g"
  "tracked_timer (on_key_down c b g) = tracked_timer g" "tracked_timer (on_key_up c b g) = tracked_timer g"
  by (simp_all add: on_key_down_def on_key_up_def)

lemma start_over [simp]: "\<not> is_game_over (start m g)"
  by (simp add: start_def create_game_object_def add_event_listeners_def Let_def)

lemma restart_over: "restart m g = Inr g' \<Longrightarrow> \<not> is_game_over g'"
  by (auto simp: restart_def bind_js_eq_Inr)

lemma draw_frame_result:
  assumes "page_inv p" "draw_frame (game p) = Inr g'"
  shows "is_game_over g' = is_game_over (game p) \<and> tracked_timer g' = tracked_timer (game p)"
proof -
  have "gl_viewport (drawer (game p)) \<noteq> None" using assms(1) by (simp add: page_inv_def drawer_ok_def)
  then obtain d segs u where "draw_frame (game p) = Inr ((game p)\<lparr>drawer := d, hud := u\<rparr>)"
    using draw_frame_Inr by blast
  with assms(2) have "g' = (game p)\<lparr>drawer := d, hud := u\<rparr>" by simp
  then show ?thesis by simp
qed

lemma over_ok_step:
  assumes inv: "page_inv p" and ov: "over_ok (game p)" and st: "page_step e p = Some (Inr p')"
  shows "over_ok (game p')"
proof (cases e)
  case Start_Click
  with st obtain q where "run_game (\<lambda>g. Inr (start (sel_mode p) g)) (p\<lparr>game_was_started := True\<rparr>) = Inr q"
    "p' = q\<lparr>playing := True, canvas_focused := True\<rparr>"
    by (auto simp: bind_js_eq_Inr split: if_splits)
  moreover from run_game_Inr_fields [OF this(1)] have "game q = start (sel_mode p) (game p)" by simp
  ultimately show ?thesis by (simp add: over_ok_def)
next
  case Restart_Click
  with st obtain q where "run_game (restart (sel_mode p)) p = Inr q"
    "p' = q\<lparr>playing := True, canvas_focused := True\<rparr>"
    by (auto simp: bind_js_eq_Inr split: if_splits)
  then show ?thesis by (auto simp: over_ok_def dest!: run_game_Inr_fields restart_over)
next
  case Timer_Fires
  with st have a: "0 < active_timers (game p)" and r: "run_game tick p = Inr p'" by (simp_all split: if_splits)
  have "game_was_started p" using inv a by (auto simp: page_inv_def timers_ok_def)
  then have "session_inv (game p)" using inv by (simp add: page_inv_def)
  with ov run_game_Inr_fields [OF r] show ?thesis by (blast intro: tick_over)
next
  case Frame_Fires
  with st have "run_game draw_frame p = Inr p'" by (simp split: if_splits)
  with draw_frame_result [OF inv] ov show ?thesis by (auto simp: over_ok_def dest!: run_game_Inr_fields)
qed (use st ov in \<open>auto simp: over_ok_def handle_canvas_click_def\<close>)

lemma reachable_over: "reachable p \<Longrightarrow> over_ok (game p)"
proof (induction rule: reachable.induct)
  case (mounted env w h r avail st g)
  then show ?case
    by (auto simp: page_init_def init_def bind_js_eq_Inr load_max_score_def set_callback_def
        game_module_def over_ok_def)
next
  case (step p e p')
  then show ?case using over_ok_step reachable_page_inv by blast
qed

text \<open>
  C34. The page refines the specification's session state machine: every step a reachable
  page can take is a transition of \<open>spec_step\<close> for its abstract event between the
  abstract phases before and after. In particular no tick runs before the first start or
  after the game is over, and no frame is drawn then.
\<close>

theorem page_refines_session_spec:
  assumes "reachable p" "page_step e p = Some (Inr p')"
  shows "spec_step (spec_event_of e) (abs_phase p) (abs_phase p')"
proof -
  have inv: "page_inv p" and ov: "over_ok (game p)"
    using reachable_page_inv [OF assms(1)] reachable_over [OF assms(1)] by simp_all
  note st = assms(2)
  have stopped: "active_timers (game p) = 0" if "abs_phase p \<noteq> Running"
  proof -
    have "\<not> tracked_timer (game p)"
      using that inv ov by (auto simp: abs_phase_def page_inv_def over_ok_def split: if_splits)
    then show ?thesis by (rule page_inv_no_timer [OF inv])
  qed
  show ?thesis
  proof (cases e)
    case Start_Click
    with st obtain q where q: "run_game (\<lambda>g. Inr (start (sel_mode p) g)) (p\<lparr>game_was_started := True\<rparr>) = Inr q"
      "p' = q\<lparr>playing := True, canvas_focused := True\<rparr>" "\<not> game_was_started p"
      by (auto simp: bind_js_eq_Inr split: if_splits)
    moreover from run_game_Inr_fields [OF q(1)]
    have "game q = start (sel_mode p) (game p)" "game_was_started q" by simp_all
    ultimately show ?thesis using Start_Click by (simp add: abs_phase_def spec_start)
  next
    case Restart_Click
    with st obtain q where q: "run_game (restart (sel_mode p)) p = Inr q"
      "p' = q\<lparr>playing := True, canvas_focused := True\<rparr>" "game_was_started p"
      by (auto simp: bind_js_eq_Inr split: if_splits)
    then show ?thesis using Restart_Click
      by (auto simp: abs_phase_def intro: spec_step.intros dest!: run_game_Inr_fields restart_over)
  next
    case Timer_Fires
    with st have a: "0 < active_timers (game p)" and r: "run_game tick p = Inr p'" by (simp_all split: if_splits)
    have "abs_phase p = Running" using stopped a by auto
    moreover have "game_was_started p' = game_was_started p" using run_game_Inr_fields [OF r] by simp
    ultimately show ?thesis using Timer_Fires
      by (cases "is_game_over (game p')") (auto simp: abs_phase_def intro: spec_step.intros split: if_splits)
  next
    case Frame_Fires
    with st have a: "0 < active_timers (game p)" and r: "run_game draw_frame p = Inr p'" by (simp_all split: if_splits)
    have "abs_phase p = Running" using stopped a by auto
    moreover have "abs_phase p' = abs_phase p"
      using run_game_Inr_fields [OF r] draw_frame_result [OF inv] by (simp add: abs_phase_def)
    ultimately show ?thesis using Frame_Fires by (simp add: spec_frame)
  qed (use st in \<open>auto simp: abs_phase_def handle_canvas_click_def intro: spec_input\<close>)
qed

theorem page_refines_session_spec_witness:
  "\<exists>g p. init sample_gl_env 640 480 (set_callback (game_module (sconst (1 / 2)) True None)) = Inr g \<and>
     page_step Start_Click (page_init g) = Some (Inr p) \<and> reachable (page_init g) \<and>
     spec_step Spec_Start (abs_phase (page_init g)) (abs_phase p) \<and> abs_phase p = Running"
proof -
  obtain g where i: "init sample_gl_env 640 480 (set_callback (game_module (sconst (1 / 2)) True None)) = Inr g"
    using init_ok [OF sample_gl_env_ok] by blast
  have r0: "reachable (page_init g)" by (rule reachable.mounted [OF i])
  obtain p0 where p0: "run_game (\<lambda>g. Inr (start 0 g)) ((page_init g)\<lparr>game_was_started := True\<rparr>) = Inr p0"
    "game p0 = start 0 g" "game_was_started p0"
    using run_game_total [of "\<lambda>g. Inr (start 0 g)" "(page_init g)\<lparr>game_was_started := True\<rparr>"]
    by (auto simp: page_init_def)
  define p where "p = p0\<lparr>playing := True, canvas_focused := True\<rparr>"
  have st: "page_step Start_Click (page_init g) = Some (Inr p)" using p0(1) by (simp add: p_def page_init_def)
  have "spec_step (spec_event_of Start_Click) (abs_phase (page_init g)) (abs_phase p)"
    by (rule page_refines_session_spec [OF r0 st])
  moreover have "abs_phase p = Running" using p0(2,3) by (simp add: p_def abs_phase_def)
  ultimately show ?thesis using i st r0 by auto
qed

end
