(* ===== verification/Chat.thy ===== *)
theory Chat
  imports Prelude
begin

text \<open>
  The chat widget: \<open>src/src/containers/ChatContainer.js\<close> with the forms of
  \<open>src/src/components/ChatMessageForm.js\<close> and \<open>ChatUsernameForm.js\<close> and the view
  choice of \<open>Chat.js\<close>. The container's state (\<open>messages\<close>, \<open>username\<close>,
  \<open>connected\<close>) is a record, together with every WebSocket the container has created
  (their \<open>readyState\<close> in creation order; \<open>ws\<close> is the index of the one \<open>this.ws\<close>
  holds) and the frames sent. Every socket keeps the handlers it was given, so an event of
  an old socket still updates the component. The environment (the server and the network)
  opens, delivers to and closes sockets; the user submits the forms and clicks
  \<open>Reconnect\<close>. The reachable states start from the mounted container
  (\<open>componentDidMount\<close> has created the first socket); unmounting
  (\<open>componentWillUnmount\<close>) ends the component and is the operation
  \<open>chat_unmount\<close> on a reachable state, not a step. \<open>JSON.parse\<close>/\<open>JSON.stringify\<close> are the identity on messages.
  \<open>String.prototype.trim\<close> is modelled for the ASCII white space characters.
\<close>

datatype ready_state = Connecting | Open | Closing | Closed

record chat_message =
  musername :: string
  mtext :: string

record chat_state =
  messages :: "chat_message list"
  username :: string
  connected :: bool
  sockets :: "ready_state list"
  ws :: "nat option"
  sent :: "(nat \<times> chat_message) list"
  message_value :: string
  username_value :: string

definition chat_initial :: chat_state where
  "chat_initial = \<lparr>messages = [], username = [], connected = False, sockets = [], ws = None, sent = [],
                   message_value = [], username_value = []\<rparr>"

definition is_ws_char :: "char \<Rightarrow> bool" where
  "is_ws_char c \<longleftrightarrow> c \<in> {CHR '' '', CHR 0x09, CHR 0x0A, CHR 0x0B, CHR 0x0C, CHR 0x0D}"

definition js_trim :: "string \<Rightarrow> string" where
  "js_trim s = rev (dropWhile is_ws_char (rev (dropWhile is_ws_char s)))"

text \<open>\<open>initWebsocket\<close>: a new socket unless the current one is open.\<close>

definition init_websocket :: "chat_state \<Rightarrow> chat_state" where
  "init_websocket s =
     (case ws s of
        Some i \<Rightarrow> if sockets s ! i = Open then s
                  else s\<lparr>sockets := sockets s @ [Connecting], ws := Some (length (sockets s))\<rparr>
      | None \<Rightarrow> s\<lparr>sockets := sockets s @ [Connecting], ws := Some (length (sockets s))\<rparr>)"

definition on_ws_open :: "chat_state \<Rightarrow> chat_state" where
  "on_ws_open s = s\<lparr>messages := [], connected := True\<rparr>"

definition on_ws_message :: "chat_message \<Rightarrow> chat_state \<Rightarrow> chat_state" where
  "on_ws_message m s = s\<lparr>messages := [m] @ messages s\<rparr>"

definition on_ws_close :: "chat_state \<Rightarrow> chat_state" where
  "on_ws_close s = s\<lparr>connected := False\<rparr>"

definition chat_send :: "string \<Rightarrow> chat_state \<Rightarrow> chat_state" where
  "chat_send txt s =
     (let message = \<lparr>musername = username s, mtext = txt\<rparr>
      in case ws s of
           Some i \<Rightarrow> if sockets s ! i = Open then s\<lparr>sent := sent s @ [(i, message)]\<rparr> else s
         | None \<Rightarrow> s)"

definition set_username :: "string \<Rightarrow> chat_state \<Rightarrow> chat_state" where
  "set_username u s = s\<lparr>username := u\<rparr>"

definition message_form_submit :: "chat_state \<Rightarrow> chat_state" where
  "message_form_submit s =
     (let message = js_trim (message_value s)
      in if message \<noteq> [] then (chat_send message s)\<lparr>message_value := []\<rparr> else s)"

definition username_form_submit :: "chat_state \<Rightarrow> chat_state" where
  "username_form_submit s =
     (let u = js_trim (username_value s) in if u \<noteq> [] then set_username u s else s)"

definition message_form_change :: "string \<Rightarrow> chat_state \<Rightarrow> chat_state" where
  "message_form_change v s = s\<lparr>message_value := v\<rparr>"

definition username_form_change :: "string \<Rightarrow> chat_state \<Rightarrow> chat_state" where
  "username_form_change v s = s\<lparr>username_value := v\<rparr>"

text \<open>
  \<open>componentWillUnmount\<close>: \<open>this.ws.close()\<close>. Closing a connecting or open socket
  starts its closing handshake; closing one that is closing or closed does nothing.
\<close>

definition chat_unmount :: "chat_state \<Rightarrow> chat_state js" where
  "chat_unmount s =
     (case ws s of
        None \<Rightarrow> Inl Type_Error
      | Some i \<Rightarrow> Inr (if sockets s ! i \<in> {Connecting, Open} then s\<lparr>sockets := (sockets s)[i := Closing]\<rparr> else s))"

datatype chat_view = Disconnected_View | Username_Form_View | Message_Form_View

definition chat_view :: "chat_state \<Rightarrow> chat_view" where
  "chat_view s =
     (if \<not> connected s then Disconnected_View
      else if username s \<noteq> [] then Message_Form_View else Username_Form_View)"

datatype chat_event =
    Reconnect_Click
  | Socket_Opens nat | Socket_Delivers nat chat_message | Socket_Closes nat
  | Type_Message string | Submit_Message | Type_Username string | Submit_Username

text \<open>
  What can happen: the buttons and forms only while \<open>Chat.js\<close> shows them, and a socket
  event only in the states where a WebSocket fires it (\<open>open\<close> from \<open>CONNECTING\<close>,
  \<open>message\<close> while \<open>OPEN\<close>, \<open>close\<close> from any state but \<open>CLOSED\<close>).
\<close>

fun chat_event_step :: "chat_event \<Rightarrow> chat_state \<Rightarrow> chat_state option" where
  "chat_event_step Reconnect_Click s =
     (if chat_view s = Disconnected_View then Some (init_websocket s) else None)"
| "chat_event_step (Socket_Opens i) s =
     (if i < length (sockets s) \<and> sockets s ! i = Connecting
      then Some (on_ws_open (s\<lparr>sockets := (sockets s)[i := Open]\<rparr>)) else None)"
| "chat_event_step (Socket_Delivers i m) s =
     (if i < length (sockets s) \<and> sockets s ! i = Open then Some (on_ws_message m s) else None)"
| "chat_event_step (Socket_Closes i) s =
     (if i < length (sockets s) \<and> sockets s ! i \<noteq> Closed
      then Some (on_ws_close (s\<lparr>sockets := (sockets s)[i := Closed]\<rparr>)) else None)"
| "chat_event_step (Type_Message v) s =
     (if chat_view s = Message_Form_View then Some (message_form_change v s) else None)"
| "chat_event_step Submit_Message s =
     (if chat_view s = Message_Form_View then Some (message_form_submit s) else None)"
| "chat_event_step (Type_Username v) s =
     (if chat_view s = Username_Form_View then Some (username_form_change v s) else None)"
| "chat_event_step Submit_Username s =
     (if chat_view s = Username_Form_View then Some (username_form_submit s) else None)"

text \<open>
  A form's input lives in the form component, which React mounts afresh (with an empty
  \<open>value\<close>) whenever \<open>Chat.js\<close> switches to it.
\<close>

definition settle_forms :: "chat_state \<Rightarrow> chat_state \<Rightarrow> chat_state" where
  "settle_forms s s' =
     s'\<lparr>message_value := (if chat_view s = Message_Form_View \<and> chat_view s' = Message_Form_View
                         then message_value s' else []),
        username_value := (if chat_view s = Username_Form_View \<and> chat_view s' = Username_Form_View
                          then username_value s' else [])\<rparr>"

definition chat_step :: "chat_event \<Rightarrow> chat_state \<Rightarrow> chat_state option" where
  "chat_step e s = map_option (settle_forms s) (chat_event_step e s)"

fun chat_run :: "chat_event list \<Rightarrow> chat_state \<Rightarrow> chat_state option" where
  "chat_run [] s = Some s"
| "chat_run (e # es) s = (case chat_step e s of None \<Rightarrow> None | Some s' \<Rightarrow> chat_run es s')"

inductive chat_reachable :: "chat_state \<Rightarrow> bool" where
  chat_mounted: "chat_reachable (init_websocket chat_initial)"
| chat_next: "chat_reachable s \<Longrightarrow> chat_step e s = Some s' \<Longrightarrow> chat_reachable s'"

text \<open>
  The socket invariant: the container always holds a socket (\<open>this.ws\<close> is one of the
  sockets it created), and while it shows itself connected some socket is open.
\<close>

definition chat_ok :: "chat_state \<Rightarrow> bool" where
  "chat_ok s \<longleftrightarrow> (\<exists>i. ws s = Some i \<and> i < length (sockets s)) \<and> (connected s \<longrightarrow> Open \<in> set (sockets s))"

subsection \<open>Trimming\<close>

lemma dropWhile_hd_not: "dropWhile P xs \<noteq> [] \<Longrightarrow> \<not> P (hd (dropWhile P xs))"
  by (induction xs) auto

lemma dropWhile_idem_hd: "xs \<noteq> [] \<Longrightarrow> \<not> P (hd xs) \<Longrightarrow> dropWhile P xs = xs"
  by (cases xs) auto

lemma last_dropWhile: "dropWhile P xs \<noteq> [] \<Longrightarrow> last (dropWhile P xs) = last xs"
  by (induction xs) auto

text \<open>
  \<open>trim\<close>: trimming twice changes nothing, the result is empty exactly for
  white-space-only input, and otherwise it neither starts nor ends with white space.
\<close>

lemma js_trim_spec:
  "js_trim (js_trim s) = js_trim s \<and> (js_trim s = [] \<longleftrightarrow> (\<forall>c\<in>set s. is_ws_char c)) \<and>
   (js_trim s \<noteq> [] \<longrightarrow> \<not> is_ws_char (hd (js_trim s)) \<and> \<not> is_ws_char (last (js_trim s)))"
proof -
  define a where "a = dropWhile is_ws_char s"
  define b where "b = dropWhile is_ws_char (rev a)"
  have t: "js_trim s = rev b" by (simp add: js_trim_def a_def b_def)
  have e: "b = [] \<longleftrightarrow> (\<forall>c\<in>set s. is_ws_char c)"
  proof
    assume "b = []"
    then have "\<forall>c\<in>set a. is_ws_char c" by (simp add: b_def dropWhile_eq_Nil_conv)
    moreover have "a \<noteq> [] \<Longrightarrow> \<not> is_ws_char (hd a)"
      using dropWhile_hd_not [of is_ws_char s] by (simp add: a_def)
    ultimately have "a = []" by (cases a) auto
    then show "\<forall>c\<in>set s. is_ws_char c" by (simp add: a_def dropWhile_eq_Nil_conv)
  next
    assume "\<forall>c\<in>set s. is_ws_char c"
    then have "a = []" by (simp add: a_def dropWhile_eq_Nil_conv)
    then show "b = []" by (simp add: b_def)
  qed
  have ends: "\<not> is_ws_char (hd (rev b)) \<and> \<not> is_ws_char (last (rev b))" if "b \<noteq> []"
  proof -
    have "\<not> is_ws_char (hd b)" using that dropWhile_hd_not [of is_ws_char "rev a"] by (simp add: b_def)
    moreover have "a \<noteq> []" using that by (auto simp: b_def)
    then have "\<not> is_ws_char (hd a)" using dropWhile_hd_not [of is_ws_char s] by (simp add: a_def)
    moreover have "last b = hd a" using that \<open>a \<noteq> []\<close> by (simp add: b_def last_dropWhile last_rev)
    ultimately show ?thesis using that by (simp add: hd_rev last_rev)
  qed
  have idem: "js_trim (rev b) = rev b"
  proof (cases "b = []")
    case True
    then show ?thesis by (simp add: js_trim_def)
  next
    case False
    with ends have "dropWhile is_ws_char (rev b) = rev b" by (simp add: dropWhile_idem_hd)
    moreover have "dropWhile is_ws_char b = b"
      using False ends by (simp add: dropWhile_idem_hd hd_rev last_rev)
    ultimately show ?thesis by (simp add: js_trim_def)
  qed
  show ?thesis unfolding t using idem e ends by auto
qed

subsection \<open>The socket invariant\<close>

lemma settle_forms_fields [simp]:
  "messages (settle_forms s s') = messages s'" "username (settle_forms s s') = username s'"
  "connected (settle_forms s s') = connected s'" "sockets (settle_forms s s') = sockets s'"
  "ws (settle_forms s s') = ws s'" "sent (settle_forms s s') = sent s'"
  by (simp_all add: settle_forms_def)

lemma chat_view_settle [simp]: "chat_view (settle_forms s s') = chat_view s'"
  by (simp add: chat_view_def)

lemma chat_step_Some:
  "chat_step e s = Some s' \<longleftrightarrow> (\<exists>t. chat_event_step e s = Some t \<and> s' = settle_forms s t)"
  by (auto simp: chat_step_def)

lemma chat_send_fields [simp]:
  "messages (chat_send m s) = messages s" "username (chat_send m s) = username s"
  "connected (chat_send m s) = connected s" "sockets (chat_send m s) = sockets s"
  "ws (chat_send m s) = ws s"
  by (simp_all add: chat_send_def Let_def split: option.splits)

lemma chat_run_reachable:
  "chat_reachable s \<Longrightarrow> chat_run es s = Some s' \<Longrightarrow> chat_reachable s'"
  by (induction es arbitrary: s) (auto split: option.splits intro: chat_next)

lemma chat_ok_settle [simp]: "chat_ok (settle_forms s t) = chat_ok t"
  by (simp add: chat_ok_def)

lemma chat_event_step_ok: "chat_ok s \<Longrightarrow> chat_event_step e s = Some t \<Longrightarrow> chat_ok t"
proof (cases e)
  case Reconnect_Click
  assume "chat_ok s" "chat_event_step e s = Some t"
  with Reconnect_Click show ?thesis
    by (auto simp: chat_ok_def init_websocket_def split: if_splits option.splits)
next
  case (Socket_Opens i)
  assume "chat_ok s" "chat_event_step e s = Some t"
  with Socket_Opens show ?thesis
    by (auto simp: chat_ok_def on_ws_open_def set_update_memI split: if_splits)
next
  case (Socket_Closes i)
  assume "chat_ok s" "chat_event_step e s = Some t"
  with Socket_Closes show ?thesis
    by (auto simp: chat_ok_def on_ws_close_def split: if_splits)
qed (auto simp: chat_ok_def on_ws_message_def message_form_submit_def username_form_submit_def
      set_username_def message_form_change_def username_form_change_def Let_def split: if_splits)

lemma chat_reachable_chat_ok: "chat_reachable s \<Longrightarrow> chat_ok s"
proof (induction rule: chat_reachable.induct)
  case chat_mounted
  show ?case by (simp add: chat_ok_def init_websocket_def chat_initial_def)
next
  case (chat_next s e s')
  then show ?case by (auto simp: chat_step_Some dest: chat_event_step_ok)
qed

text \<open>
  C22. In every reachable state of the chat widget \<open>this.ws\<close> is a socket the container
  created, and the widget shows itself connected only while one of its sockets is open.
\<close>

theorem chat_reachable_ok:
  assumes "chat_reachable s"
  shows "(\<exists>i. ws s = Some i \<and> i < length (sockets s)) \<and> (connected s \<longrightarrow> Open \<in> set (sockets s))"
  using chat_reachable_chat_ok [OF assms] by (simp add: chat_ok_def)

theorem chat_reachable_ok_witness:
  "chat_reachable (init_websocket chat_initial) \<and> ws (init_websocket chat_initial) = Some 0 \<and>
   0 < length (sockets (init_websocket chat_initial))"
  using chat_reachable_ok [OF chat_mounted] chat_mounted by (simp add: init_websocket_def chat_initial_def)

subsection \<open>Reconnecting while a socket is still connecting\<close>

lemmas chat_step_defs = chat_step_def settle_forms_def chat_view_def init_websocket_def
  message_form_change_def username_form_change_def
  on_ws_open_def on_ws_message_def on_ws_close_def chat_initial_def

text \<open>
  C23. \<open>Reconnect\<close> is offered whenever \<open>connected\<close> is false, also while the current
  socket is still \<open>CONNECTING\<close>; \<open>initWebsocket\<close> then opens a second socket. Both
  open, both keep their \<open>onmessage\<close> handler, and a message the server broadcasts to
  both connections is shown twice.
\<close>

theorem reconnect_duplicates_messages:
  "\<exists>s. chat_run [Reconnect_Click, Socket_Opens 0, Socket_Opens 1, Socket_Delivers 0 m,
                  Socket_Delivers 1 m] (init_websocket chat_initial) = Some s \<and>
       chat_reachable s \<and> sockets s = [Open, Open] \<and> messages s = [m, m]"
proof -
  define s where "s = \<lparr>messages = [m, m], username = [], connected = True, sockets = [Open, Open],
    ws = Some 1, sent = [], message_value = [], username_value = []\<rparr>"
  have run: "chat_run [Reconnect_Click, Socket_Opens 0, Socket_Opens 1, Socket_Delivers 0 m,
                  Socket_Delivers 1 m] (init_websocket chat_initial) = Some s"
    by (simp add: chat_step_defs s_def)
  show ?thesis
    using run chat_run_reachable [OF chat_mounted run] by (simp add: s_def)
qed

subsection \<open>A message typed while the current socket is connecting\<close>

text \<open>
  C24. After a reconnect the view is chosen by \<open>connected\<close>, which the old socket has
  set, while \<open>send\<close> writes only to the new socket, and only once it is open. A message
  submitted in that window is cleared from the form but sent nowhere.
\<close>

theorem message_lost_while_connecting:
  "\<exists>s. chat_run [Reconnect_Click, Socket_Opens 0, Type_Username ''bob'', Submit_Username,
                  Type_Message '' hi '', Submit_Message] (init_websocket chat_initial) = Some s \<and>
       chat_reachable s \<and> chat_view s = Message_Form_View \<and> connected s \<and>
       ws s = Some 1 \<and> sockets s = [Open, Connecting] \<and> sent s = [] \<and> message_value s = []"
proof -
  define s where "s = \<lparr>messages = [], username = ''bob'', connected = True,
    sockets = [Open, Connecting], ws = Some 1, sent = [], message_value = [], username_value = []\<rparr>"
  have t1: "js_trim ''bob'' = ''bob''" "js_trim '' hi '' = ''hi''"
    by (simp_all add: js_trim_def is_ws_char_def)
  have run: "chat_run [Reconnect_Click, Socket_Opens 0, Type_Username ''bob'', Submit_Username,
                  Type_Message '' hi '', Submit_Message] (init_websocket chat_initial) = Some s"
    by (simp add: chat_step_defs s_def username_form_submit_def message_form_submit_def
        set_username_def chat_send_def t1 Let_def)
  show ?thesis
    using run chat_run_reachable [OF chat_mounted run] by (simp add: s_def chat_view_def)
qed

subsection \<open>Submitting a message\<close>

text \<open>
  C25. \<open>onSubmit\<close> of the message form with \<open>send\<close>: it sends one frame, the trimmed
  input under the current username, exactly when the trimmed input is non-empty and the
  current socket is open; it clears the input whenever the trimmed input is non-empty.
  White-space-only input is neither sent nor cleared, and a sent text never starts or ends
  with white space.
\<close>

theorem message_form_submit_spec:
  "sent (message_form_submit s) =
     sent s @ (case ws s of
                 Some i \<Rightarrow> if js_trim (message_value s) \<noteq> [] \<and> sockets s ! i = Open
                           then [(i, \<lparr>musername = username s, mtext = js_trim (message_value s)\<rparr>)] else []
               | None \<Rightarrow> []) \<and>
   message_value (message_form_submit s) = (if js_trim (message_value s) \<noteq> [] then [] else message_value s) \<and>
   (js_trim (message_value s) = [] \<longleftrightarrow> (\<forall>c\<in>set (message_value s). is_ws_char c)) \<and>
   (js_trim (message_value s) \<noteq> [] \<longrightarrow>
      \<not> is_ws_char (hd (js_trim (message_value s))) \<and> \<not> is_ws_char (last (js_trim (message_value s))))"
proof -
  have "sent (message_form_submit s) =
     sent s @ (case ws s of
                 Some i \<Rightarrow> if js_trim (message_value s) \<noteq> [] \<and> sockets s ! i = Open
                           then [(i, \<lparr>musername = username s, mtext = js_trim (message_value s)\<rparr>)] else []
               | None \<Rightarrow> [])"
    by (simp add: message_form_submit_def chat_send_def Let_def split: option.splits)
  moreover have "message_value (message_form_submit s) =
      (if js_trim (message_value s) \<noteq> [] then [] else message_value s)"
    by (simp add: message_form_submit_def Let_def)
  ultimately show ?thesis using js_trim_spec [of "message_value s"] by blast
qed

theorem message_form_submit_spec_witness:
  "sent (message_form_submit \<lparr>messages = [], username = ''bob'', connected = True, sockets = [Open],
      ws = Some 0, sent = [], message_value = '' hi '', username_value = []\<rparr>) =
     [(0, \<lparr>musername = ''bob'', mtext = ''hi''\<rparr>)] \<and> js_trim '' hi '' \<noteq> [] \<and>
   \<not> is_ws_char (hd (js_trim '' hi '')) \<and> \<not> is_ws_char (last (js_trim '' hi ''))"
proof -
  have t: "js_trim '' hi '' = ''hi''" by (simp add: js_trim_def is_ws_char_def)
  show ?thesis
    using message_form_submit_spec [of "\<lparr>messages = [], username = ''bob'', connected = True,
      sockets = [Open], ws = Some 0, sent = [], message_value = '' hi '', username_value = []\<rparr>"]
    by (simp add: t)
qed

subsection \<open>A stale close strands the widget\<close>

text \<open>
  C28. \<open>onWebsocketClose\<close> clears \<open>connected\<close> whichever socket closed. When the
  older socket closes after the newer one has opened, the widget shows \<open>Disconnected\<close>
  although \<open>this.ws\<close> is open, and \<open>Reconnect\<close> changes nothing, since
  \<open>initWebsocket\<close> returns early on an open socket.
\<close>

theorem stale_close_strands_chat:
  "\<exists>s. chat_run [Reconnect_Click, Socket_Opens 1, Socket_Opens 0, Socket_Closes 0]
                (init_websocket chat_initial) = Some s \<and>
       chat_reachable s \<and> chat_view s = Disconnected_View \<and> ws s = Some 1 \<and>
       sockets s ! 1 = Open \<and> chat_step Reconnect_Click s = Some s"
proof -
  define s where "s = \<lparr>messages = [], username = [], connected = False, sockets = [Closed, Open],
    ws = Some 1, sent = [], message_value = [], username_value = []\<rparr>"
  have run: "chat_run [Reconnect_Click, Socket_Opens 1, Socket_Opens 0, Socket_Closes 0]
                (init_websocket chat_initial) = Some s"
    by (simp add: chat_step_defs s_def)
  have "chat_step Reconnect_Click s = Some s"
    by (simp add: chat_step_defs s_def)
  then show ?thesis
    using run chat_run_reachable [OF chat_mounted run] by (simp add: s_def chat_view_def)
qed

subsection \<open>Unmounting\<close>

text \<open>
  C31. \<open>componentWillUnmount\<close> never throws on a reachable state (\<open>this.ws\<close> is never
  \<open>null\<close> there); it leaves the current socket closing or closed and touches no other
  socket.
\<close>

theorem chat_unmount_closes_current:
  assumes "chat_reachable s"
  shows "\<exists>i t. ws s = Some i \<and> chat_unmount s = Inr t \<and> sockets t ! i \<in> {Closing, Closed} \<and>
           length (sockets t) = length (sockets s) \<and> (\<forall>j. j \<noteq> i \<longrightarrow> sockets t ! j = sockets s ! j)"
proof -
  obtain i where i: "ws s = Some i" "i < length (sockets s)"
    using chat_reachable_chat_ok [OF assms] by (auto simp: chat_ok_def)
  show ?thesis
  proof (cases "sockets s ! i")
    case Connecting
    with i show ?thesis by (simp add: chat_unmount_def)
  next
    case Open
    with i show ?thesis by (simp add: chat_unmount_def)
  qed (use i in \<open>simp_all add: chat_unmount_def\<close>)
qed

theorem chat_unmount_closes_current_witness:
  "chat_reachable (init_websocket chat_initial) \<and>
   chat_unmount (init_websocket chat_initial) = Inr ((init_websocket chat_initial)\<lparr>sockets := [Closing]\<rparr>)"
proof -
  obtain i t where "ws (init_websocket chat_initial) = Some i" "chat_unmount (init_websocket chat_initial) = Inr t"
    using chat_unmount_closes_current [OF chat_mounted] by blast
  then show ?thesis using chat_mounted
    by (simp add: chat_unmount_def init_websocket_def chat_initial_def)
qed

text \<open>
  C32. Unmounting closes only \<open>this.ws\<close>: after a reconnect while the first socket was
  still connecting, both sockets open, and the unmounted widget leaves the first one open,
  its handlers still attached to the unmounted component.
\<close>

theorem chat_unmount_leaks_socket:
  "\<exists>s t. chat_run [Reconnect_Click, Socket_Opens 0, Socket_Opens 1] (init_websocket chat_initial) = Some s \<and>
     chat_reachable s \<and> chat_unmount s = Inr t \<and> sockets t = [Open, Closing]"
proof -
  define s where "s = \<lparr>messages = [], username = [], connected = True, sockets = [Open, Open],
    ws = Some 1, sent = [], message_value = [], username_value = []\<rparr>"
  have run: "chat_run [Reconnect_Click, Socket_Opens 0, Socket_Opens 1] (init_websocket chat_initial) = Some s"
    by (simp add: chat_step_defs s_def)
  have "chat_unmount s = Inr (s\<lparr>sockets := [Open, Closing]\<rparr>)"
    by (simp add: chat_unmount_def s_def)
  then show ?thesis using run chat_run_reachable [OF chat_mounted run] by auto
qed

subsection \<open>Order of delivered messages\<close>

lemma chat_view_fields [simp]:
  "chat_view (s\<lparr>message_value := v\<rparr>) = chat_view s" "chat_view (s\<lparr>username_value := v\<rparr>) = chat_view s"
  "chat_view (s\<lparr>messages := ms\<rparr>) = chat_view s"
  by (simp_all add: chat_view_def)

lemma settle_forms_settled: "settle_forms (settle_forms s t) (settle_forms s t) = settle_forms s t"
  by (cases "chat_view t") (simp_all add: settle_forms_def)

lemma settle_forms_messages:
  "settle_forms (s\<lparr>messages := ms\<rparr>) (s\<lparr>messages := ms\<rparr>) = (settle_forms s s)\<lparr>messages := ms\<rparr>"
  by (simp add: settle_forms_def)

lemma settle_forms_idem: "chat_reachable s \<Longrightarrow> settle_forms s s = s"
proof (induction rule: chat_reachable.induct)
  case chat_mounted
  show ?case by (simp add: settle_forms_def init_websocket_def chat_initial_def)
next
  case (chat_next s e s')
  then obtain t where "s' = settle_forms s t" by (auto simp: chat_step_Some)
  then show ?case by (simp only: settle_forms_settled)
qed

lemma deliveries_settled:
  assumes "settle_forms s s = s" "i < length (sockets s)" "sockets s ! i = Open"
  shows "chat_run (map (Socket_Delivers i) ms) s = Some (s\<lparr>messages := rev ms @ messages s\<rparr>)"
  using assms
proof (induction ms arbitrary: s)
  case Nil
  then show ?case by simp
next
  case (Cons m ms)
  let ?s1 = "s\<lparr>messages := m # messages s\<rparr>"
  have "settle_forms s (on_ws_message m s) = (settle_forms s s)\<lparr>messages := m # messages s\<rparr>"
    by (simp add: settle_forms_def on_ws_message_def)
  then have st: "chat_step (Socket_Delivers i m) s = Some ?s1"
    using Cons.prems by (simp add: chat_step_def)
  have "settle_forms ?s1 ?s1 = ?s1" using Cons.prems(1) by (simp only: settle_forms_messages)
  then have "chat_run (map (Socket_Delivers i) ms) ?s1 = Some (?s1\<lparr>messages := rev ms @ messages ?s1\<rparr>)"
    using Cons.IH [of ?s1] Cons.prems by simp
  then show ?case using st by simp
qed

text \<open>
  C35. Messages are shown newest first: in a reachable state, a run of messages arriving
  on an open socket prepends them in reverse order of arrival
  (\<open>[JSON.parse(e.data)].concat(messages)\<close>) and changes nothing else: no socket, no
  frame sent, no form input.
\<close>

theorem deliveries_newest_first:
  assumes "chat_reachable s" "i < length (sockets s)" "sockets s ! i = Open"
  shows "chat_run (map (Socket_Delivers i) ms) s = Some (s\<lparr>messages := rev ms @ messages s\<rparr>)"
  using deliveries_settled [OF settle_forms_idem [OF assms(1)] assms(2,3)] .

theorem deliveries_newest_first_witness:
  "\<exists>s. chat_run [Socket_Opens 0] (init_websocket chat_initial) = Some s \<and> chat_reachable s \<and>
     chat_run [Socket_Delivers 0 \<lparr>musername = ''a'', mtext = ''1''\<rparr>, Socket_Delivers 0 \<lparr>musername = ''b'', mtext = ''2''\<rparr>] s =
     Some (s\<lparr>messages := [\<lparr>musername = ''b'', mtext = ''2''\<rparr>, \<lparr>musername = ''a'', mtext = ''1''\<rparr>]\<rparr>)"
proof -
  define s where "s = \<lparr>messages = [], username = [], connected = True, sockets = [Open],
    ws = Some 0, sent = [], message_value = [], username_value = []\<rparr>"
  have run: "chat_run [Socket_Opens 0] (init_websocket chat_initial) = Some s"
    by (simp add: chat_step_defs s_def)
  have r: "chat_reachable s" by (rule chat_run_reachable [OF chat_mounted run])
  have o: "0 < length (sockets s)" "sockets s ! 0 = Open" by (simp_all add: s_def)
  from deliveries_newest_first [OF r o, of "[\<lparr>musername = ''a'', mtext = ''1''\<rparr>, \<lparr>musername = ''b'', mtext = ''2''\<rparr>]"]
  show ?thesis using run r by (auto simp: s_def)
qed

end
