(* ===== verification/GameData.thy ===== *)
theory GameData
  imports Session
begin

text \<open>
  The game data that \<open>getGameData\<close> of \<open>src/src/Game.js\<close> sends to the HUD
  (\<open>UI.updateGameData\<close>) and to the renderer (\<open>Drawer.updateGameData\<close>), seen as an
  interface. \<open>game_data_schema\<close> names every variable of the snapshot with the kind of
  number its consumers expect, in the order of the object literal; \<open>data_well_typed\<close>
  says a data list has exactly these names, in that order, with values of these kinds.
  Both consumers succeed on every well-typed snapshot: the \<open>getGameVar\<close> of either
  module never throws on it. (In the code \<open>maxScore\<close> is the string read from
  \<open>localStorage\<close> until \<open>updateScore\<close> overwrites it; the model keeps it a number.)
\<close>

datatype var_type = Real_Var | Int_Var | Nat_Var | Flag_Var

fun has_type :: "var_type \<Rightarrow> real \<Rightarrow> bool" where
  "has_type Real_Var v = True"
| "has_type Int_Var v = (of_int \<lfloor>v\<rfloor> = v)"
| "has_type Nat_Var v = (of_int \<lfloor>v\<rfloor> = v \<and> 0 \<le> v)"
| "has_type Flag_Var v = (v = 0 \<or> v = 1)"

definition game_data_schema :: "(string \<times> var_type) list" where
  "game_data_schema =
     [(''SCENE_LEFT_BORDER'', Real_Var), (''SCENE_RIGHT_BORDER'', Real_Var), (''SCENE_DEPTH'', Real_Var),
      (''speed'', Real_Var), (''score'', Int_Var), (''tick'', Nat_Var), (''maxScore'', Int_Var),
      (''difficulty'', Nat_Var), (''gameOver'', Flag_Var)]"

definition data_well_typed :: "game_data \<Rightarrow> bool" where
  "data_well_typed d \<longleftrightarrow>
     map fst d = map fst game_data_schema \<and> list_all2 (\<lambda>(_, v) (_, t). has_type t v) d game_data_schema"

subsection \<open>The snapshot names every variable once\<close>

lemma data_well_typed_map_of:
  assumes "data_well_typed d" "n \<in> fst ` set game_data_schema"
  shows "\<exists>v. map_of d n = Some v"
proof -
  have "n \<in> fst ` set d"
    using assms arg_cong [where f = set, OF conjunct1 [OF assms(1) [unfolded data_well_typed_def]]]
    by simp
  then have "map_of d n \<noteq> None" by (simp add: map_of_eq_None_iff)
  then show ?thesis by blast
qed

lemma schema_names:
  "fst ` set game_data_schema =
     {''SCENE_LEFT_BORDER'', ''SCENE_RIGHT_BORDER'', ''SCENE_DEPTH'', ''speed'', ''score'', ''tick'',
      ''maxScore'', ''difficulty'', ''gameOver''}"
  by (simp add: game_data_schema_def)

subsection \<open>The consumers\<close>

text \<open>
  C30. The consumers' side of the interface: for any well-typed data, \<open>UI.draw\<close> after
  \<open>UI.updateGameData\<close> succeeds whatever the HUD held before, and so does a Drawer frame
  (\<open>updateGameData\<close>, \<open>clear\<close>, \<open>drawScene\<close>, \<open>drawObject\<close>) once \<open>init\<close> has found a
  WebGL context.
\<close>

theorem well_typed_data_drawn:
  assumes "data_well_typed d"
  shows "(\<exists>h' texts. ui_draw (ui_update_game_data d h) = Inr (h', texts)) \<and>
         (gl_viewport u \<noteq> None \<longrightarrow> (\<exists>u' segs. drawer_frame d objs u = Inr (u', segs)))"
proof -
  have m: "map_of d n \<noteq> None" if "n \<in> fst ` set game_data_schema" for n
    using data_well_typed_map_of [OF assms that] by blast
  have n: "map_of d ''difficulty'' \<noteq> None" "map_of d ''score'' \<noteq> None" "map_of d ''maxScore'' \<noteq> None"
    "map_of d ''SCENE_LEFT_BORDER'' \<noteq> None" "map_of d ''SCENE_RIGHT_BORDER'' \<noteq> None"
    "map_of d ''SCENE_DEPTH'' \<noteq> None" "map_of d ''tick'' \<noteq> None" "map_of d ''speed'' \<noteq> None"
    by (rule m, simp add: schema_names)+
  obtain a b c where "map_of d ''difficulty'' = Some a" "map_of d ''score'' = Some b"
    "map_of d ''maxScore'' = Some c"
    using n(1-3) by blast
  then have "hud_data (ui_update_game_data d h) ''difficulty'' = Some a"
    "hud_data (ui_update_game_data d h) ''score'' = Some b"
    "hud_data (ui_update_game_data d h) ''maxScore'' = Some c"
    by (simp_all add: ui_update_game_data_def)
  then have "\<exists>h' texts. ui_draw (ui_update_game_data d h) = Inr (h', texts)"
    by (intro exI) (rule ui_draw_Inr)
  moreover have "gl_viewport u \<noteq> None \<longrightarrow> (\<exists>u' segs. drawer_frame d objs u = Inr (u', segs))"
    using drawer_frame_Inr [OF n(4-8), of u objs] by blast
  ultimately show ?thesis by blast
qed

theorem well_typed_data_drawn_witness:
  "data_well_typed (get_game_data (game_module (sconst 0) True None)) \<and>
   (\<exists>h' texts. ui_draw (ui_update_game_data (get_game_data (game_module (sconst 0) True None)) hud_empty)
      = Inr (h', texts)) \<and>
   (\<exists>u' segs. drawer_frame (get_game_data (game_module (sconst 0) True None)) []
      (drawer_empty\<lparr>gl_viewport := Some (render_width, render_height)\<rparr>) = Inr (u', segs))"
proof -
  have w: "data_well_typed (get_game_data (game_module (sconst 0) True None))"
    by (simp add: data_well_typed_def get_game_data_def game_data_schema_def game_module_def)
  show ?thesis
    using w well_typed_data_drawn [OF w, of hud_empty "drawer_empty\<lparr>gl_viewport := Some (render_width, render_height)\<rparr>" "[]"]
    by simp
qed

end
