(* ===== verification/Spec2Isabelle.thy ===== *)
theory Spec2Isabelle
  imports Lifecycle Chat GameData
begin

text \<open>
  \<^bold>\<open>A verification development of the WebGLGame simulation core.\<close>

  \<^bold>\<open>The program.\<close> \<open>src/src/Game.js\<close> is an endless-runner simulation: a car steers
  on a lane of width 6 (\<open>SCENE_LEFT_BORDER = -3\<close> to \<open>3\<close>) while obstacles and
  pedestrians spawn at depth 30 and scroll towards the viewer. A timer fires \<open>tick\<close>
  200 times a second; a tick runs, in this order, \<open>updateDifficulty\<close>,
  \<open>updateCar\<close>, \<open>updateObstacles\<close>, \<open>updateHumans\<close>, \<open>updateGameObjects\<close>,
  \<open>handleCollisions\<close>, \<open>updateScore\<close> and \<open>clearGameObjects\<close>. Collisions call
  the objects' \<open>onCollide\<close> responses, which may end the game (\<open>stop\<close>), change
  the score, notify the HUD (\<open>src/src/UI.js\<close>, \<open>addScore\<close>) and mark objects for
  deletion at the end of the tick. \<open>start\<close>, \<open>stop\<close> and \<open>restart\<close> are called by
  the React component \<open>src/src/components/Game.js\<close>; \<open>stop\<close> persists the maximum
  score and reports the final game data to that component's callback. A separate render
  loop (\<open>draw\<close>, \<open>src/src/Drawer.js\<close>) only reads the state. Beside the game
  the page holds a WebSocket chat (\<open>src/src/containers/ChatContainer.js\<close> and the
  \<open>Chat*\<close> components), which shares no state with it.

  \<^bold>\<open>Layout of the development.\<close>
  \<^item> \<open>Prelude\<close>: JavaScript numbers as \<open>real\<close>, exceptions as \<open>js_error + _\<close>
    with \<open>bind_js\<close> and \<open>fold_js\<close> (a loop whose body may throw), \<open>Math.random()\<close>
    as a stream of reals \<open>rng\<close> (\<open>rng_ok\<close>: every value in \<open>[0, 1)\<close>), shared
    lemmas on lists keyed by a field.
  \<^item> \<open>Keys\<close>: the string keys of \<open>gameObjects\<close> (\<open>toString\<close> as \<open>nat_str\<close>),
    the string comparison \<open>k <= i\<close> of \<open>handleCollisions\<close> (\<open>key_le\<close>) and the
    pairs its nested loop visits (\<open>collision_pairs\<close>).
  \<^item> \<open>Rng\<close>: \<open>random\<close>, \<open>randomInt\<close>, \<open>randomBool\<close> and the Fisher--Yates
    \<open>shuffle\<close> (\<open>Game.js\<close> lines 190--211).
  \<^item> \<open>Entities\<close>: the constants, \<open>GameObject\<close> and its variants as the record
    \<open>game_object\<close>, \<open>toRectPoints\<close>, \<open>checkCollision\<close>, and each variant's
    \<open>onCollide\<close> as a list of \<open>reaction\<close>s, the interface between the entities and
    the session that interprets them.
  \<^item> \<open>Hud\<close>: \<open>src/src/UI.js\<close>: the merged game data, \<open>getGameVar\<close> (which
    throws on a missing name), each draw function (\<open>drawDifficulty\<close>, \<open>drawScore\<close>,
    \<open>drawMaxScore\<close>, \<open>drawAnimating\<close>) with its \<open>ctx.save()\<close>/\<open>ctx.restore()\<close>
    calls on a model of the 2D context (\<open>ctx2d\<close>: drawing properties and save stack),
    the painted texts, and the score animations.
  \<^item> \<open>Drawer\<close>: \<open>src/src/Drawer.js\<close>: \<open>init\<close> with \<open>getShader\<close> and
    \<open>initShaders\<close> against a browser given as a parameter (\<open>gl_env\<close>: whether a WebGL
    context exists, the shader scripts, what compiles and links), the viewport and shader
    program it keeps; its merged game data, the scroll
    offset of the lane lines and the tick of the previous frame, and the line segments
    each of \<open>drawScene\<close>, \<open>drawCuboid\<close> and \<open>drawObject\<close> sends (the lane loop over
    reals is a \<open>function\<close> with a termination proof); the camera translation of
    \<open>getInitialMatrix\<close>, the projection \<open>clear\<close> sets with \<open>mat4.perspective\<close>, and
    which vertices end up on screen (\<open>vertex_visible\<close>).
  \<^item> \<open>Session\<close>: the module variables of \<open>Game.js\<close> as the record
    \<open>game_state\<close> (objects as a list in key order; timers, listeners, the
    \<open>localStorage\<close> entry and the callback log as fields) and the operations outside the
    tick: \<open>createGameObject\<close>, \<open>destroyGameObject\<close>, \<open>getCar\<close>,
    \<open>getGameData\<close>, \<open>loadMaxScore\<close>/\<open>saveMaxScore\<close>, the key listeners,
    \<open>init\<close> (which runs \<open>Drawer.init\<close> and may throw), \<open>start\<close>, \<open>stop\<close>,
    \<open>restart\<close> and \<open>drawUI\<close>.
  \<^item> \<open>Phases\<close>: \<open>updateDifficulty\<close>, \<open>updateCar\<close>, \<open>updateObstacles\<close>,
    \<open>updateHumans\<close>, \<open>updateGameObjects\<close>, \<open>updateScore\<close>,
    \<open>clearGameObjects\<close>; a missing car is the \<open>TypeError\<close> branch.
  \<^item> \<open>Collisions\<close>: \<open>handleCollisions\<close> as \<open>fold_js\<close> over the visited pairs,
    each hit running both responses through \<open>apply_reaction\<close> (a car hitting an
    obstacle runs the whole \<open>stop()\<close> inside the tick).
  \<^item> \<open>Tick\<close>: \<open>tick\<close> as the composition of the phases, the session invariant
    \<open>session_inv\<close> and the timer invariant \<open>timers_ok\<close>, one preservation lemma per
    phase and their composition \<open>tick_inv\<close>.
  \<^item> \<open>Lifecycle\<close>: the page: the React component \<open>components/Game.js\<close> with its
    start/restart button and mode select, the canvas mount, the keyboard focus, the tick
    timer and the animation frame, as the step function \<open>page_step\<close> on a record
    \<open>page\<close>, and the reachable pages as the inductive predicate \<open>reachable\<close>, starting
    from every mount whose \<open>init\<close> returned.
  \<^item> \<open>GameData\<close>: the snapshot of \<open>getGameData\<close> as an interface between the
    session and its two consumers: a schema of its nine variables with the kind of number
    each holds, and the well-typedness predicate \<open>data_well_typed\<close>.
  \<^item> \<open>Chat\<close>: the chat container's state, every socket it created with its
    \<open>readyState\<close>, the frames sent and the forms' inputs as the record \<open>chat_state\<close>;
    \<open>initWebsocket\<close>, the three socket handlers, \<open>send\<close>, \<open>setUsername\<close>,
    \<open>componentWillUnmount\<close> and the forms' \<open>onChange\<close> and \<open>onSubmit\<close>; the view choice of \<open>Chat.js\<close>; the events the user and the
    network can cause as \<open>chat_step\<close> (guarded by what is on screen and by the socket
    states) and the reachable states as the inductive \<open>chat_reachable\<close>.

  \<^bold>\<open>Properties.\<close>
  \<^item> Invariant (C1, \<open>Lifecycle\<close>): on every reachable page at most one tick timer is
    live, a started game satisfies the session invariant, the renderer's offset is in
    range, and no event throws; by rule induction on \<open>reachable\<close> from the per-event
    lemma \<open>page_inv_step\<close>, itself built on \<open>tick_inv\<close> (theory \<open>Tick\<close>).
  \<^item> Safety (C2, \<open>Collisions\<close>): the collision pass never throws, never adds or
    removes objects, and marks only humans for deletion.
  \<^item> Functional and bounds (C3, C4, \<open>Tick\<close>): the level follows the tick count and
    rises by at most one per tick; the score stays non-negative, the maximum never
    decreases and bounds the floored score.
  \<^item> Equivalence (C5, \<open>Keys\<close>): the string order of keys visits every unordered pair
    of distinct objects exactly once, as a numeric order would.
  \<^item> Refinement (C6, C7, \<open>Entities\<close>): \<open>checkCollision\<close> is the overlap of open
    rectangles; touching edges do not collide.
  \<^item> Error (C8, \<open>Lifecycle\<close>): a second \<open>start\<close> without \<open>stop\<close> is not
    rejected and leaks a live timer past the next \<open>stop\<close>.
  \<^item> HUD (C9--C11, C36, \<open>Hud\<close>): \<open>draw\<close> fails fast exactly on missing data; each frame
    pushes one more state on the canvas save stack, since \<open>drawScore\<close> saves without
    restoring (the context is the record \<open>ctx2d\<close>, one operation per draw function); a score animation lives 100 frames.
    Every animated text is painted with an opacity in \<open>[0, 1)\<close>.
  \<^item> Spawners and steering (C12--C14, \<open>Phases\<close>): a batch holds exactly the drawn
    number of obstacles; a new pedestrian never overlaps an obstacle and stands in the
    lane; \<open>updateCar\<close> throws without a car and otherwise clamps the car to the lane.
  \<^item> Round trip (C15, \<open>Session\<close>): the maximum saved by \<open>stop\<close> is the one
    \<open>init\<close> loads on the next page load.
  \<^item> Liveness (C16, this theory): from \<open>start\<close>, any number of ticks succeed and
    follow the level schedule; the obstacle interval never drops below 230.
  \<^item> Scenarios (C17--C19, this theory): a car between two obstacles ends the game
    twice in one pass; a Robocar game can end with a negative score in its snapshot and
    message; a tie with the old maximum is announced as a new record.
  \<^item> Renderer (C20, C21, \<open>Drawer\<close>): the lane loop terminates with a closed form;
    the scroll offset stays within one line step and is reset when a restart sets the
    tick counter back. Camera (C26, C27, \<open>Drawer\<close>): the
    visible region of a frame is the camera's frustum up to world depth
    \<open>3 - SCENE_DEPTH\<close>; the back wall and freshly spawned objects lie beyond it.
  \<^item> Chat (C22--C25, C28, C31, C32, C35, \<open>Chat\<close>): \<open>this.ws\<close> is always a created socket and the
    widget shows itself connected only while some socket is open (rule induction on
    \<open>chat_reachable\<close>); a reconnect while the first socket is still connecting leaves
    two open sockets and every broadcast shown twice; a message submitted in that window
    is cleared and not sent; the message form sends exactly the trimmed, non-empty input;
    a late close of the old socket shows the widget disconnected over an open socket, and
    \<open>Reconnect\<close> then does nothing; unmounting never throws on a reachable state but
    closes only the current socket, so a socket left open by a reconnect leaks.
    Messages arriving on an open socket are shown newest first and change nothing else.
  \<^item> Refinement (C34, \<open>Lifecycle\<close>): the page refines the specification's session
    state machine (section 4.6) under the abstraction \<open>abs_phase\<close>; the proof rests on
    the invariant that a stopped game holds no tick timer (\<open>over_ok\<close>, kept by every
    tick phase through \<open>tick_phases\<close> and the generic collision-pass lemma).
  \<^item> Input focus (C33, \<open>Lifecycle\<close>): a held arrow key whose release happens
    after the focus left the canvas stays pressed in the game.
  \<^item> Interface (C30, \<open>GameData\<close>): on any snapshot with the variables and kinds of
    \<open>getGameData\<close>'s object literal, neither \<open>UI.draw\<close> nor a Drawer frame throws.
  \<^item> Initialisation (C29, \<open>Drawer\<close>): \<open>Drawer.init\<close> throws a \<open>TypeError\<close> exactly
    when WebGL or a working shader is missing, although the code only means to log these
    cases; then \<open>Game.init\<close> throws and the page is never mounted, which is why the
    reachable pages of C1 start from an \<open>init\<close> that returned.

  \<^bold>\<open>Randomness and bounds.\<close> No fuel is used: every loop of the code runs over a
  finite list (the object keys, the slot array, the collision pairs, the animations) and
  is structural recursion or \<open>fold\<close>. The random values are the stream \<open>rnd\<close> of
  the state, so every theorem holds for every sequence of draws.

  \<^bold>\<open>Not modelled.\<close> The GL state that no operation reads back (vertex buffers,
  the clear colour, the depth-test flag, uniform locations); the vertex shader, whose
  source is not in the repository, is taken to be the usual
  \<open>uPMatrix * uMVMatrix * aVertexPosition\<close>. The browser's answers (context,
  script elements, compile and link results) are the parameter \<open>gl_env\<close>. The JSX rendering of the React components and of the chat messages: it is output
  with no program state. \<open>JSON.stringify\<close>/\<open>JSON.parse\<close> of chat messages are taken as
  inverse; \<open>trim\<close> is modelled for ASCII white space only.
  Floating-point rounding is not modelled: positions and speeds are exact reals. The
  \<open>localStorage\<close> value is a number in the model; the code reads it back as a string
  and keeps it until \<open>updateScore\<close> exceeds it. The only behaviour this changes is the
  record message of \<open>gameCallback\<close> when the final score exactly equals a loaded
  maximum (\<open>===\<close> between a number and a string), recorded as a finding and not
  stated as a theorem.
\<close>

subsection \<open>Scenarios\<close>

text \<open>
  Two moments of a game, built from \<open>start\<close>: the car in the middle of the lane
  between two obstacles of adjacent slots (centres \<open>-0.5\<close> and \<open>0.5\<close>, as
  \<open>updateObstacles\<close> places them) that have scrolled down to it; and, in Robocar
  mode, the car touching a pedestrian and an obstacle at once. The component's callback
  is registered in both, as the React component does in its constructor.
\<close>

definition straddle :: game_state where
  "straddle = (start 0 (game_module (sconst (1 / 2)) True None))\<lparr>callback_set := True,
     game_objects := [new_car\<lparr>oid := 1\<rparr>, (new_obstacle (- 0.5) 0)\<lparr>oid := 2\<rparr>, (new_obstacle 0.5 0)\<lparr>oid := 3\<rparr>],
     game_object_id := 4\<rparr>"

definition robocar_hit :: game_state where
  "robocar_hit = (start 0 (game_module (sconst (1 / 2)) True None))\<lparr>callback_set := True,
     game_objects := [new_car\<lparr>oid := 1\<rparr>, (new_human (- 0.2) 0 0.01)\<lparr>oid := 2\<rparr>, (new_obstacle 0.6 0)\<lparr>oid := 3\<rparr>],
     game_object_id := 4\<rparr>"

definition tie_state :: game_state where
  "tie_state = (game_module (sconst 0) True None)\<lparr>score := 11.95, max_score := 12\<rparr>"

text \<open>
  \<open>n\<close> firings of the tick timer (\<open>setInterval(tick, ...)\<close> of \<open>addEventListeners\<close>),
  the first exception ending the run.
\<close>

fun run_ticks :: "nat \<Rightarrow> game_state \<Rightarrow> game_state js" where
  "run_ticks 0 s = Inr s"
| "run_ticks (Suc n) s = bind_js (tick s) (run_ticks n)"

lemma run_ticks_inv:
  "session_inv s \<Longrightarrow>
   \<exists>t. run_ticks n s = Inr t \<and> session_inv t \<and> tick_index t = tick_index s + n \<and> max_score s \<le> max_score t"
proof (induction n arbitrary: s)
  case 0
  then show ?case by simp
next
  case (Suc n)
  obtain t where t: "tick s = Inr t" "session_inv t" "tick_index t = Suc (tick_index s)"
    "max_score s \<le> max_score t"
    using tick_inv [OF Suc.prems] by blast
  obtain u where "run_ticks n t = Inr u" "session_inv u" "tick_index u = tick_index t + n"
    "max_score t \<le> max_score u"
    using Suc.IH [OF t(2)] by blast
  with t show ?case by auto
qed

text \<open>
  C16. The simulation runs for ever: from a freshly started game, any number \<open>n\<close> of
  ticks succeed and keep the session invariant; after them the level is
  \<open>min (n div 750) 9\<close>, the forward speed \<open>0.04 + 0.007 * level\<close>, the obstacle interval
  \<open>500 - 30 * level\<close>, which never drops below 230 ticks, the score is not negative
  and the maximum score has not decreased.
\<close>

theorem ticks_from_start:
  "\<exists>t. run_ticks n (start m (game_module r avail st)) = Inr t \<and> session_inv t \<and>
     tick_index t = n \<and> difficulty t = min (n div 750) 9 \<and>
     speed t = 0.04 + 0.007 * real (min (n div 750) 9) \<and>
     obstacle_interval t = 500 - 30 * int (min (n div 750) 9) \<and> 230 \<le> obstacle_interval t \<and>
     0 \<le> score t \<and> max_score (game_module r avail st) \<le> max_score t"
proof -
  obtain t where t: "run_ticks n (start m (game_module r avail st)) = Inr t" "session_inv t"
    "tick_index t = tick_index (start m (game_module r avail st)) + n"
    "max_score (start m (game_module r avail st)) \<le> max_score t"
    using run_ticks_inv [OF start_inv_game_module] by blast
  have s0: "tick_index (start m (game_module r avail st)) = 0"
    "max_score (start m (game_module r avail st)) = max_score (game_module r avail st)"
    by (simp_all add: start_def create_game_object_def add_event_listeners_def Let_def)
  have "min (n div 750) 9 \<le> (9::nat)" by simp
  then have "230 \<le> 500 - 30 * int (min (n div 750) 9)" by linarith
  with t s0 show ?thesis
    by (auto simp: session_inv_def progress_ok_def game_consts)
qed

subsection \<open>Properties of the scenarios\<close>

lemma collision_pairs_123: "collision_pairs [Suc 0, 2, 3] = [(Suc 0, 2), (Suc 0, 3), (2, 3)]"
  by code_simp

lemma num_str_neg_200: "num_str (- 200) = ''-200''"
  by code_simp

text \<open>
  C17. One collision pass can end the game twice: with the car between two adjacent
  obstacles, \<open>handleCollisions\<close> runs \<open>stop()\<close> once per obstacle, so
  \<open>gameDataCallback\<close> receives two game-over snapshots in the same tick.
\<close>

theorem straddle_double_stop:
  "\<exists>t. handle_collisions straddle = Inr t \<and> length (callbacks t) = 2 \<and> is_game_over t"
proof -
  let ?car = "new_car\<lparr>oid := 1\<rparr>" and ?o2 = "(new_obstacle (- 0.5) 0)\<lparr>oid := 2\<rparr>"
    and ?o3 = "(new_obstacle 0.5 0)\<lparr>oid := 3\<rparr>"
  have objs: "game_objects straddle = [?car, ?o2, ?o3]" by (simp add: straddle_def)
  have hits: "check_collision ?car ?o2" "check_collision ?car ?o3" "\<not> check_collision ?o2 ?o3"
    by (simp_all add: check_collision_def to_rect_points_def Let_def new_car_def new_obstacle_def
        new_game_object_def game_consts)
  obtain t1 where t1: "stop straddle = Inr t1" "stop_frame straddle t1" using stop_Inr by blast
  obtain t2 where t2: "stop t1 = Inr t2" "stop_frame t1 t2" using stop_Inr by blast
  have cb: "callback_set straddle" "callbacks straddle = []"
    by (simp_all add: straddle_def start_def game_module_def add_event_listeners_def
        create_game_object_def Let_def)
  have o1: "game_objects t1 = [?car, ?o2, ?o3]" "callback_set t1" using t1(2) objs cb
    by (simp_all add: stop_frame_def)
  have o2: "game_objects t2 = [?car, ?o2, ?o3]" using t2(2) o1 by (simp add: stop_frame_def)
  have "handle_collisions straddle = fold_js collide_pair [(Suc 0, 2), (Suc 0, 3), (2, 3)] straddle"
    using objs by (simp add: handle_collisions_def object_keys_def collision_pairs_123 del: fold_js.simps)
  also have "\<dots> = Inr t2"
    using objs o1 o2 hits t1(1) t2(1)
    by (simp add: lookup_object_def respond_car_obstacle respond_silent new_car_def new_obstacle_def
        new_game_object_def)
  finally have h: "handle_collisions straddle = Inr t2" .
  have "length (callbacks t2) = 2" "is_game_over t2"
    using stop_callbacks [OF t1(1)] stop_callbacks [OF t2(1)] cb o1(2) t2(2) by (simp_all add: stop_frame_def)
  with h show ?thesis by blast
qed

text \<open>
  C18. A game-over snapshot can carry a negative score: in Robocar mode, when the car hits
  a pedestrian and an obstacle in the same pass, the penalty of \<open>-200\<close> is applied and
  \<open>stop()\<close> reports the score before \<open>updateScore\<close> clamps it, so the player reads
  "You've earned -200 points!".
\<close>

theorem robocar_negative_snapshot:
  "\<exists>t d. handle_collisions robocar_hit = Inr t \<and> callbacks t = [d] \<and> data_var ''score'' d = - 200 \<and>
     message (game_callback d p) = ''You've earned -200 points!''"
proof -
  let ?car = "new_car\<lparr>oid := 1\<rparr>" and ?h = "(new_human (- 0.2) 0 0.01)\<lparr>oid := 2\<rparr>"
    and ?o = "(new_obstacle 0.6 0)\<lparr>oid := 3\<rparr>"
  have objs: "game_objects robocar_hit = [?car, ?h, ?o]" by (simp add: robocar_hit_def)
  have hits: "check_collision ?car ?h" "check_collision ?car ?o" "\<not> check_collision ?h ?o"
    by (simp_all add: check_collision_def to_rect_points_def Let_def new_car_def new_obstacle_def
        new_human_def new_game_object_def game_consts)
  have st: "callback_set robocar_hit" "callbacks robocar_hit = []" "game_mode robocar_hit = Robocar"
    "score robocar_hit = 0" "max_score robocar_hit = 0"
    by (simp_all add: robocar_hit_def start_def game_module_def add_event_listeners_def
        create_game_object_def Let_def mode_of_code_def)
  let ?t1 = "destroy_game_object ?h (robocar_hit\<lparr>score := score robocar_hit + of_int (mode_inc (game_mode robocar_hit)),
        hud := add_score (mode_inc (game_mode robocar_hit)) (hud robocar_hit)\<rparr>)"
  have r1: "respond ?car ?h robocar_hit = Inr ?t1"
    by (rule respond_car_human) (simp_all add: new_car_def new_human_def new_game_object_def)
  have o1: "game_objects ?t1 = [?car, ?h, ?o]" "callback_set ?t1" "score ?t1 = - 200"
    using objs st by (simp_all add: destroy_game_object_def mode_inc_def game_consts)
  obtain t2 where t2: "stop ?t1 = Inr t2" "stop_frame ?t1 t2" using stop_Inr by blast
  have o2: "game_objects t2 = [?car, ?h, ?o]" using t2(2) o1 by (simp add: stop_frame_def)
  have "handle_collisions robocar_hit = fold_js collide_pair [(Suc 0, 2), (Suc 0, 3), (2, 3)] robocar_hit"
    using objs by (simp add: handle_collisions_def object_keys_def collision_pairs_123 del: fold_js.simps)
  also have "\<dots> = Inr t2"
    using objs o1(1) o2 hits r1 t2(1)
    by (simp add: lookup_object_def respond_car_obstacle respond_silent new_car_def new_obstacle_def
        new_human_def new_game_object_def)
  finally have h: "handle_collisions robocar_hit = Inr t2" .
  let ?d = "get_game_data (?t1\<lparr>is_game_over := True\<rparr>)"
  have c: "callbacks t2 = [?d]"
    using stop_callbacks [OF t2(1)] o1(2) st(2) by (simp add: destroy_game_object_def)
  have ds: "data_var ''score'' ?d = - 200" "data_var ''maxScore'' ?d = 0" "data_var ''gameOver'' ?d = 1"
    using o1(3) st(5) by (simp_all add: data_var_def get_game_data_def destroy_game_object_def)
  have "message (game_callback ?d p) = ''You've earned -200 points!''"
    using ds by (simp add: game_callback_def Let_def num_str_neg_200)
  with h c ds show ?thesis by blast
qed

text \<open>
  C19. The end message calls a tie a new record: when the floored score only equals the
  previous maximum (11.95 plus the tick's 0.1 against a stored 12), \<open>updateScore\<close>
  leaves the maximum at 12 and the message still says "That's a new record!". (In the
  code a maximum loaded from \<open>localStorage\<close> is the string "12"; \<open>12.05 > "12"\<close>
  still holds, so \<open>updateScore\<close> replaces it by the number 12 and the message is the
  same.)
\<close>

theorem tie_new_record:
  "max_score (update_score tie_state) = max_score tie_state \<and>
   message (game_callback (get_game_data ((update_score tie_state)\<lparr>is_game_over := True\<rparr>)) p) =
     ''You've earned 12 points! That's a new record!''"
proof -
  have u: "score (update_score tie_state) = 12.05" "max_score (update_score tie_state) = 12"
    "max_score tie_state = 12"
    by (simp_all add: update_score_def tie_state_def game_module_def Let_def)
  have f: "\<lfloor>score (update_score tie_state)\<rfloor> = 12" using u(1) by (simp add: floor_eq_iff)
  have "num_str 12 = ''12''" by code_simp
  with u f show ?thesis
    by (simp add: game_callback_def Let_def data_var_def get_game_data_def)
qed

end
